(* ===== verification/Prelude.thy ===== *)
theory Prelude
  imports Main
begin

text \<open>
  Shared material of the development: the result type of fallible code, the part of the
  ECMAScript string and number library the sources use, and SQL statements over a table
  kept as the list of its rows in rowid order.

  Strings are \<^typ>\<open>string\<close>: a code unit is one \<^typ>\<open>char\<close>, so \<open>length\<close> counts what
  \<open>String.length\<close> counts for code units up to \<open>U+00FF\<close>. Numbers that the sources use as
  counters, versions and millisecond clocks are \<^typ>\<open>int\<close>; where a source checks
  \<open>Number.isSafeInteger\<close> the model checks \<open>safe_integer\<close>.
\<close>

named_theorems table_simps \<open>rewriting of table lookups after updates\<close>
named_theorems store_defs \<open>definitions of the store operations\<close>

section \<open>Results\<close>

text \<open>A fallible operation returns \<open>Inl\<close> of the thrown error or \<open>Inr\<close> of its result.\<close>

fun ok :: "'e + 'a \<Rightarrow> bool" where
  "ok (Inl _) = False"
| "ok (Inr _) = True"

lemma ok_iff: "ok x \<longleftrightarrow> (\<exists>y. x = Inr y)"
  by (cases x) auto

text \<open>
  The three shapes fallible code has: a guard that throws (\<open>require\<close>), a lookup that
  throws when there is no row (\<open>fetch\<close>), and a statement after one that may throw
  (\<open>and_then\<close>). An operation that throws returns no state: its transaction rolls back.
\<close>

definition require :: "bool \<Rightarrow> 'e \<Rightarrow> 'e + 'a \<Rightarrow> 'e + 'a" where
  "require c e k = (if c then k else Inl e)"

definition fetch :: "'r option \<Rightarrow> 'e \<Rightarrow> ('r \<Rightarrow> 'e + 'a) \<Rightarrow> 'e + 'a" where
  "fetch row e k = (case row of None \<Rightarrow> Inl e | Some r \<Rightarrow> k r)"

definition and_then :: "'e + 'a \<Rightarrow> ('a \<Rightarrow> 'e + 'b) \<Rightarrow> 'e + 'b" where
  "and_then x k = (case x of Inl e \<Rightarrow> Inl e | Inr y \<Rightarrow> k y)"

lemma require_Inr [simp]: "require c e k = Inr y \<longleftrightarrow> c \<and> k = Inr y"
  by (simp add: require_def)

lemma fetch_Inr [simp]: "fetch row e k = Inr y \<longleftrightarrow> (\<exists>r. row = Some r \<and> k r = Inr y)"
  by (cases row) (simp_all add: fetch_def)

lemma and_then_Inr [simp]: "and_then x k = Inr y \<longleftrightarrow> (\<exists>z. x = Inr z \<and> k z = Inr y)"
  by (cases x) (simp_all add: and_then_def)

lemma result_eval:
  "require True e k = k"
  "require False e k = Inl e"
  "fetch (Some r) e f = f r"
  "fetch None e f = Inl e"
  "and_then (Inr z) g = g z"
  "and_then (Inl d) g = Inl d"
  by (simp_all add: require_def fetch_def and_then_def)

text \<open>A loop that throws on the first element of some kind.\<close>

definition refuse :: "'r option \<Rightarrow> ('r \<Rightarrow> 'e) \<Rightarrow> 'e + 'a \<Rightarrow> 'e + 'a" where
  "refuse row e k = (case row of None \<Rightarrow> k | Some r \<Rightarrow> Inl (e r))"

lemma refuse_Inr [simp]: "refuse row e k = Inr y \<longleftrightarrow> row = None \<and> k = Inr y"
  by (cases row) (simp_all add: refuse_def)

text \<open>
  The code equations of the operations carry these shapes and the splitting of pairs inlined as
  case distinctions, so that evaluation does not enter a continuation before its argument is known.
\<close>

declare require_def [code_unfold] fetch_def [code_unfold] and_then_def [code_unfold] refuse_def [code_unfold]
  case_prod_unfold [code_unfold]

text \<open>\<open>COALESCE(column, v)\<close> on a nullable column.\<close>

definition coalesce :: "'a option \<Rightarrow> 'a \<Rightarrow> 'a option" where
  "coalesce x v = (case x of None \<Rightarrow> Some v | Some y \<Rightarrow> Some y)"

section \<open>ECMAScript strings and numbers\<close>

text \<open>The code units below \<open>U+0100\<close> that \<open>String.prototype.trim\<close> removes.\<close>

definition js_space :: "char \<Rightarrow> bool" where
  "js_space c = (of_char c \<in> set [9, 10, 11, 12, 13, 32, 160 :: nat])"

definition js_trim :: "string \<Rightarrow> string" where
  "js_trim s = rev (dropWhile js_space (rev (dropWhile js_space s)))"

definition nul :: char where
  "nul = char_of (0 :: nat)"

definition safe_integer :: "int \<Rightarrow> bool" where
  "safe_integer n \<longleftrightarrow> - 9007199254740991 \<le> n \<and> n \<le> 9007199254740991"

text \<open>Decimal rendering, as string interpolation renders an integer.\<close>

fun show_nat :: "nat \<Rightarrow> string" where
  "show_nat n =
     (if n < 10 then [''0123456789'' ! n] else show_nat (n div 10) @ [''0123456789'' ! (n mod 10)])"

declare show_nat.simps [simp del]

definition show_int :: "int \<Rightarrow> string" where
  "show_int n = (if n < 0 then CHR ''-'' # show_nat (nat (- n)) else show_nat (nat n))"

lemma digit_char_inj:
  assumes "i < 10" and "j < 10" and "''0123456789'' ! i = ''0123456789'' ! j"
  shows "i = j"
proof -
  have "distinct ''0123456789''" by simp
  with assms show ?thesis by (subst (asm) nth_eq_iff_index_eq) auto
qed

lemma show_nat_not_Nil [simp]: "show_nat n \<noteq> []"
  by (subst show_nat.simps) simp

lemma digit_char_set: "i < 10 \<Longrightarrow> ''0123456789'' ! i \<in> set ''0123456789''"
  by (rule nth_mem) simp

lemma set_show_nat: "set (show_nat n) \<subseteq> set ''0123456789''"
proof (induction n rule: show_nat.induct)
  case (1 n)
  show ?case
  proof (cases "n < 10")
    case True
    then show ?thesis using digit_char_set [of n] by (subst show_nat.simps) simp
  next
    case False
    with 1 have "set (show_nat (n div 10)) \<subseteq> set ''0123456789''" by simp
    with False digit_char_set [of "n mod 10"] show ?thesis by (subst show_nat.simps) simp
  qed
qed

lemma length_show_nat_ge10: "10 \<le> n \<Longrightarrow> 2 \<le> length (show_nat n)"
  by (subst show_nat.simps) (simp add: Suc_le_eq)

lemma show_nat_inj: "show_nat m = show_nat n \<Longrightarrow> m = n"
proof (induction m arbitrary: n rule: show_nat.induct)
  case (1 m)
  note eq = "1.prems"
  show ?case
  proof (cases "m < 10")
    case True
    then have "length (show_nat m) = 1" by (subst show_nat.simps) simp
    with eq have n: "n < 10" using length_show_nat_ge10 [of n] by (cases "n < 10") auto
    from eq True n have "''0123456789'' ! m = ''0123456789'' ! n"
      by (simp add: show_nat.simps [of m] show_nat.simps [of n])
    with True n show ?thesis by (rule digit_char_inj)
  next
    case False
    have n: "\<not> n < 10"
    proof
      assume "n < 10"
      then have "length (show_nat n) = 1" by (subst show_nat.simps) simp
      with eq False length_show_nat_ge10 [of m] show False by simp
    qed
    from eq False n
    have "show_nat (m div 10) = show_nat (n div 10)"
      and d: "''0123456789'' ! (m mod 10) = ''0123456789'' ! (n mod 10)"
      by (simp_all add: show_nat.simps [of m] show_nat.simps [of n])
    with "1.IH" [OF False] have "m div 10 = n div 10" by blast
    moreover from d have "m mod 10 = n mod 10" by (intro digit_char_inj) simp_all
    ultimately show ?thesis by (metis div_mult_mod_eq)
  qed
qed

lemma minus_not_digit: "CHR ''-'' \<notin> set (show_nat n)"
proof
  assume "CHR ''-'' \<in> set (show_nat n)"
  with set_show_nat [of n] have "CHR ''-'' \<in> set ''0123456789''" by blast
  then show False by simp
qed

lemma show_int_inj: "show_int m = show_int n \<Longrightarrow> m = n"
proof -
  assume eq: "show_int m = show_int n"
  have neg: "CHR ''-'' # s \<noteq> show_nat k" for s k
    using minus_not_digit [of k] by (metis list.set_intros(1))
  show "m = n"
    using eq neg neg [symmetric]
    by (auto simp: show_int_def split: if_splits dest!: show_nat_inj)
qed

lemma colon_not_show_int: "CHR '':'' \<notin> set (show_int n)"
proof
  assume "CHR '':'' \<in> set (show_int n)"
  then obtain k where "CHR '':'' \<in> set (show_nat k)"
    by (auto simp: show_int_def split: if_splits)
  with set_show_nat [of k] have "CHR '':'' \<in> set ''0123456789''" by blast
  then show False by simp
qed

text \<open>The part after the last separator and the part before it are determined by the whole.\<close>

lemma last_separator_inj:
  assumes "xs @ c # ys = xs' @ c # ys'" and "c \<notin> set ys" and "c \<notin> set ys'"
  shows "xs = xs' \<and> ys = ys'"
proof -
  have "takeWhile (\<lambda>x. x \<noteq> c) (rev (xs @ c # ys)) = rev ys" if "c \<notin> set ys" for xs ys
    using that by (auto simp: takeWhile_append)
  with assms have "rev ys = rev ys'" by metis
  with assms(1) show ?thesis by simp
qed

section \<open>Tables\<close>

text \<open>
  A table is the list of its rows. \<open>SELECT ... WHERE P LIMIT 1\<close> is \<open>find P\<close>,
  \<open>UPDATE ... SET f WHERE P\<close> is \<open>upd P f\<close>, the statement's \<open>changes\<close> is \<open>cnt P\<close>, and
  \<open>INSERT\<close> appends a row.
\<close>

definition upd :: "('r \<Rightarrow> bool) \<Rightarrow> ('r \<Rightarrow> 'r) \<Rightarrow> 'r list \<Rightarrow> 'r list" where
  "upd P f t = map (\<lambda>r. if P r then f r else r) t"

definition cnt :: "('r \<Rightarrow> bool) \<Rightarrow> 'r list \<Rightarrow> nat" where
  "cnt P t = length (filter P t)"

lemma upd_simps [simp]:
  "upd P f [] = []"
  "upd P f (r # t) = (if P r then f r else r) # upd P f t"
  by (simp_all add: upd_def)

lemma upd_append [simp]: "upd P f (s @ t) = upd P f s @ upd P f t"
  by (simp add: upd_def)

lemma cnt_simps [simp]:
  "cnt P [] = 0"
  "cnt P (r # t) = (if P r then Suc (cnt P t) else cnt P t)"
  by (simp_all add: cnt_def)

lemma length_upd [simp]: "length (upd P f t) = length t"
  by (simp add: upd_def)

lemma set_upd: "set (upd P f t) = (\<lambda>r. if P r then f r else r) ` set t"
  by (simp add: upd_def)

lemma upd_id: "(\<And>r. r \<in> set t \<Longrightarrow> P r \<Longrightarrow> f r = r) \<Longrightarrow> upd P f t = t"
  by (auto simp: upd_def intro: map_idI)

lemma upd_none: "(\<And>r. r \<in> set t \<Longrightarrow> \<not> P r) \<Longrightarrow> upd P f t = t"
  by (rule upd_id) auto

lemma upd_cong: "(\<And>r. r \<in> set t \<Longrightarrow> P r = Q r) \<Longrightarrow> upd P f t = upd Q f t"
  by (auto simp: upd_def)

lemma map_upd [table_simps]:
  "(\<And>r. k (f r) = k r) \<Longrightarrow> map k (upd P f t) = map k t"
  by (induction t) auto

lemma find_key_upd [table_simps]:
  "(\<And>r. k (f r) = k r) \<Longrightarrow>
   find (\<lambda>r. k r = x) (upd P f t) =
   map_option (\<lambda>r. if P r then f r else r) (find (\<lambda>r. k r = x) t)"
  by (induction t) auto

lemma find_append: "find P (s @ t) = (case find P s of None \<Rightarrow> find P t | Some r \<Rightarrow> Some r)"
  by (induction s) auto

lemma find_upd_other:
  "(\<And>r. P r \<Longrightarrow> k r \<noteq> x \<and> k (f r) \<noteq> x) \<Longrightarrow>
   find (\<lambda>r. k r = x) (upd P f t) = find (\<lambda>r. k r = x) t"
  by (induction t) auto

lemma find_SomeD: "find P t = Some r \<Longrightarrow> r \<in> set t \<and> P r"
  by (induction t) (auto split: if_splits)

lemma find_NoneD: "find P t = None \<Longrightarrow> r \<in> set t \<Longrightarrow> \<not> P r"
  by (induction t) (auto split: if_splits)

lemma find_key_mem:
  "distinct (map k t) \<Longrightarrow> r \<in> set t \<Longrightarrow> find (\<lambda>r'. k r' = k r) t = Some r"
  by (induction t) (auto simp: image_iff)

lemma find_key_unique:
  "distinct (map k t) \<Longrightarrow> find (\<lambda>r. k r = x) t = Some r \<Longrightarrow> r' \<in> set t \<Longrightarrow> k r' = x \<Longrightarrow> r' = r"
  using find_key_mem [of k t r'] by simp

lemma find_None_key: "find (\<lambda>r. k r = x) t = None \<longleftrightarrow> x \<notin> k ` set t"
  by (induction t) auto

text \<open>An update keyed by the primary key touches one row when the key is present.\<close>

lemma cnt_key:
  "distinct (map k t) \<Longrightarrow> find (\<lambda>r. k r = x) t = Some r \<Longrightarrow>
   cnt (\<lambda>r. k r = x \<and> Q r) t = (if Q r then 1 else 0)"
proof (induction t)
  case Nil
  then show ?case by simp
next
  case (Cons a t)
  have none: "cnt (\<lambda>r. k r = x \<and> Q r) t = 0" if "x \<notin> k ` set t"
    using that by (auto simp: cnt_def filter_empty_conv)
  show ?case
    using Cons none by (auto split: if_splits)
qed

lemma filter_upd_other:
  "(\<And>r. r \<in> set t \<Longrightarrow> P r \<Longrightarrow> \<not> Q r \<and> \<not> Q (f r)) \<Longrightarrow> filter Q (upd P f t) = filter Q t"
  by (induction t) auto

end
