(* ===== verification/Attempt_Domain.thy ===== *)
theory Attempt_Domain
  imports Prelude
begin

text \<open>
  The Attempt aggregate of \<open>packages/execution/src/domain/attempt.ts\<close>: triggers,
  statuses and the closed transition table, the derived Attempt identity, and the
  execution lease and candidate result that hang off an Attempt.
\<close>

section \<open>Data\<close>

datatype attempt_trigger =
  Trig_initial | Trig_resume | Trig_continuation | Trig_retry | Trig_input | Trig_recovery

datatype attempt_status =
    A_queued | A_starting | A_running | A_settling | A_waiting_input | A_blocked
  | A_completed | A_failed | A_cancelled | A_interrupted | A_superseded

datatype candidate_status = Cand_proposed | Cand_accepted | Cand_rejected

record attempt =
  a_id :: string
  a_runId :: string
  a_ordinal :: int
  a_trigger :: attempt_trigger
  a_status :: attempt_status
  a_active :: bool
  a_version :: int
  a_eventSequence :: int
  a_startedAt :: int
  a_updatedAt :: int
  a_completedAt :: "int option"

record execution_lease =
  l_attemptId :: string
  l_ownerId :: string
  l_token :: string
  l_fence :: int
  l_attemptVersion :: int
  l_leaseUntil :: int
  l_heartbeatAt :: int
  l_releasedAt :: "int option"

record candidate_result =
  c_id :: string
  c_attemptId :: string
  c_attemptVersion :: int
  c_response :: string
  c_responseHash :: string
  c_status :: candidate_status
  c_createdAt :: int
  c_settledAt :: "int option"

section \<open>The transition table\<close>

definition ATTEMPT_STATUSES :: "attempt_status list" where
  "ATTEMPT_STATUSES =
     [A_queued, A_starting, A_running, A_settling, A_waiting_input, A_blocked,
      A_completed, A_failed, A_cancelled, A_interrupted, A_superseded]"

fun ATTEMPT_TRANSITIONS :: "attempt_status \<Rightarrow> attempt_status list" where
  "ATTEMPT_TRANSITIONS A_queued = [A_starting, A_failed, A_cancelled, A_interrupted]"
| "ATTEMPT_TRANSITIONS A_starting = [A_running, A_failed, A_cancelled, A_interrupted]"
| "ATTEMPT_TRANSITIONS A_running =
     [A_settling, A_waiting_input, A_blocked, A_failed, A_cancelled, A_interrupted]"
| "ATTEMPT_TRANSITIONS A_settling =
     [A_completed, A_blocked, A_failed, A_cancelled, A_interrupted]"
| "ATTEMPT_TRANSITIONS A_waiting_input = [A_blocked]"
| "ATTEMPT_TRANSITIONS A_blocked = []"
| "ATTEMPT_TRANSITIONS A_completed = []"
| "ATTEMPT_TRANSITIONS A_failed = []"
| "ATTEMPT_TRANSITIONS A_cancelled = []"
| "ATTEMPT_TRANSITIONS A_interrupted = []"
| "ATTEMPT_TRANSITIONS A_superseded = []"

definition canTransitionAttempt :: "attempt_status \<Rightarrow> attempt_status \<Rightarrow> bool" where
  "canTransitionAttempt from to = (to \<in> set (ATTEMPT_TRANSITIONS from))"

definition isActiveAttemptStatus :: "attempt_status \<Rightarrow> bool" where
  "isActiveAttemptStatus s =
     (s = A_queued \<or> s = A_starting \<or> s = A_running \<or> s = A_settling)"

lemma isActive_simps [simp]:
  "isActiveAttemptStatus A_queued" "isActiveAttemptStatus A_starting"
  "isActiveAttemptStatus A_running" "isActiveAttemptStatus A_settling"
  "\<not> isActiveAttemptStatus A_waiting_input" "\<not> isActiveAttemptStatus A_blocked"
  "\<not> isActiveAttemptStatus A_completed" "\<not> isActiveAttemptStatus A_failed"
  "\<not> isActiveAttemptStatus A_cancelled" "\<not> isActiveAttemptStatus A_interrupted"
  "\<not> isActiveAttemptStatus A_superseded"
  by (simp_all add: isActiveAttemptStatus_def)

text \<open>The table read as a step relation on statuses.\<close>

inductive attempt_step :: "attempt_status \<Rightarrow> attempt_status \<Rightarrow> bool" where
  "canTransitionAttempt s t \<Longrightarrow> attempt_step s t"

inductive_simps attempt_step_iff: "attempt_step s t"

inductive attempt_path :: "attempt_status \<Rightarrow> attempt_status list \<Rightarrow> attempt_status \<Rightarrow> bool" where
  stop: "attempt_path s [] s"
| move: "attempt_step s t \<Longrightarrow> attempt_path t ts u \<Longrightarrow> attempt_path s (t # ts) u"

text \<open>A rank that every transition of the table increases.\<close>

fun attempt_rank :: "attempt_status \<Rightarrow> nat" where
  "attempt_rank A_queued = 0"
| "attempt_rank A_starting = 1"
| "attempt_rank A_running = 2"
| "attempt_rank A_settling = 3"
| "attempt_rank A_waiting_input = 3"
| "attempt_rank _ = 4"

lemma attempt_step_rank: "attempt_step s t \<Longrightarrow> attempt_rank s < attempt_rank t"
  by (cases s) (auto simp: attempt_step_iff canTransitionAttempt_def)

lemma attempt_path_rank: "attempt_path s ts t \<Longrightarrow> attempt_rank s + length ts \<le> attempt_rank t"
  by (induction rule: attempt_path.induct) (auto dest: attempt_step_rank)

lemma attempt_rank_le: "attempt_rank s \<le> 4"
  by (cases s) auto

lemma attempt_path_bounded: "attempt_path s ts t \<Longrightarrow> length ts \<le> 4"
  using attempt_path_rank [of s ts t] attempt_rank_le [of t] by simp

lemma attempt_path_distinct_aux:
  "attempt_path s ts t \<Longrightarrow> distinct (s # ts) \<and> (\<forall>u \<in> set ts. attempt_rank s < attempt_rank u)"
proof (induction rule: attempt_path.induct)
  case (stop s)
  then show ?case by simp
next
  case (move s t ts u)
  have "attempt_rank s < attempt_rank t" using move.hyps(1) by (rule attempt_step_rank)
  with move.IH show ?case by auto
qed

section \<open>Attempt identity\<close>

datatype attempt_id_error = RunIdRequired | OrdinalNotPositive

text \<open>The rendering \<open>attempt:<runId>:<ordinal>\<close>, shared with \<open>Store.attemptId\<close>.\<close>

definition attemptId :: "string \<Rightarrow> int \<Rightarrow> string" where
  "attemptId runId ordinal = ''attempt:'' @ runId @ '':'' @ show_int ordinal"

definition attemptIdFor :: "string \<Rightarrow> int \<Rightarrow> attempt_id_error + string" where
  "attemptIdFor runId ordinal =
     (if js_trim runId = '''' then Inl RunIdRequired
      else if \<not> safe_integer ordinal \<or> ordinal \<le> 0 then Inl OrdinalNotPositive
      else Inr (attemptId runId ordinal))"

lemma attemptId_inj [simp]: "attemptId r m = attemptId s n \<longleftrightarrow> r = s \<and> m = n"
proof
  assume "attemptId r m = attemptId s n"
  then have "r @ CHR '':'' # show_int m = s @ CHR '':'' # show_int n"
    by (simp add: attemptId_def)
  then have "r = s \<and> show_int m = show_int n"
    by (rule last_separator_inj) (rule colon_not_show_int)+
  then show "r = s \<and> m = n" using show_int_inj by blast
qed simp

end
