(* ===== verification/Js_Values.thy ===== *)
theory Js_Values
  imports Prelude
begin

text \<open>
  ECMAScript data values as the durable JSON columns carry them. An object is the
  association list of its own enumerable properties in enumeration order. \<open>JOpaque\<close>
  stands for a function, a symbol or a bigint. A finite number that is not an integer
  carries its \<open>Number::toString\<close> rendering.
\<close>

datatype jsnum = JInt int | JNegZero | JFrac string | JNonFinite

datatype jsval =
    JUndefined
  | JNull
  | JBool bool
  | JNum jsnum
  | JStr string
  | JArr "jsval list"
  | JObj "(string \<times> jsval) list"
  | JOpaque

text \<open>\<open>json_extract(data,'$.k')\<close> on an object column, for a key that is an identifier.\<close>

fun json_extract :: "jsval \<Rightarrow> string \<Rightarrow> jsval option" where
  "json_extract (JObj kvs) k = map_of kvs k"
| "json_extract _ k = None"

end
