(* ===== verification/Task_Policy.thy ===== *)
theory Task_Policy
  imports Js_Values
begin

text \<open>
  The execution policy of \<open>packages/governance/src/domain/task-policy.ts\<close> and the
  immutable contract of \<open>packages/execution/src/domain/task-run-launch.ts\<close> it is read
  from. Admission proposes a policy; \<open>effectiveTaskExecutionPolicy\<close> normalizes it and
  applies the floors that Core owns.
\<close>

section \<open>Policy vocabulary\<close>

datatype task_mode =
  Exact_delivery | Semantic_delivery | Read_only_analysis | Workspace_mutation | External_action

datatype side_effect_risk = Risk_none | Risk_read_only | Risk_workspace | Risk_external_high

datatype evidence_policy = Ev_none | Ev_semantic | Ev_operation_receipt | Ev_trusted_check

datatype review_policy = Rev_local | Rev_semantic_lite | Rev_full

datatype gate_profile = Gate_off | Gate_relaxed | Gate_strict

record task_policy =
  p_mode :: task_mode
  p_sideEffectRisk :: side_effect_risk
  p_evidencePolicy :: evidence_policy
  p_reviewPolicy :: review_policy
  p_policyVersion :: string
  p_confidence :: jsnum
  p_reason :: string
  p_gateProfile :: "gate_profile option"
  p_exactOutput :: "string option"

section \<open>The contract a TaskRun is launched with\<close>

datatype objective_timing = T_current | T_follow_up | T_parallel

datatype objective_kind =
  K_change | K_investigate | K_verify | K_document | K_release | K_answer | K_other

record objective =
  o_id :: string
  o_summary :: string
  o_timing :: objective_timing
  o_kind :: objective_kind

datatype goal_mode = Goal_workspace | Goal_roadmap

record goal_criterion =
  gc_key :: string
  gc_title :: string
  gc_required :: bool

record goal_roadmap_item =
  gi_id :: string
  gi_title :: string
  gi_outcome :: string
  gi_verification :: string
  gi_criterionKeys :: "string list"

record workspace_goal_snapshot =
  g_goalId :: string
  g_mode :: goal_mode
  g_definitionRevisionId :: string
  g_definitionRevision :: int
  g_definitionHash :: string
  g_title :: string
  g_outcome :: string
  g_scope :: "string list"
  g_nonGoals :: "string list"
  g_criteria :: "goal_criterion list"
  g_roadmapRevisionId :: "string option"
  g_roadmapRevision :: "int option"
  g_roadmapHash :: "string option"
  g_approvedRoadmapItemIds :: "string list"
  g_targetRoadmapItemIds :: "string list"
  g_roadmapItems :: "goal_roadmap_item list"
  g_targetCriterionKeys :: "string list"
  g_criterionPrompts :: "(string \<times> string) list"
  g_attachedAt :: int

record skill_snapshot =
  sk_skillId :: string
  sk_revisionId :: string
  sk_revision :: int
  sk_name :: string
  sk_description :: string
  sk_content :: string
  sk_filePath :: string
  sk_sha256 :: string
  sk_disableModelInvocation :: bool

datatype contract_relation =
    Rel_same_goal | Rel_correction | Rel_constraint | Rel_follow_up | Rel_parallel
  | Rel_derived | Rel_depends_on | Rel_independent

datatype task_intent =
    Int_steer_active | Int_follow_up_active | Int_update_active_context | Int_new_task
  | Int_parallel_task | Int_merge_candidate | Int_discussion | Int_clarification | Int_defer

text \<open>
  The policy functions read a structural subset of the contract: \<open>policy_contract_view\<close>
  holds it and \<open>contract\<close> extends it with the fields only other components read.
\<close>

record policy_contract_view =
  k_objectives :: "objective list"
  k_workspaceGoal :: "workspace_goal_snapshot option"
  k_executionPolicy :: "task_policy option"

record contract = policy_contract_view +
  k_sourceInput :: string
  k_summary :: string
  k_acceptanceCriteria :: "string list"
  k_scope :: string
  k_nonGoals :: "string list"
  k_sourceInboxIds :: "string list"
  k_parentRunId :: "string option"
  k_relation :: contract_relation
  k_intent :: task_intent
  k_decisionReason :: string
  k_routerVersion :: string
  k_skills :: "skill_snapshot list option"

definition taskRunPlanningCriteria :: "contract option \<Rightarrow> string list" where
  "taskRunPlanningCriteria contract =
     (let criteria = (case contract of None \<Rightarrow> [] | Some k \<Rightarrow> k_acceptanceCriteria k)
      in case contract of
           None \<Rightarrow> criteria
         | Some k \<Rightarrow>
             (case k_workspaceGoal k of
                None \<Rightarrow> criteria
              | Some g \<Rightarrow>
                  if g_mode g \<noteq> Goal_roadmap then criteria
                  else (let goalPrompts = map snd (g_criterionPrompts g)
                        in filter (\<lambda>c. c \<notin> set goalPrompts) criteria)))"

section \<open>Gate profile\<close>

definition gateProfileOf :: "task_policy option \<Rightarrow> gate_profile" where
  "gateProfileOf policy =
     (case policy of None \<Rightarrow> Gate_strict
      | Some p \<Rightarrow> (case p_gateProfile p of None \<Rightarrow> Gate_strict | Some g \<Rightarrow> g))"

definition effectiveGateProfile :: "'a policy_contract_view_scheme option \<Rightarrow> gate_profile" where
  "effectiveGateProfile contract =
     gateProfileOf (case contract of None \<Rightarrow> None | Some k \<Rightarrow> k_executionPolicy k)"

section \<open>Observed operations\<close>

record policy_operation_view =
  ov_operationType :: string
  ov_status :: string
  ov_attempt :: int
  ov_effects :: "jsval list option"

text \<open>\<open>record(value)\<close>: the properties of a non-array object.\<close>

fun js_record :: "jsval \<Rightarrow> (string \<times> jsval) list option" where
  "js_record (JObj kvs) = Some kvs"
| "js_record _ = None"

definition operationMayMutate :: "policy_operation_view \<Rightarrow> bool" where
  "operationMayMutate oper =
     (if ov_status oper = ''pre_effect_rejected'' then False
      else if ov_operationType oper \<in> set [''tool.write'', ''tool.edit'', ''tool.patch'', ''tool.memory_forget'']
        then True
      else if ov_operationType oper \<noteq> ''tool.bash'' then False
      else
        let effects = (case ov_effects oper of None \<Rightarrow> [] | Some es \<Rightarrow> es);
            workspaceEffects =
              filter (\<lambda>kvs. map_of kvs ''kind'' = Some (JStr ''workspace''))
                (List.map_filter js_record effects)
        in \<not> list_ex (\<lambda>kvs. map_of kvs ''action'' = Some (JStr ''read_only'')) workspaceEffects
           \<or> list_ex (\<lambda>kvs. map_of kvs ''action'' \<noteq> Some (JStr ''read_only'')) workspaceEffects)"

section \<open>Ranks and floors\<close>

fun riskRank :: "side_effect_risk \<Rightarrow> nat" where
  "riskRank Risk_none = 0"
| "riskRank Risk_read_only = 1"
| "riskRank Risk_workspace = 2"
| "riskRank Risk_external_high = 3"

fun evidenceRank :: "evidence_policy \<Rightarrow> nat" where
  "evidenceRank Ev_none = 0"
| "evidenceRank Ev_semantic = 1"
| "evidenceRank Ev_operation_receipt = 2"
| "evidenceRank Ev_trusted_check = 3"

fun reviewRank :: "review_policy \<Rightarrow> nat" where
  "reviewRank Rev_local = 0"
| "reviewRank Rev_semantic_lite = 1"
| "reviewRank Rev_full = 2"

text \<open>The order in which the mode normalization prefers the modes.\<close>

fun modeRank :: "task_mode \<Rightarrow> nat" where
  "modeRank Exact_delivery = 0"
| "modeRank Semantic_delivery = 1"
| "modeRank Read_only_analysis = 2"
| "modeRank Workspace_mutation = 3"
| "modeRank External_action = 4"

definition maxByRank :: "'t \<Rightarrow> 't \<Rightarrow> ('t \<Rightarrow> nat) \<Rightarrow> 't" where
  "maxByRank left right rank = (if rank right \<le> rank left then left else right)"

definition conservativeTaskExecutionPolicy :: "'a policy_contract_view_scheme option \<Rightarrow> task_policy" where
  "conservativeTaskExecutionPolicy contract =
     (let currentKinds =
            (case contract of None \<Rightarrow> []
             | Some k \<Rightarrow> map o_kind (filter (\<lambda>item. o_timing item = T_current) (k_objectives k)));
          mutating = list_ex (\<lambda>kind. kind \<in> set [K_change, K_verify, K_release]) currentKinds;
          discussion = (currentKinds = [K_answer])
      in \<lparr>p_mode = (if mutating then Workspace_mutation
                    else if discussion then Semantic_delivery else Read_only_analysis),
          p_sideEffectRisk = (if mutating then Risk_workspace
                              else if discussion then Risk_none else Risk_read_only),
          p_evidencePolicy = (if mutating then Ev_trusted_check
                              else if discussion then Ev_semantic else Ev_operation_receipt),
          p_reviewPolicy = (if mutating \<or> \<not> discussion then Rev_full else Rev_semantic_lite),
          p_policyVersion = ''conservative-default-v1'',
          p_confidence = JInt 1,
          p_reason = ''Core conservatively derived policy for a contract without an Admission execution policy.'',
          p_gateProfile = None,
          p_exactOutput = None\<rparr>)"

definition normalizedMode :: "task_policy \<Rightarrow> task_mode" where
  "normalizedMode source =
     (if p_mode source = External_action \<or> p_sideEffectRisk source = Risk_external_high
        then External_action
      else if p_mode source = Workspace_mutation \<or> p_sideEffectRisk source = Risk_workspace
           \<or> p_evidencePolicy source = Ev_trusted_check
        then Workspace_mutation
      else if p_mode source = Read_only_analysis \<or> p_sideEffectRisk source = Risk_read_only
           \<or> p_evidencePolicy source = Ev_operation_receipt
        then Read_only_analysis
      else if p_mode source = Semantic_delivery \<or> p_evidencePolicy source = Ev_semantic
           \<or> p_reviewPolicy source \<noteq> Rev_local
           \<or> (case p_exactOutput source of None \<Rightarrow> True | Some out \<Rightarrow> js_trim out = '''')
        then Semantic_delivery
      else Exact_delivery)"

fun modeProfile :: "task_mode \<Rightarrow> side_effect_risk \<times> evidence_policy \<times> review_policy" where
  "modeProfile External_action = (Risk_external_high, Ev_trusted_check, Rev_full)"
| "modeProfile Workspace_mutation = (Risk_workspace, Ev_trusted_check, Rev_full)"
| "modeProfile Read_only_analysis = (Risk_read_only, Ev_operation_receipt, Rev_full)"
| "modeProfile Exact_delivery = (Risk_none, Ev_none, Rev_local)"
| "modeProfile Semantic_delivery = (Risk_none, Ev_semantic, Rev_semantic_lite)"

definition roadmapAttached :: "'a policy_contract_view_scheme option \<Rightarrow> bool" where
  "roadmapAttached contract =
     (case contract of None \<Rightarrow> False
      | Some k \<Rightarrow> (case k_workspaceGoal k of None \<Rightarrow> False | Some g \<Rightarrow> g_mode g = Goal_roadmap))"

definition mutationObserved :: "policy_operation_view list \<Rightarrow> int option \<Rightarrow> bool" where
  "mutationObserved operations currentAttempt =
     (let currentOperations =
            (case currentAttempt of None \<Rightarrow> operations
             | Some n \<Rightarrow> filter (\<lambda>item. ov_attempt item = n) operations)
      in list_ex operationMayMutate currentOperations)"

definition policySource :: "'a policy_contract_view_scheme option \<Rightarrow> task_policy" where
  "policySource contract =
     (case (case contract of None \<Rightarrow> None | Some k \<Rightarrow> k_executionPolicy k) of
        Some p \<Rightarrow> p
      | None \<Rightarrow> conservativeTaskExecutionPolicy contract)"

fun join_space :: "string list \<Rightarrow> string" where
  "join_space [] = ''''"
| "join_space [s] = s"
| "join_space (s # ss) = s @ '' '' @ join_space ss"

definition effectiveTaskExecutionPolicy ::
  "'a policy_contract_view_scheme option \<Rightarrow> policy_operation_view list \<Rightarrow> int option \<Rightarrow> task_policy" where
  "effectiveTaskExecutionPolicy contract operations currentAttempt =
     (let source = policySource contract;
          nmode = normalizedMode source;
          (prisk, pevidence, preview) = modeProfile nmode;
          nreview = maxByRank (p_reviewPolicy source) preview reviewRank;
          proposed = source\<lparr>p_mode := nmode, p_sideEffectRisk := prisk,
                            p_evidencePolicy := pevidence, p_reviewPolicy := nreview\<rparr>;
          reasons1 = (if nmode \<noteq> p_mode source \<or> p_sideEffectRisk source \<noteq> prisk
                         \<or> p_evidencePolicy source \<noteq> pevidence \<or> p_reviewPolicy source \<noteq> nreview
                      then [p_reason proposed, ''Core normalized an inconsistent execution-policy profile to its strongest safety implication.'']
                      else [p_reason proposed]);
          mutation = mutationObserved operations currentAttempt;
          roadmap = roadmapAttached contract;
          raise = (roadmap \<or> mutation);
          mode = (if raise then (if p_mode proposed = External_action then p_mode proposed
                                 else Workspace_mutation)
                  else p_mode proposed);
          risk1 = (if raise then maxByRank (p_sideEffectRisk proposed) Risk_workspace riskRank
                   else p_sideEffectRisk proposed);
          evidence1 = (if raise then maxByRank (p_evidencePolicy proposed) Ev_trusted_check evidenceRank
                       else p_evidencePolicy proposed);
          review1 = (if raise then maxByRank (p_reviewPolicy proposed) Rev_full reviewRank
                     else p_reviewPolicy proposed);
          reasons = (if raise then reasons1 @
                       [if roadmap
                        then ''Core raised the policy because an approved Workspace Goal Roadmap item is attached.''
                        else ''Core raised the policy because a mutation-capable operation was observed in the current Attempt.'']
                     else reasons1);
          (risk2, evidence2, review2) =
            (if mode = External_action then (Risk_external_high, Ev_trusted_check, Rev_full)
             else if mode = Workspace_mutation
               then (maxByRank risk1 Risk_workspace riskRank,
                     maxByRank evidence1 Ev_trusted_check evidenceRank, Rev_full)
             else (risk1, evidence1, review1));
          review3 = (if review2 = Rev_local \<and> mode \<noteq> Exact_delivery then Rev_semantic_lite else review2)
      in proposed\<lparr>p_mode := mode, p_sideEffectRisk := risk2, p_evidencePolicy := evidence2,
                  p_reviewPolicy := review3, p_reason := join_space reasons\<rparr>)"

section \<open>Lemmas\<close>

lemma maxByRank_rank [simp]: "rank (maxByRank l r rank) = max (rank l) (rank r)"
  by (simp add: maxByRank_def max_def)

text \<open>
  The mode, risk, evidence and review of the effective policy, computed from the source
  policy and whether the policy is raised.
\<close>

definition raised_mode :: "bool \<Rightarrow> task_mode \<Rightarrow> task_mode" where
  "raised_mode raise m = (if raise \<and> m \<noteq> External_action then Workspace_mutation else m)"

lemma effective_fields:
  fixes contract :: "'a policy_contract_view_scheme option"
    and ops :: "policy_operation_view list" and att :: "int option"
  defines "source \<equiv> policySource contract"
  defines "m \<equiv> raised_mode (roadmapAttached contract \<or> mutationObserved ops att) (normalizedMode source)"
  shows "p_mode (effectiveTaskExecutionPolicy contract ops att) = m"
    and "p_sideEffectRisk (effectiveTaskExecutionPolicy contract ops att) = fst (modeProfile m)"
    and "p_evidencePolicy (effectiveTaskExecutionPolicy contract ops att) = fst (snd (modeProfile m))"
    and "p_reviewPolicy (effectiveTaskExecutionPolicy contract ops att) =
         maxByRank (p_reviewPolicy source) (snd (snd (modeProfile m))) reviewRank"
  unfolding assms effectiveTaskExecutionPolicy_def raised_mode_def Let_def
  by (cases "normalizedMode (policySource contract)"; cases "p_reviewPolicy (policySource contract)";
      simp add: maxByRank_def)+

lemma normalizedMode_exact:
  "normalizedMode p = Exact_delivery \<Longrightarrow> p_reviewPolicy p = Rev_local"
  by (auto simp: normalizedMode_def split: if_splits)

lemma normalizedMode_ge:
  "modeRank (p_mode p) \<le> modeRank (normalizedMode p)"
  "riskRank (p_sideEffectRisk p) \<le> riskRank (fst (modeProfile (normalizedMode p)))"
  "evidenceRank (p_evidencePolicy p) \<le> evidenceRank (fst (snd (modeProfile (normalizedMode p))))"
  by (cases "p_mode p"; cases "p_sideEffectRisk p"; cases "p_evidencePolicy p";
      simp add: normalizedMode_def)+

lemma raised_mode_ge:
  "modeRank m \<le> modeRank (raised_mode b m)"
  "riskRank (fst (modeProfile m)) \<le> riskRank (fst (modeProfile (raised_mode b m)))"
  "evidenceRank (fst (snd (modeProfile m))) \<le> evidenceRank (fst (snd (modeProfile (raised_mode b m))))"
  by (cases m; simp add: raised_mode_def)+

end
