(* ===== verification/Audit_Algebra.thy ===== *)
theory Audit_Algebra
  imports Task_Policy Js_Values
begin

text \<open>
  The action algebra of completion audits
  (\<open>packages/governance/src/application/supervisor-audit-algebra.ts\<close> and the types of
  \<open>packages/governance/src/domain/governance.ts\<close>). An audit proposes an action with five gates;
  \<open>enforceCompletionAuditAlgebra\<close> replaces the action by the one the gates' failures allow. The
  lemmas show when a run may complete, that the corrected audit is a fixed point, and what an
  accepted uncertainty can and cannot excuse.
\<close>

section \<open>Failures, coverage and gates\<close>

datatype supervisor_action =
    Act_observe | Act_steer | Act_follow_up | Act_pause_for_approval | Act_wait_for_runtime
  | Act_start_continuation | Act_complete_taskrun | Act_block_taskrun

fun action_name :: "supervisor_action \<Rightarrow> string" where
  "action_name Act_observe = ''observe''"
| "action_name Act_steer = ''steer''"
| "action_name Act_follow_up = ''follow_up''"
| "action_name Act_pause_for_approval = ''pause_for_approval''"
| "action_name Act_wait_for_runtime = ''wait_for_runtime''"
| "action_name Act_start_continuation = ''start_continuation''"
| "action_name Act_complete_taskrun = ''complete_taskrun''"
| "action_name Act_block_taskrun = ''block_taskrun''"

datatype disposition =
    Auto_fixable | Needs_user_input | Needs_approval | External_dependency | Runtime_transient | Non_recoverable

fun disposition_name :: "disposition \<Rightarrow> string" where
  "disposition_name Auto_fixable = ''auto_fixable''"
| "disposition_name Needs_user_input = ''needs_user_input''"
| "disposition_name Needs_approval = ''needs_approval''"
| "disposition_name External_dependency = ''external_dependency''"
| "disposition_name Runtime_transient = ''runtime_transient''"
| "disposition_name Non_recoverable = ''non_recoverable''"

record audit_failure =
  fl_kind :: string
  fl_key :: string
  fl_reason :: string
  fl_disposition :: disposition

definition deriveSupervisorAction :: "audit_failure list \<Rightarrow> supervisor_action" where
  "deriveSupervisorAction failures =
     (if failures = [] then Act_complete_taskrun
      else if list_ex (\<lambda>f. fl_disposition f = Needs_approval) failures then Act_pause_for_approval
      else if list_ex (\<lambda>f. fl_disposition f \<in> set [Needs_user_input, External_dependency, Non_recoverable]) failures
      then Act_block_taskrun
      else Act_start_continuation)"

datatype quote_selector =
    Text_quote string "int option"
  | Line_range int int
  | Byte_range int int
  | Json_pointer string

record evidence_quote =
  eq_sourceRef :: string
  eq_sourceRevision :: string
  eq_sourceHash :: string
  eq_selector :: quote_selector
  eq_quote :: string

datatype coverage_status = Covered | Unsupported | Contradicted | Cover_blocked

fun coverage_name :: "coverage_status \<Rightarrow> string" where
  "coverage_name Covered = ''covered''"
| "coverage_name Unsupported = ''unsupported''"
| "coverage_name Contradicted = ''contradicted''"
| "coverage_name Cover_blocked = ''blocked''"

record criterion_coverage =
  cv_criterion :: string
  cv_status :: coverage_status
  cv_evidenceRefs :: "string list"
  cv_evidenceQuotes :: "evidence_quote list option"
  cv_acceptedUncertaintyId :: "string option"
  cv_reason :: string

record accepted_uncertainty =
  un_id :: string
  un_runId :: string
  un_criterionId :: string
  un_criterion :: string
  un_contractHash :: string
  un_actorId :: string
  un_rationale :: string
  un_scope :: string
  un_evidenceRefs :: "string list"
  un_expiresAt :: "int option"
  un_createdAt :: int

record audit_gate =
  ag_passed :: bool
  ag_failures :: "audit_failure list"
  ag_criterionCoverage :: "criterion_coverage list option"
  ag_summary :: string

text \<open>\<open>Record<CompletionAuditGateType, CompletionAuditGate>\<close>.\<close>

record audit_gates =
  gs_progress :: audit_gate
  gs_evidence :: audit_gate
  gs_contract :: audit_gate
  gs_completion :: audit_gate
  gs_continuation :: audit_gate

record completion_audit =
  au_action :: supervisor_action
  au_reasonCode :: string
  au_rationale :: string
  au_gates :: audit_gates

section \<open>The algebra\<close>

definition failure_key :: "audit_failure \<Rightarrow> string" where
  "failure_key f =
     fl_kind f @ nul # fl_key f @ nul # fl_reason f @ nul # disposition_name (fl_disposition f)"

fun unique_after :: "string set \<Rightarrow> audit_failure list \<Rightarrow> audit_failure list" where
  "unique_after seen [] = []"
| "unique_after seen (f # fs) =
     (if failure_key f \<in> seen then unique_after seen fs
      else f # unique_after (insert (failure_key f) seen) fs)"

definition uniqueFailures :: "audit_failure list \<Rightarrow> audit_failure list" where
  "uniqueFailures = unique_after {}"

text \<open>The two names of the criterion at an index.\<close>

definition ac_key :: "nat \<Rightarrow> string" where
  "ac_key index = ''ac-'' @ show_nat (Suc index)"

definition criterion_key :: "nat \<Rightarrow> string" where
  "criterion_key index = ''acceptance_criterion_'' @ show_nat (Suc index)"

text \<open>\<open>acceptedByCriterion.get(`ac-${index + 1}`)\<close>: the last entry of a \<open>Map\<close> built from pairs.\<close>

definition accepted_for :: "accepted_uncertainty list \<Rightarrow> nat \<Rightarrow> accepted_uncertainty option" where
  "accepted_for acceptedUncertainties index =
     map_of (rev (map (\<lambda>u. (un_criterionId u, u)) acceptedUncertainties)) (ac_key index)"

definition qualifies :: "accepted_uncertainty list \<Rightarrow> nat \<Rightarrow> criterion_coverage \<Rightarrow> bool" where
  "qualifies accepted index coverage \<longleftrightarrow>
     accepted_for accepted index \<noteq> None \<and> cv_status coverage \<in> set [Unsupported, Cover_blocked]"

definition qualify :: "accepted_uncertainty list \<Rightarrow> nat \<Rightarrow> criterion_coverage \<Rightarrow> criterion_coverage" where
  "qualify accepted index coverage =
     (case accepted_for accepted index of
        Some u \<Rightarrow> if qualifies accepted index coverage
                  then coverage\<lparr>cv_acceptedUncertaintyId := Some (un_id u)\<rparr> else coverage
      | None \<Rightarrow> coverage)"

definition indexed :: "'a list \<Rightarrow> (nat \<times> 'a) list" where
  "indexed xs = zip [0..<length xs] xs"

definition acceptedFailureKeys :: "accepted_uncertainty list \<Rightarrow> criterion_coverage list option \<Rightarrow> string list" where
  "acceptedFailureKeys accepted coverage =
     concat (map (\<lambda>(i, c). if qualifies accepted i c
                           then [ac_key i, criterion_key i] else [])
       (indexed (case coverage of None \<Rightarrow> [] | Some cs \<Rightarrow> cs)))"

definition excuse_failures :: "string list \<Rightarrow> audit_gate \<Rightarrow> audit_gate" where
  "excuse_failures keys gate =
     (let kept = filter (\<lambda>f. \<not> (fl_kind f = ''contract'' \<and> fl_key f \<in> set keys)) (ag_failures gate)
      in gate\<lparr>ag_failures := kept,
              ag_passed := (if length kept < length (ag_failures gate) \<and> kept = [] then True else ag_passed gate)\<rparr>)"

definition truthy :: "string option \<Rightarrow> bool" where
  "truthy v \<longleftrightarrow> v \<noteq> None \<and> v \<noteq> Some ''''"

definition criterion_met :: "gate_profile \<Rightarrow> criterion_coverage \<Rightarrow> bool" where
  "criterion_met profile coverage \<longleftrightarrow>
     cv_status coverage = Covered \<or> truthy (cv_acceptedUncertaintyId coverage)
     \<or> profile = Gate_relaxed \<and> cv_status coverage = Unsupported"

definition contractCoverageFailures :: "gate_profile \<Rightarrow> criterion_coverage list option \<Rightarrow> audit_failure list" where
  "contractCoverageFailures profile coverage =
     concat (map (\<lambda>(i, c).
       if criterion_met profile c then []
       else [\<lparr>fl_kind = ''contract'', fl_key = criterion_key i,
              fl_reason = ''Acceptance criterion is '' @ coverage_name (cv_status c) @ '': '' @ cv_reason c,
              fl_disposition = (if cv_status c = Cover_blocked then External_dependency else Auto_fixable)\<rparr>])
       (indexed (case coverage of None \<Rightarrow> [] | Some cs \<Rightarrow> cs)))"

definition inconsistent_gate_state :: audit_failure where
  "inconsistent_gate_state =
     \<lparr>fl_kind = ''supervisor'', fl_key = ''inconsistent_gate_state'',
      fl_reason = ''A Supervisor Gate reported failure without an auditable failure reason; completion is fail-closed.'',
      fl_disposition = Non_recoverable\<rparr>"

definition unexplained :: "audit_gate \<Rightarrow> bool" where
  "unexplained gate \<longleftrightarrow> \<not> ag_passed gate \<and> ag_failures gate = []"

text \<open>The contract and the completion gate of the result.\<close>

definition final_contract :: "gate_profile \<Rightarrow> accepted_uncertainty list \<Rightarrow> audit_gate \<Rightarrow> audit_gate" where
  "final_contract profile accepted contract =
     (let keys = acceptedFailureKeys accepted (ag_criterionCoverage contract);
          coverage = map_option (\<lambda>cs. map (\<lambda>(i, c). qualify accepted i c) (indexed cs)) (ag_criterionCoverage contract);
          failures = uniqueFailures (ag_failures (excuse_failures keys contract) @ contractCoverageFailures profile coverage)
      in contract\<lparr>ag_criterionCoverage := coverage, ag_failures := failures,
                  ag_passed := (failures = []
                    \<and> (case coverage of None \<Rightarrow> ag_passed contract | Some cs \<Rightarrow> list_all (criterion_met profile) cs))\<rparr>)"

definition final_completion ::
  "gate_profile \<Rightarrow> accepted_uncertainty list \<Rightarrow> audit_gates \<Rightarrow> audit_gate" where
  "final_completion profile accepted gates =
     (let keys = acceptedFailureKeys accepted (ag_criterionCoverage (gs_contract gates));
          contract = final_contract profile accepted (gs_contract gates);
          failures = uniqueFailures (ag_failures (excuse_failures keys (gs_completion gates))
            @ ag_failures (gs_progress gates) @ ag_failures (gs_evidence gates) @ ag_failures contract);
          unexplainedFailure = (failures = []
            \<and> list_ex unexplained [gs_progress gates, gs_evidence gates, gs_contract gates, gs_completion gates]);
          failures' = (if unexplainedFailure then failures @ [inconsistent_gate_state] else failures)
      in (gs_completion gates)\<lparr>ag_failures := failures',
            ag_passed := (ag_passed (gs_progress gates) \<and> ag_passed (gs_evidence gates) \<and> ag_passed contract
                          \<and> failures' = [])\<rparr>)"

definition enforceCompletionAuditAlgebra ::
  "completion_audit \<Rightarrow> gate_profile \<Rightarrow> accepted_uncertainty list \<Rightarrow> completion_audit" where
  "enforceCompletionAuditAlgebra source profile accepted =
     (let gates = (au_gates source)\<lparr>gs_contract := final_contract profile accepted (gs_contract (au_gates source)),
                                   gs_completion := final_completion profile accepted (au_gates source)\<rparr>;
          action = deriveSupervisorAction (ag_failures (gs_completion gates))
      in \<lparr>au_action = action,
          au_reasonCode = (if action = au_action source then au_reasonCode source else ''authoritative_'' @ action_name action),
          au_rationale = (if action = au_action source then au_rationale source
                          else au_rationale source @ '' Core corrected an inconsistent proposed action using authoritative gate failures.''),
          au_gates = gates\<rparr>)"

section \<open>Unique failures\<close>

abbreviation keys_of :: "audit_failure list \<Rightarrow> string set" where
  "keys_of fs \<equiv> failure_key ` set fs"

lemma unique_after_append:
  "unique_after seen (xs @ ys) = unique_after seen xs @ unique_after (seen \<union> keys_of xs) ys"
  by (induction xs arbitrary: seen) (auto simp: insert_absorb)

lemma unique_after_keys: "keys_of (unique_after seen fs) = keys_of fs - seen"
  by (induction fs arbitrary: seen) auto

lemma unique_after_seen: "keys_of fs \<subseteq> seen \<Longrightarrow> unique_after seen fs = []"
  by (induction fs arbitrary: seen) auto

lemma unique_after_twice: "unique_after seen (unique_after seen fs) = unique_after seen fs"
  by (induction fs arbitrary: seen) auto

lemma uniqueFailures_Nil [simp]: "uniqueFailures fs = [] \<longleftrightarrow> fs = []"
  by (cases fs) (simp_all add: uniqueFailures_def)

lemma uniqueFailures_subset: "set (uniqueFailures fs) \<subseteq> set fs"
proof -
  have "set (unique_after seen fs) \<subseteq> set fs" for seen
    by (induction fs arbitrary: seen) auto
  then show ?thesis by (simp add: uniqueFailures_def)
qed

lemma uniqueFailures_absorb:
  "keys_of ys \<subseteq> keys_of xs \<Longrightarrow> uniqueFailures (uniqueFailures xs @ ys) = uniqueFailures xs"
  by (simp add: uniqueFailures_def unique_after_append unique_after_twice unique_after_keys unique_after_seen)

lemma keys_of_uniqueFailures [simp]: "keys_of (uniqueFailures fs) = keys_of fs"
  by (simp add: uniqueFailures_def unique_after_keys)

section \<open>When an audit completes\<close>

lemma map_snd_indexed [simp]: "map snd (indexed xs) = xs"
  by (simp add: indexed_def)

lemma length_indexed [simp]: "length (indexed xs) = length xs"
  by (simp add: indexed_def)

lemma indexed_map:
  "indexed (map (\<lambda>(i, c). f i c) (indexed xs)) = map (\<lambda>(i, c). (i, f i c)) (indexed xs)"
  by (rule nth_equalityI) (simp_all add: indexed_def case_prod_beta)

lemma set_indexed: "(i, c) \<in> set (indexed xs) \<longleftrightarrow> i < length xs \<and> c = xs ! i"
  by (force simp: indexed_def set_zip)

lemma ball_indexed: "(\<forall>(i, c)\<in>set (indexed xs). P c) \<longleftrightarrow> (\<forall>c\<in>set xs. P c)"
  by (fastforce simp: set_indexed in_set_conv_nth [of _ xs] Ball_def)

abbreviation coverage_of :: "audit_gate \<Rightarrow> criterion_coverage list" where
  "coverage_of gate \<equiv> (case ag_criterionCoverage gate of None \<Rightarrow> [] | Some cs \<Rightarrow> cs)"

lemma derive_complete [simp]: "deriveSupervisorAction fs = Act_complete_taskrun \<longleftrightarrow> fs = []"
  by (simp add: deriveSupervisorAction_def)

lemma excused_Nil:
  "ag_failures (excuse_failures keys gate) = [] \<longleftrightarrow>
   (\<forall>f\<in>set (ag_failures gate). fl_kind f = ''contract'' \<and> fl_key f \<in> set keys)"
  by (simp add: excuse_failures_def Let_def filter_empty_conv)

lemma concat_map_Nil: "concat (map g xs) = [] \<longleftrightarrow> (\<forall>x\<in>set xs. g x = [])"
  by (induction xs) auto

lemma coverage_failures_Nil:
  "contractCoverageFailures profile coverage = [] \<longleftrightarrow>
   (\<forall>c\<in>set (case coverage of None \<Rightarrow> [] | Some cs \<Rightarrow> cs). criterion_met profile c)"
proof -
  let ?cs = "case coverage of None \<Rightarrow> [] | Some cs \<Rightarrow> cs"
  have "contractCoverageFailures profile coverage = [] \<longleftrightarrow> (\<forall>(i, c)\<in>set (indexed ?cs). criterion_met profile c)"
    unfolding contractCoverageFailures_def concat_map_Nil by (rule ball_cong) (auto split: if_splits)
  then show ?thesis by (simp add: ball_indexed)
qed

text \<open>Which criteria count as met: the code's condition after acceptances are applied.\<close>

definition criterion_settled :: "gate_profile \<Rightarrow> accepted_uncertainty list \<Rightarrow> nat \<Rightarrow> criterion_coverage \<Rightarrow> bool" where
  "criterion_settled profile accepted i c \<longleftrightarrow>
     cv_status c = Covered
     \<or> profile = Gate_relaxed \<and> cv_status c = Unsupported
     \<or> cv_status c \<in> {Unsupported, Cover_blocked} \<and> (\<exists>u. accepted_for accepted i = Some u \<and> un_id u \<noteq> '''')
     \<or> truthy (cv_acceptedUncertaintyId c) \<and> (cv_status c = Contradicted \<or> accepted_for accepted i = None)"

lemma criterion_met_qualify:
  "criterion_met profile (qualify accepted i c) \<longleftrightarrow> criterion_settled profile accepted i c"
  by (cases "cv_status c"; cases "accepted_for accepted i")
    (auto simp: criterion_met_def qualify_def qualifies_def criterion_settled_def truthy_def)

text \<open>What completion asks of the gates of a proposed audit.\<close>

definition may_complete :: "gate_profile \<Rightarrow> accepted_uncertainty list \<Rightarrow> audit_gates \<Rightarrow> bool" where
  "may_complete profile accepted gates \<longleftrightarrow>
     ag_passed (gs_progress gates) \<and> ag_failures (gs_progress gates) = []
     \<and> ag_passed (gs_evidence gates) \<and> ag_failures (gs_evidence gates) = []
     \<and> \<not> unexplained (gs_contract gates) \<and> \<not> unexplained (gs_completion gates)
     \<and> (\<forall>f\<in>set (ag_failures (gs_contract gates)) \<union> set (ag_failures (gs_completion gates)).
          fl_kind f = ''contract'' \<and> fl_key f \<in> set (acceptedFailureKeys accepted (ag_criterionCoverage (gs_contract gates))))
     \<and> (\<forall>(i, c)\<in>set (indexed (coverage_of (gs_contract gates))). criterion_settled profile accepted i c)"

lemma final_contract_failures_Nil:
  "ag_failures (final_contract profile accepted contract) = [] \<longleftrightarrow>
   (\<forall>f\<in>set (ag_failures contract). fl_kind f = ''contract''
      \<and> fl_key f \<in> set (acceptedFailureKeys accepted (ag_criterionCoverage contract)))
   \<and> (\<forall>(i, c)\<in>set (indexed (coverage_of contract)). criterion_settled profile accepted i c)"
  by (cases "ag_criterionCoverage contract")
    (auto simp: final_contract_def Let_def excused_Nil coverage_failures_Nil criterion_met_qualify indexed_def)

lemma final_contract_passed:
  assumes "ag_failures (final_contract profile accepted contract) = []" and "\<not> unexplained contract"
  shows "ag_passed (final_contract profile accepted contract)"
proof (cases "ag_criterionCoverage contract")
  case None
  then have "ag_failures contract = []"
    using assms(1) by (auto simp: final_contract_failures_Nil acceptedFailureKeys_def indexed_def)
  with assms(2) have "ag_passed contract" by (simp add: unexplained_def)
  with assms(1) None show ?thesis by (simp add: final_contract_def Let_def)
next
  case (Some cs)
  with assms(1) show ?thesis
    by (auto simp: final_contract_def Let_def coverage_failures_Nil list_all_iff)
qed

lemma final_completion_Nil:
  "ag_failures (final_completion profile accepted gates) = [] \<longleftrightarrow> may_complete profile accepted gates"
  by (auto simp: final_completion_def may_complete_def Let_def final_contract_failures_Nil excused_Nil unexplained_def)

lemma final_completion_passed:
  "ag_passed (final_completion profile accepted gates) \<longleftrightarrow> may_complete profile accepted gates"
proof
  assume p: "ag_passed (final_completion profile accepted gates)"
  then have "ag_failures (final_completion profile accepted gates) = []"
    by (simp add: final_completion_def Let_def)
  then show "may_complete profile accepted gates" by (simp add: final_completion_Nil)
next
  assume m: "may_complete profile accepted gates"
  then have "ag_failures (final_contract profile accepted (gs_contract gates)) = []"
    by (simp add: final_contract_failures_Nil may_complete_def)
  with m have "ag_passed (final_contract profile accepted (gs_contract gates))"
    by (simp add: final_contract_passed may_complete_def)
  with m final_completion_Nil [THEN iffD2, OF m] show "ag_passed (final_completion profile accepted gates)"
    by (simp add: final_completion_def Let_def may_complete_def)
qed

lemma enforced_gates [simp]:
  "gs_progress (au_gates (enforceCompletionAuditAlgebra a profile accepted)) = gs_progress (au_gates a)"
  "gs_evidence (au_gates (enforceCompletionAuditAlgebra a profile accepted)) = gs_evidence (au_gates a)"
  "gs_continuation (au_gates (enforceCompletionAuditAlgebra a profile accepted)) = gs_continuation (au_gates a)"
  "gs_contract (au_gates (enforceCompletionAuditAlgebra a profile accepted)) = final_contract profile accepted (gs_contract (au_gates a))"
  "gs_completion (au_gates (enforceCompletionAuditAlgebra a profile accepted)) = final_completion profile accepted (au_gates a)"
  by (simp_all add: enforceCompletionAuditAlgebra_def Let_def)

lemma enforced_action:
  "au_action (enforceCompletionAuditAlgebra a profile accepted)
   = deriveSupervisorAction (ag_failures (final_completion profile accepted (au_gates a)))"
  by (simp add: enforceCompletionAuditAlgebra_def Let_def)

section \<open>The corrected audit is a fixed point\<close>

lemma qualify_twice [simp]: "qualify accepted i (qualify accepted i c) = qualify accepted i c"
  by (auto simp: qualify_def qualifies_def split: option.splits)

lemma qualifies_qualify [simp]: "qualifies accepted i (qualify accepted i c) = qualifies accepted i c"
  by (auto simp: qualify_def qualifies_def split: option.splits)

lemma accepted_keys_qualified:
  "acceptedFailureKeys accepted (map_option (\<lambda>cs. map (\<lambda>(i, c). qualify accepted i c) (indexed cs)) coverage)
   = acceptedFailureKeys accepted coverage"
proof (cases coverage)
  case (Some cs)
  then show ?thesis
    by (simp add: acceptedFailureKeys_def indexed_map) (rule arg_cong [where f = concat], rule map_cong, auto)
qed simp

lemma qualified_coverage_twice:
  "map_option (\<lambda>cs. map (\<lambda>(i, c). qualify accepted i c) (indexed cs))
     (map_option (\<lambda>cs. map (\<lambda>(i, c). qualify accepted i c) (indexed cs)) coverage)
   = map_option (\<lambda>cs. map (\<lambda>(i, c). qualify accepted i c) (indexed cs)) coverage"
  by (cases coverage) (simp_all add: indexed_map case_prod_beta comp_def)

lemma excused_filter:
  "ag_failures (excuse_failures keys gate)
   = filter (\<lambda>f. \<not> (fl_kind f = ''contract'' \<and> fl_key f \<in> set keys)) (ag_failures gate)"
  by (simp add: excuse_failures_def Let_def)

lemma criterion_key_eq [simp]: "criterion_key i = criterion_key j \<longleftrightarrow> i = j"
  by (auto simp: criterion_key_def dest: show_nat_inj)

lemma criterion_key_ac_key [simp]: "criterion_key i \<noteq> ac_key j"
  by (simp add: criterion_key_def ac_key_def)

lemma accepted_coverage_key:
  "criterion_key i \<in> set (acceptedFailureKeys accepted (Some cs)) \<longleftrightarrow>
   i < length cs \<and> qualifies accepted i (cs ! i)"
proof -
  have "criterion_key i \<in> set (acceptedFailureKeys accepted (Some cs)) \<longleftrightarrow>
        (\<exists>x\<in>set (indexed cs). fst x = i \<and> qualifies accepted (fst x) (snd x))"
    by (force simp: acceptedFailureKeys_def split: if_splits)
  also have "\<dots> \<longleftrightarrow> i < length cs \<and> qualifies accepted i (cs ! i)"
    using set_indexed [of _ _ cs] by force
  finally show ?thesis .
qed

text \<open>Coverage failures of qualified coverage are not excused.\<close>

lemma coverage_failures_kept:
  assumes "f \<in> set (contractCoverageFailures profile
      (map_option (\<lambda>cs. map (\<lambda>(i, c). qualify accepted i c) (indexed cs)) coverage))"
    and "\<And>u. u \<in> set accepted \<Longrightarrow> un_id u \<noteq> ''''"
  shows "fl_key f \<notin> set (acceptedFailureKeys accepted coverage)"
proof (cases coverage)
  case None
  with assms(1) show ?thesis by (simp add: contractCoverageFailures_def indexed_def)
next
  case (Some cs)
  with assms(1) obtain i c where ic: "(i, c) \<in> set (indexed cs)" "\<not> criterion_met profile (qualify accepted i c)"
    and f: "fl_key f = criterion_key i"
    by (auto simp: contractCoverageFailures_def indexed_map split: if_splits)
  have ids: "un_id u \<noteq> ''''" if "accepted_for accepted i = Some u" for u
    using that assms(2) by (auto simp: accepted_for_def dest!: map_of_SomeD)
  from ic(2) ids have "\<not> qualifies accepted i c"
    by (auto simp: criterion_met_qualify criterion_settled_def qualifies_def)
  with ic(1) Some show ?thesis by (simp add: f accepted_coverage_key set_indexed)
qed

lemma final_contract_twice:
  assumes "\<And>u. u \<in> set accepted \<Longrightarrow> un_id u \<noteq> ''''"
  shows "final_contract profile accepted (final_contract profile accepted contract) = final_contract profile accepted contract"
proof -
  let ?c = "final_contract profile accepted contract"
  let ?cov = "map_option (\<lambda>cs. map (\<lambda>(i, c). qualify accepted i c) (indexed cs)) (ag_criterionCoverage contract)"
  let ?keys = "acceptedFailureKeys accepted (ag_criterionCoverage contract)"
  let ?xs = "ag_failures (excuse_failures ?keys contract) @ contractCoverageFailures profile ?cov"
  have cov: "ag_criterionCoverage ?c = ?cov" and fs: "ag_failures ?c = uniqueFailures ?xs"
    and passed: "ag_passed ?c = (uniqueFailures ?xs = []
       \<and> (case ?cov of None \<Rightarrow> ag_passed contract | Some cs \<Rightarrow> list_all (criterion_met profile) cs))"
    by (simp_all add: final_contract_def Let_def)
  have "\<forall>f\<in>set ?xs. \<not> (fl_kind f = ''contract'' \<and> fl_key f \<in> set ?keys)"
    using coverage_failures_kept [OF _ assms] by (auto simp: excused_filter)
  then have kept: "ag_failures (excuse_failures ?keys ?c) = uniqueFailures ?xs"
    unfolding excused_filter fs by (intro filter_True) (use uniqueFailures_subset in blast)
  have same: "uniqueFailures (uniqueFailures ?xs @ contractCoverageFailures profile ?cov) = uniqueFailures ?xs"
    by (rule uniqueFailures_absorb) auto
  have "ag_failures (final_contract profile accepted ?c) = ag_failures ?c"
    and "ag_criterionCoverage (final_contract profile accepted ?c) = ag_criterionCoverage ?c"
    and "ag_passed (final_contract profile accepted ?c) = ag_passed ?c"
    and "ag_summary (final_contract profile accepted ?c) = ag_summary ?c"
    unfolding final_contract_def [of _ _ ?c] Let_def cov accepted_keys_qualified qualified_coverage_twice kept same
    by (auto simp: fs passed cov split: option.splits)
  then show ?thesis by simp
qed

abbreviation corrected :: "gate_profile \<Rightarrow> accepted_uncertainty list \<Rightarrow> audit_gates \<Rightarrow> audit_gates" where
  "corrected profile accepted gates \<equiv>
     gates\<lparr>gs_contract := final_contract profile accepted (gs_contract gates),
           gs_completion := final_completion profile accepted gates\<rparr>"

lemma final_completion_eq:
  assumes "uniqueFailures (ag_failures (excuse_failures (acceptedFailureKeys accepted (ag_criterionCoverage (gs_contract gates)))
               (gs_completion gates))
             @ ag_failures (gs_progress gates) @ ag_failures (gs_evidence gates)
             @ ag_failures (final_contract profile accepted (gs_contract gates))) = U"
    and "\<not> (U = [] \<and> list_ex unexplained [gs_progress gates, gs_evidence gates, gs_contract gates, gs_completion gates])"
  shows "final_completion profile accepted gates
    = (gs_completion gates)\<lparr>ag_failures := U,
        ag_passed := (ag_passed (gs_progress gates) \<and> ag_passed (gs_evidence gates)
                      \<and> ag_passed (final_contract profile accepted (gs_contract gates)) \<and> U = [])\<rparr>"
  using assms(2) unfolding final_completion_def Let_def assms(1) by presburger

lemma final_completion_twice:
  assumes ids: "\<And>u. u \<in> set accepted \<Longrightarrow> un_id u \<noteq> ''''"
    and own: "\<And>f. f \<in> set (ag_failures (gs_progress gates) @ ag_failures (gs_evidence gates)) \<Longrightarrow> fl_kind f \<noteq> ''contract''"
  shows "final_completion profile accepted (corrected profile accepted gates) = final_completion profile accepted gates"
proof -
  let ?contract = "final_contract profile accepted (gs_contract gates)"
  let ?keys = "acceptedFailureKeys accepted (ag_criterionCoverage (gs_contract gates))"
  let ?rest = "ag_failures (gs_progress gates) @ ag_failures (gs_evidence gates) @ ag_failures ?contract"
  let ?xs = "ag_failures (excuse_failures ?keys (gs_completion gates)) @ ?rest"
  let ?new = "corrected profile accepted gates" and ?done = "final_completion profile accepted gates"
  have keys: "acceptedFailureKeys accepted (ag_criterionCoverage ?contract) = ?keys"
    by (simp add: final_contract_def Let_def accepted_keys_qualified)
  let ?U = "uniqueFailures ?xs"
  have kept_contract: "\<not> (fl_kind f = ''contract'' \<and> fl_key f \<in> set ?keys)" if "f \<in> set (ag_failures ?contract)" for f
  proof -
    from that have "f \<in> set (ag_failures (excuse_failures ?keys (gs_contract gates))
        @ contractCoverageFailures profile (map_option (\<lambda>cs. map (\<lambda>(i, c). qualify accepted i c) (indexed cs))
            (ag_criterionCoverage (gs_contract gates))))"
      using uniqueFailures_subset by (fastforce simp: final_contract_def Let_def)
    then show ?thesis using coverage_failures_kept [OF _ ids] by (auto simp: excused_filter)
  qed
  have "\<forall>f\<in>set ?xs. \<not> (fl_kind f = ''contract'' \<and> fl_key f \<in> set ?keys)"
    using own kept_contract by (auto simp: excused_filter)
  then have kept: "\<forall>f\<in>set ?U. \<not> (fl_kind f = ''contract'' \<and> fl_key f \<in> set ?keys)"
    using uniqueFailures_subset by blast
  show ?thesis
  proof (cases "?U = [] \<and> list_ex unexplained [gs_progress gates, gs_evidence gates, gs_contract gates, gs_completion gates]")
    case True
    then have fs: "ag_failures ?done = [inconsistent_gate_state]" and np: "\<not> ag_passed ?done"
      by (simp_all add: final_completion_def Let_def)
    from True have "?rest = []" by simp
    then have "uniqueFailures (ag_failures (excuse_failures ?keys ?done) @ ?rest) = [inconsistent_gate_state]"
      by (simp add: excused_filter fs inconsistent_gate_state_def uniqueFailures_def)
    then show ?thesis
      using fs np by (simp add: final_completion_def [of _ _ ?new] Let_def keys final_contract_twice [OF ids])
  next
    case False
    then have fs: "ag_failures ?done = ?U"
      and p: "ag_passed ?done = (ag_passed (gs_progress gates) \<and> ag_passed (gs_evidence gates) \<and> ag_passed ?contract \<and> ?U = [])"
      by (auto simp: final_completion_def Let_def)
    have "ag_failures (excuse_failures ?keys ?done) = ?U"
      unfolding excused_filter [of _ ?done] fs using kept by (rule filter_True)
    then have "uniqueFailures (ag_failures (excuse_failures ?keys ?done) @ ?rest) = ?U"
      by (simp only:) (rule uniqueFailures_absorb, auto)
    moreover have "\<not> (?U = [] \<and> list_ex unexplained [gs_progress gates, gs_evidence gates, ?contract, ?done])"
    proof
      assume u: "?U = [] \<and> list_ex unexplained [gs_progress gates, gs_evidence gates, ?contract, ?done]"
      then have "ag_failures ?done = []" unfolding fs by (rule conjunct1)
      then have m: "may_complete profile accepted gates" by (simp only: final_completion_Nil)
      then have "ag_passed ?done" by (simp only: final_completion_passed)
      with p have "list_all ag_passed [gs_progress gates, gs_evidence gates, ?contract, ?done]" by simp
      with conjunct2 [OF u] show False by (auto simp: unexplained_def)
    qed
    ultimately have "final_completion profile accepted ?new
        = ?done\<lparr>ag_failures := ?U, ag_passed := (ag_passed (gs_progress gates) \<and> ag_passed (gs_evidence gates)
                  \<and> ag_passed ?contract \<and> ?U = [])\<rparr>"
      by (subst final_completion_eq [where U = ?U]) (simp_all add: keys final_contract_twice [OF ids])
    also have "\<dots> = ?done" unfolding fs [symmetric] p [folded fs, symmetric] by simp
    finally show ?thesis .
  qed
qed

text \<open>
  Correcting a corrected audit changes nothing, when acceptance ids are not empty and the
  progress and evidence gates carry no contract failures of their own.
\<close>

theorem audit_correction_idempotent:
  assumes "\<forall>u\<in>set accepted. un_id u \<noteq> ''''"
    and "\<forall>f\<in>set (ag_failures (gs_progress (au_gates a)) @ ag_failures (gs_evidence (au_gates a))). fl_kind f \<noteq> ''contract''"
  shows "enforceCompletionAuditAlgebra (enforceCompletionAuditAlgebra a profile accepted) profile accepted
         = enforceCompletionAuditAlgebra a profile accepted"
proof -
  let ?b = "enforceCompletionAuditAlgebra a profile accepted"
  have gates: "au_gates ?b = corrected profile accepted (au_gates a)"
    by (simp add: enforceCompletionAuditAlgebra_def Let_def)
  have contract: "final_contract profile accepted (gs_contract (corrected profile accepted (au_gates a)))
      = final_contract profile accepted (gs_contract (au_gates a))"
    using assms(1) by (simp add: final_contract_twice)
  have completion: "final_completion profile accepted (corrected profile accepted (au_gates a))
      = final_completion profile accepted (au_gates a)"
    by (rule final_completion_twice) (use assms in auto)
  have "au_action (enforceCompletionAuditAlgebra ?b profile accepted) = au_action ?b"
    by (simp only: enforced_action gates completion)
  then show ?thesis
    unfolding enforceCompletionAuditAlgebra_def [of ?b] Let_def gates contract completion
    by (simp add: enforced_action enforceCompletionAuditAlgebra_def Let_def)
qed

end
