(* ===== verification/Store_Schema.thy ===== *)
theory Store_Schema
  imports Attempt_Domain Audit_Algebra
begin

text \<open>
  The control-plane tables the execution repositories read and write, as
  \<open>adapters/persistence-sqlite/src/schema\<close> declares them and as the domain interfaces of
  \<open>packages/execution/src/domain/task-run.ts\<close> and
  \<open>packages/governance/src/domain/governance.ts\<close> type their rows. A row record has the
  columns the modelled operations read or write. A statement that would break a
  \<open>PRIMARY KEY\<close>, \<open>UNIQUE\<close>, \<open>CHECK\<close> or \<open>REFERENCES\<close> clause of the schema throws
  \<open>Sql_constraint\<close>.
\<close>

section \<open>Rows\<close>

datatype run_status = Running | Waiting_input | Completed | Blocked | Interrupted | Cancelled | Failed

datatype run_phase =
    Ph_discover | Ph_plan | Ph_implement | Ph_verify | Ph_review | Ph_waiting_input
  | Ph_done | Ph_blocked

datatype reasoning_effort = Eff_minimal | Eff_low | Eff_medium | Eff_high | Eff_xhigh | Eff_max

record session =
  s_id :: string
  s_modelId :: string
  s_reasoningEffort :: reasoning_effort
  s_updatedAt :: int

record task_run =
  r_id :: string
  r_sessionId :: string
  r_requestId :: string
  r_status :: run_status
  r_phase :: run_phase
  r_goal :: string
  r_modelId :: string
  r_reasoningEffort :: reasoning_effort
  r_contract :: "contract option"
  r_gateRequired :: bool
  r_blockedReason :: string
  r_lastEventSeq :: int
  r_createdAt :: int
  r_updatedAt :: int
  r_completedAt :: "int option"
  r_attempt :: int
  r_resumedAt :: "int option"

record run_event =
  e_runId :: string
  e_seq :: int
  e_attemptId :: string
  e_type :: string
  e_data :: jsval
  e_createdAt :: int

record transition_audit =
  au_id :: string
  au_attemptId :: string
  au_runId :: string
  au_ordinal :: int
  au_from :: "attempt_status option"
  au_to :: attempt_status
  au_trigger :: attempt_trigger
  au_scenario :: string
  au_reason :: string
  au_version :: int
  au_eventSequence :: int
  au_createdAt :: int

record run_checkpoint =
  cp_runId :: string
  cp_attempt :: int
  cp_attemptId :: string
  cp_active :: bool
  cp_assistantPartial :: string
  cp_currentTool :: string
  cp_lastEventSeq :: int
  cp_lastTranscriptSeq :: int
  cp_updatedAt :: int

datatype input_status = In_pending | In_submitted | In_cancelled | In_superseded

datatype input_type = Input_text | Input_textarea

record user_input_field =
  f_key :: string
  f_label :: string
  f_description :: string
  f_inputType :: input_type
  f_required :: bool
  f_placeholder :: string

record user_input_request =
  u_id :: string
  u_runId :: string
  u_attempt :: int
  u_prompt :: string
  u_fields :: "user_input_field list"
  u_status :: input_status
  u_response :: "(string \<times> string) list"
  u_requestedAt :: int
  u_submittedAt :: "int option"

datatype decision_status = Dec_proposed | Dec_executed | Dec_superseded | Dec_failed

record supervisor_decision =
  d_id :: string
  d_runId :: string
  d_attempt :: int
  d_checkpointSeq :: int
  d_trigger :: string
  d_action :: supervisor_action
  d_reasonCode :: string
  d_rationale :: string
  d_confidence :: jsnum
  d_epistemicStatus :: string
  d_instruction :: string
  d_candidateResponseHash :: string
  d_status :: decision_status
  d_error :: string
  d_createdAt :: int
  d_executedAt :: "int option"
  d_evaluator :: string
  d_evaluatorModel :: string

datatype gate_type = G_progress | G_evidence | G_contract | G_completion | G_continuation | G_spawn

fun gate_name :: "gate_type \<Rightarrow> string" where
  "gate_name G_progress = ''progress''"
| "gate_name G_evidence = ''evidence''"
| "gate_name G_contract = ''contract''"
| "gate_name G_completion = ''completion''"
| "gate_name G_continuation = ''continuation''"
| "gate_name G_spawn = ''spawn''"

record gate_evaluation =
  ge_id :: string
  ge_runId :: string
  ge_attempt :: int
  ge_checkpointSeq :: int
  ge_gateType :: gate_type
  ge_evaluator :: string
  ge_evaluatorModel :: string
  ge_summary :: string
  ge_passed :: bool
  ge_failures :: "audit_failure list"
  ge_criterionCoverage :: "criterion_coverage list option"
  ge_inputManifestHash :: string
  ge_createdAt :: int

datatype approval_action = Ap_resume_taskrun | Ap_start_parallel_taskrun | Ap_execute_external_action

datatype approval_status = Ap_pending | Ap_approved | Ap_rejected | Ap_superseded | Ap_consumed

record approval_request =
  ap_id :: string
  ap_runId :: string
  ap_actionType :: approval_action
  ap_metadata :: jsval
  ap_status :: approval_status

datatype continuation_status = Co_queued | Co_running | Co_completed | Co_blocked | Co_failed | Co_cancelled

record continuation =
  n_id :: string
  n_runId :: string
  n_ordinal :: int
  n_sourceAttemptId :: "string option"
  n_scheduledAttemptId :: "string option"
  n_status :: continuation_status
  n_reason :: string
  n_error :: string
  n_notBefore :: int
  n_createdAt :: int
  n_startedAt :: "int option"
  n_completedAt :: "int option"
  n_leaseOwner :: string
  n_leaseUntil :: "int option"
  n_heartbeatAt :: "int option"

record session_message =
  m_sessionId :: string
  m_role :: string
  m_content :: string
  m_createdAt :: int

datatype control_kind = Steer | Follow_up

datatype control_status =
    Ctl_queued | Ctl_delivering | Ctl_delivered | Ctl_rejected | Ctl_superseded | Ctl_outcome_unknown

record control_item =
  ci_id :: string
  ci_runId :: string
  ci_requestId :: string
  ci_attempt :: int
  ci_kind :: control_kind
  ci_content :: string
  ci_status :: control_status
  ci_error :: string
  ci_createdAt :: int
  ci_claimedAt :: "int option"
  ci_completedAt :: "int option"

record event_consumer =
  ec_runId :: string
  ec_consumerId :: string
  ec_generation :: int
  ec_ackedSeq :: int
  ec_settledAckedSeq :: "int option"
  ec_finalAckedSeq :: "int option"
  ec_claimedAt :: int
  ec_updatedAt :: int

datatype command_state = Cmd_started | Cmd_succeeded | Cmd_failed | Cmd_outcome_unknown

record command_receipt =
  cr_principalId :: string
  cr_taskRunId :: string
  cr_commandId :: string
  cr_commandType :: string
  cr_payloadHash :: string
  cr_payload :: string
  cr_targetAttemptId :: "string option"
  cr_state :: command_state
  cr_result :: "(string \<times> jsval) list"
  cr_error :: "(string \<times> jsval) list"
  cr_provenance :: "(string \<times> jsval) list"
  cr_requestId :: string
  cr_createdAt :: int
  cr_updatedAt :: int
  cr_completedAt :: "int option"

record operation_row =
  op_id :: string
  op_runId :: string
  op_attempt :: int
  op_attemptId :: "string option"
  op_type :: string
  op_payloadHash :: string
  op_payload :: jsval
  op_status :: string
  op_stage :: string
  op_effects :: "jsval list"
  op_result :: "jsval option"
  op_error :: string
  op_createdAt :: int
  op_updatedAt :: int
  op_completedAt :: "int option"

record tool_attempt =
  ta_runId :: string
  ta_attempt :: int
  ta_toolCallId :: string
  ta_toolName :: string
  ta_argsHash :: string
  ta_status :: string
  ta_error :: string
  ta_createdAt :: int
  ta_completedAt :: "int option"

record inbox_row =
  ib_id :: string
  ib_runId :: "string option"
  ib_status :: string
  ib_error :: string
  ib_updatedAt :: int

section \<open>The database\<close>

record db =
  db_sessions :: "session list"
  db_skills :: "(string \<times> skill_snapshot) list"  \<comment> \<open>session id and the latest revision of each bound Skill, in binding order\<close>
  db_runs :: "task_run list"
  db_attempts :: "attempt list"
  db_audit :: "transition_audit list"
  db_events :: "run_event list"
  db_leases :: "execution_lease list"
  db_candidates :: "candidate_result list"
  db_decisions :: "supervisor_decision list"
  db_gates :: "gate_evaluation list"
  db_uncertainties :: "accepted_uncertainty list"
  db_checkpoints :: "run_checkpoint list"
  db_transcript :: "(string \<times> int) list"  \<comment> \<open>run id and sequence number of each entry\<close>
  db_inputs :: "user_input_request list"
  db_approvals :: "approval_request list"
  db_allowReceipts :: "string list"  \<comment> \<open>operation ids with an \<open>allow\<close> approval receipt\<close>
  db_continuations :: "continuation list"
  db_messages :: "session_message list"
  db_controls :: "control_item list"
  db_consumers :: "event_consumer list"
  db_commands :: "command_receipt list"
  db_operations :: "operation_row list"
  db_toolAttempts :: "tool_attempt list"
  db_inbox :: "inbox_row list"

definition empty_db :: db where
  "empty_db =
     \<lparr>db_sessions = [], db_skills = [], db_runs = [], db_attempts = [], db_audit = [],
      db_events = [], db_leases = [], db_candidates = [], db_decisions = [], db_gates = [],
      db_uncertainties = [], db_checkpoints = [], db_transcript = [], db_inputs = [],
      db_approvals = [], db_allowReceipts = [], db_continuations = [], db_messages = [],
      db_controls = [], db_consumers = [], db_commands = [], db_operations = [],
      db_toolAttempts = [], db_inbox = []\<rparr>"

section \<open>Errors\<close>

text \<open>
  A thrown \<open>Error\<close> or \<open>TypeError\<close> by its message, without the identifiers the source
  interpolates into it; a constraint failure by the table or column it names.
\<close>

datatype store_error = Sql_constraint string | Thrown string | Type_error string

section \<open>Statements with their constraints\<close>

text \<open>
  \<open>attempts\<close>: the primary key, \<open>UNIQUE(run_id,ordinal)\<close>, the column checks, and the
  partial unique index \<open>idx_attempts_one_active\<close>.
\<close>

definition attempt_row_ok :: "attempt \<Rightarrow> bool" where
  "attempt_row_ok a =
     (0 < a_ordinal a \<and> a_active a = isActiveAttemptStatus (a_status a)
      \<and> 0 < a_version a \<and> 0 \<le> a_eventSequence a)"

definition attempts_ok :: "attempt list \<Rightarrow> bool" where
  "attempts_ok as =
     (distinct (map a_id as) \<and> distinct (map (\<lambda>a. (a_runId a, a_ordinal a)) as)
      \<and> list_all attempt_row_ok as
      \<and> distinct (map a_runId (filter (\<lambda>a. isActiveAttemptStatus (a_status a)) as)))"

definition put_attempts :: "attempt list \<Rightarrow> db \<Rightarrow> store_error + db" where
  "put_attempts as s =
     require (attempts_ok as) (Sql_constraint ''attempts'') (Inr (s\<lparr>db_attempts := as\<rparr>))"

definition has_run :: "db \<Rightarrow> string \<Rightarrow> bool" where
  "has_run s rid = list_ex (\<lambda>r. r_id r = rid) (db_runs s)"

definition insert_attempt :: "attempt \<Rightarrow> db \<Rightarrow> store_error + db" where
  "insert_attempt a s =
     require (has_run s (a_runId a)) (Sql_constraint ''attempts.run_id'')
       (put_attempts (db_attempts s @ [a]) s)"

text \<open>\<open>run_events\<close>: \<open>PRIMARY KEY(run_id,seq)\<close> and the reference to \<open>runs\<close>.\<close>

definition insert_event :: "run_event \<Rightarrow> db \<Rightarrow> store_error + db" where
  "insert_event e s =
     require (has_run s (e_runId e)) (Sql_constraint ''run_events.run_id'')
       (require (\<not> list_ex (\<lambda>e'. e_runId e' = e_runId e \<and> e_seq e' = e_seq e) (db_events s))
          (Sql_constraint ''run_events'')
          (Inr (s\<lparr>db_events := db_events s @ [e]\<rparr>)))"

definition insert_audit :: "transition_audit \<Rightarrow> db \<Rightarrow> store_error + db" where
  "insert_audit a s =
     require (\<not> list_ex (\<lambda>a'. au_id a' = au_id a) (db_audit s)) (Sql_constraint ''attempt_transition_audit'')
       (Inr (s\<lparr>db_audit := db_audit s @ [a]\<rparr>))"

text \<open>\<open>run_continuations\<close>: the primary key, \<open>UNIQUE(run_id,ordinal)\<close>, \<open>idx_continuations_one_active\<close>.\<close>

definition co_active :: "continuation \<Rightarrow> bool" where
  "co_active n = (n_status n = Co_queued \<or> n_status n = Co_running)"

definition continuations_ok :: "continuation list \<Rightarrow> bool" where
  "continuations_ok ns =
     (distinct (map n_id ns) \<and> distinct (map (\<lambda>n. (n_runId n, n_ordinal n)) ns)
      \<and> distinct (map n_runId (filter co_active ns)))"

definition put_continuations :: "continuation list \<Rightarrow> db \<Rightarrow> store_error + db" where
  "put_continuations ns s =
     require (continuations_ok ns) (Sql_constraint ''run_continuations'')
       (Inr (s\<lparr>db_continuations := ns\<rparr>))"

text \<open>\<open>user_input_requests\<close>: the primary key and one pending request per run.\<close>

definition inputs_ok :: "user_input_request list \<Rightarrow> bool" where
  "inputs_ok us =
     (distinct (map u_id us) \<and> distinct (map u_runId (filter (\<lambda>u. u_status u = In_pending) us)))"

definition put_inputs :: "user_input_request list \<Rightarrow> db \<Rightarrow> store_error + db" where
  "put_inputs us s =
     require (inputs_ok us) (Sql_constraint ''user_input_requests'') (Inr (s\<lparr>db_inputs := us\<rparr>))"

definition insert_run :: "task_run \<Rightarrow> db \<Rightarrow> store_error + db" where
  "insert_run r s =
     require (\<not> list_ex (\<lambda>r'. r_id r' = r_id r \<or> r_requestId r' = r_requestId r) (db_runs s)
              \<and> list_ex (\<lambda>x. s_id x = r_sessionId r) (db_sessions s))
       (Sql_constraint ''runs'') (Inr (s\<lparr>db_runs := db_runs s @ [r]\<rparr>))"

lemmas statement_defs =
  put_attempts_def insert_attempt_def insert_event_def insert_audit_def
  put_continuations_def put_inputs_def insert_run_def

section \<open>Lookups\<close>

definition get_run :: "db \<Rightarrow> string \<Rightarrow> task_run option" where
  "get_run s rid = find (\<lambda>r. r_id r = rid) (db_runs s)"

definition get_attempt :: "db \<Rightarrow> string \<Rightarrow> attempt option" where
  "get_attempt s aid = find (\<lambda>a. a_id a = aid) (db_attempts s)"

definition get_lease :: "db \<Rightarrow> string \<Rightarrow> execution_lease option" where
  "get_lease s aid = find (\<lambda>l. l_attemptId l = aid) (db_leases s)"

text \<open>\<open>UPDATE runs SET f WHERE id=? AND P\<close>.\<close>

definition set_run :: "string \<Rightarrow> (task_run \<Rightarrow> bool) \<Rightarrow> (task_run \<Rightarrow> task_run) \<Rightarrow> db \<Rightarrow> db" where
  "set_run rid P f s = s\<lparr>db_runs := upd (\<lambda>r. r_id r = rid \<and> P r) f (db_runs s)\<rparr>"

definition run_changes :: "string \<Rightarrow> (task_run \<Rightarrow> bool) \<Rightarrow> db \<Rightarrow> nat" where
  "run_changes rid P s = cnt (\<lambda>r. r_id r = rid \<and> P r) (db_runs s)"

lemma get_run_SomeD: "get_run s rid = Some r \<Longrightarrow> r \<in> set (db_runs s) \<and> r_id r = rid"
  by (auto simp: get_run_def dest: find_SomeD)

lemma get_attempt_SomeD: "get_attempt s aid = Some a \<Longrightarrow> a \<in> set (db_attempts s) \<and> a_id a = aid"
  by (auto simp: get_attempt_def dest: find_SomeD)

lemma has_run_iff: "has_run s rid \<longleftrightarrow> rid \<in> r_id ` set (db_runs s)"
  by (auto simp: has_run_def list_ex_iff)

end
