(* ===== verification/Task_Run_Store.thy ===== *)
theory Task_Run_Store
  imports Store_Schema
begin

text \<open>
  The TaskRun lifecycle of \<open>adapters/persistence-sqlite/src/store.ts\<close>: creation, the
  Attempt projection, the event journal, the compare-and-set transition, interruption
  on restart, resumption and user input. The clock value of each \<open>now()\<close> and the
  identifier of each \<open>randomUUID()\<close> are arguments.
\<close>

section \<open>Attempt projection\<close>

fun attempt_status_of :: "run_status \<Rightarrow> attempt_status" where
  "attempt_status_of Running = A_running"
| "attempt_status_of Waiting_input = A_waiting_input"
| "attempt_status_of Completed = A_completed"
| "attempt_status_of Blocked = A_blocked"
| "attempt_status_of Interrupted = A_interrupted"
| "attempt_status_of Cancelled = A_cancelled"
| "attempt_status_of Failed = A_failed"

text \<open>The two statements that write \<open>attempts\<close> when the projected row exists.\<close>

definition supersede_others :: "string \<Rightarrow> string \<Rightarrow> int \<Rightarrow> attempt list \<Rightarrow> attempt list" where
  "supersede_others runId aid timestamp as =
     upd (\<lambda>a. a_runId a = runId \<and> a_id a \<noteq> aid \<and> a_active a)
       (\<lambda>a. a\<lparr>a_active := False,
              a_status := (if a_status a = A_running then A_superseded else a_status a),
              a_completedAt := coalesce (a_completedAt a) timestamp,
              a_updatedAt := timestamp\<rparr>) as"

definition project_row :: "attempt_status \<Rightarrow> int \<Rightarrow> int \<Rightarrow> attempt \<Rightarrow> attempt" where
  "project_row status eventSequence timestamp a =
     a\<lparr>a_status := status, a_active := (status = A_running), a_version := a_version a + 1,
       a_eventSequence := eventSequence, a_updatedAt := timestamp,
       a_completedAt := (if status = A_running then None else coalesce (a_completedAt a) timestamp)\<rparr>"

definition projectAttempt ::
  "string \<Rightarrow> string \<Rightarrow> int \<Rightarrow> attempt_trigger \<Rightarrow> attempt_status \<Rightarrow> string \<Rightarrow> string \<Rightarrow> int \<Rightarrow> int
   \<Rightarrow> db \<Rightarrow> store_error + db" where
  "projectAttempt uuid runId ordinal trigger status scenario reason eventSequence timestamp s =
     (let aid = attemptId runId ordinal;
          existing = get_attempt s aid;
          active = (status = A_running)
      in and_then (if active then put_attempts (supersede_others runId aid timestamp (db_attempts s)) s
                   else Inr s) (\<lambda>s1.
         and_then
           (case existing of
              Some _ \<Rightarrow>
                put_attempts (upd (\<lambda>a. a_id a = aid) (project_row status eventSequence timestamp)
                  (db_attempts s1)) s1
            | None \<Rightarrow>
                insert_attempt
                  \<lparr>a_id = aid, a_runId = runId, a_ordinal = ordinal, a_trigger = trigger,
                   a_status = status, a_active = active, a_version = 1,
                   a_eventSequence = eventSequence, a_startedAt = timestamp,
                   a_updatedAt = timestamp,
                   a_completedAt = (if active then None else Some timestamp)\<rparr> s1) (\<lambda>s2.
         fetch (get_attempt s2 aid) (Type_error ''projected is undefined'') (\<lambda>projected.
         insert_audit
           \<lparr>au_id = uuid, au_attemptId = aid, au_runId = runId, au_ordinal = ordinal,
            au_from = map_option a_status existing, au_to = status,
            au_trigger = (case existing of Some a \<Rightarrow> a_trigger a | None \<Rightarrow> trigger),
            au_scenario = scenario, au_reason = reason, au_version = a_version projected,
            au_eventSequence = eventSequence, au_createdAt = timestamp\<rparr> s2))))"

section \<open>Checkpoints\<close>

definition transcript_max :: "db \<Rightarrow> string \<Rightarrow> int" where
  "transcript_max s runId =
     fold max (map snd (filter (\<lambda>t. fst t = runId) (db_transcript s))) 0"

definition finalizeAttemptProjectionCheckpoint ::
  "string \<Rightarrow> string \<Rightarrow> int \<Rightarrow> int \<Rightarrow> int \<Rightarrow> db \<Rightarrow> store_error + db" where
  "finalizeAttemptProjectionCheckpoint runId aid ordinal eventSeq timestamp s =
     (let tseq = transcript_max s runId
      in case find (\<lambda>c. cp_runId c = runId) (db_checkpoints s) of
           None \<Rightarrow>
             require (has_run s runId) (Sql_constraint ''run_checkpoints.run_id'')
               (Inr (s\<lparr>db_checkpoints := db_checkpoints s @
                  [\<lparr>cp_runId = runId, cp_attempt = ordinal, cp_attemptId = aid, cp_active = False,
                    cp_assistantPartial = '''', cp_currentTool = '''', cp_lastEventSeq = eventSeq,
                    cp_lastTranscriptSeq = tseq, cp_updatedAt = timestamp\<rparr>]\<rparr>))
         | Some c \<Rightarrow>
             require (cp_attempt c \<le> ordinal)
               (Thrown ''TaskRun checkpoint changed during Attempt projection'')
               (Inr (s\<lparr>db_checkpoints :=
                  upd (\<lambda>c. cp_runId c = runId)
                    (\<lambda>c. c\<lparr>cp_attempt := ordinal, cp_attemptId := aid, cp_active := False,
                           cp_assistantPartial := '''', cp_currentTool := '''',
                           cp_lastEventSeq := max (cp_lastEventSeq c) eventSeq,
                           cp_lastTranscriptSeq := max (cp_lastTranscriptSeq c) tseq,
                           cp_updatedAt := timestamp\<rparr>) (db_checkpoints s)\<rparr>)))"

text \<open>\<open>UPDATE run_checkpoints SET active=0,current_tool_json='',updated_at=? WHERE run_id=?\<close>.\<close>

definition park_checkpoint :: "string \<Rightarrow> int \<Rightarrow> db \<Rightarrow> db" where
  "park_checkpoint runId timestamp s =
     s\<lparr>db_checkpoints := upd (\<lambda>c. cp_runId c = runId)
        (\<lambda>c. c\<lparr>cp_active := False, cp_currentTool := '''', cp_updatedAt := timestamp\<rparr>)
        (db_checkpoints s)\<rparr>"

definition getCheckpoint :: "db \<Rightarrow> string \<Rightarrow> run_checkpoint option" where
  "getCheckpoint s runId = find (\<lambda>c. cp_runId c = runId) (db_checkpoints s)"

text \<open>
  \<open>upsertCheckpoint\<close>: an unchanged checkpoint is returned as it is; otherwise the row is
  inserted, or overwritten when its Attempt is older or it is the current running Attempt.
\<close>

definition upsertCheckpoint :: "run_checkpoint \<Rightarrow> db \<Rightarrow> store_error + run_checkpoint \<times> db" where
  "upsertCheckpoint checkpoint s =
     (let rid = cp_runId checkpoint;
          row = checkpoint\<lparr>cp_attemptId := attemptId rid (cp_attempt checkpoint)\<rparr>;
          fresh = (\<lambda>c. c\<lparr>cp_attemptId := cp_attemptId row, cp_updatedAt := cp_updatedAt row\<rparr> = row);
          runs_here = list_ex (\<lambda>r. r_id r = rid \<and> r_status r = Running
                                    \<and> r_attempt r = cp_attempt checkpoint) (db_runs s)
      in case getCheckpoint s rid of
           None \<Rightarrow>
             require (has_run s rid) (Sql_constraint ''run_checkpoints.run_id'')
               (Inr (row, s\<lparr>db_checkpoints := db_checkpoints s @ [row]\<rparr>))
         | Some c \<Rightarrow>
             if fresh c then Inr (c, s)
             else (let s' = s\<lparr>db_checkpoints :=
                       upd (\<lambda>c. cp_runId c = rid \<and> (cp_attempt c < cp_attempt row
                                  \<or> cp_attempt row = cp_attempt c \<and> runs_here))
                         (\<lambda>_. row) (db_checkpoints s)\<rparr>
                   in fetch (getCheckpoint s' rid) (Type_error ''checkpoint is undefined'')
                        (\<lambda>c'. Inr (c', s'))))"

section \<open>Event journal\<close>

definition appendEvent ::
  "string \<Rightarrow> string \<Rightarrow> jsval \<Rightarrow> int \<Rightarrow> db \<Rightarrow> store_error + run_event \<times> db" where
  "appendEvent runId etype data createdAt s =
     fetch (get_run s runId) (Thrown ''Unknown run'') (\<lambda>run.
       let seq = r_lastEventSeq run + 1;
           event = \<lparr>e_runId = runId, e_seq = seq, e_attemptId = attemptId runId (r_attempt run),
                    e_type = etype, e_data = data, e_createdAt = createdAt\<rparr>
       in and_then (insert_event event s) (\<lambda>s1.
          Inr (event, set_run runId (\<lambda>_. True)
            (\<lambda>r. r\<lparr>r_lastEventSeq := seq, r_updatedAt := createdAt\<rparr>) s1)))"

definition listEvents :: "db \<Rightarrow> string \<Rightarrow> int \<Rightarrow> int option \<Rightarrow> run_event list" where
  "listEvents s runId after limit =
     (let rows = sort_key e_seq (filter (\<lambda>e. e_runId e = runId \<and> after < e_seq e) (db_events s))
      in case limit of None \<Rightarrow> rows | Some n \<Rightarrow> take (nat (max 1 n)) rows)"

section \<open>Creation\<close>

definition listWorkspaceSkills :: "db \<Rightarrow> string \<Rightarrow> skill_snapshot list" where
  "listWorkspaceSkills s sessionId = map snd (filter (\<lambda>b. fst b = sessionId) (db_skills s))"

definition createRun ::
  "string \<Rightarrow> string \<Rightarrow> int \<Rightarrow> string \<Rightarrow> string \<Rightarrow> string \<Rightarrow> contract option \<Rightarrow> db
   \<Rightarrow> store_error + task_run \<times> db" where
  "createRun uuid auditUuid timestamp sessionId goal requestId contract s =
     fetch (find (\<lambda>x. s_id x = sessionId) (db_sessions s)) (Thrown ''Session not found'') (\<lambda>session.
       let selectedSkills = listWorkspaceSkills s sessionId;
           frozenContract =
             (case contract of None \<Rightarrow> None
              | Some k \<Rightarrow> if selectedSkills = [] then Some k
                         else Some (k\<lparr>k_skills := Some selectedSkills\<rparr>));
           run = \<lparr>r_id = uuid, r_sessionId = sessionId, r_requestId = requestId,
                  r_status = Running, r_phase = Ph_discover, r_goal = goal,
                  r_modelId = s_modelId session, r_reasoningEffort = s_reasoningEffort session,
                  r_contract = frozenContract,
                  r_gateRequired = (effectiveGateProfile frozenContract \<noteq> Gate_off),
                  r_blockedReason = '''', r_lastEventSeq = 0, r_createdAt = timestamp,
                  r_updatedAt = timestamp, r_completedAt = None, r_attempt = 1,
                  r_resumedAt = None\<rparr>
       in and_then (insert_run run s) (\<lambda>s1.
          and_then (projectAttempt auditUuid uuid 1 Trig_initial A_running ''initial'' '''' 0 timestamp s1) (\<lambda>s2.
          fetch (get_run s2 uuid) (Type_error ''run is undefined'') (\<lambda>r. Inr (r, s2)))))"

section \<open>Compare-and-set transition\<close>

definition terminal_phase :: "run_status \<Rightarrow> run_phase \<Rightarrow> run_phase" where
  "terminal_phase next ph =
     (if next = Completed then Ph_done else if next = Blocked then Ph_blocked else ph)"

definition terminal_time :: "run_status \<Rightarrow> int \<Rightarrow> int option" where
  "terminal_time next t = (if next \<in> {Completed, Cancelled, Failed} then Some t else None)"

definition transitionRun ::
  "string \<Rightarrow> int \<Rightarrow> string \<Rightarrow> run_status list \<Rightarrow> run_status \<Rightarrow> string \<Rightarrow> jsval \<Rightarrow> string \<Rightarrow> int option
   \<Rightarrow> db \<Rightarrow> store_error + run_event option \<times> db" where
  "transitionRun uuid createdAt runId expected nextStatus etype data reason expectedAttempt s =
     (case get_run s runId of
        None \<Rightarrow> Inr (None, s)
      | Some row \<Rightarrow>
          if r_status row \<notin> set expected
             \<or> (case expectedAttempt of None \<Rightarrow> False | Some n \<Rightarrow> r_attempt row \<noteq> n)
          then Inr (None, s)
          else
            let seq = r_lastEventSeq row + 1;
                event = \<lparr>e_runId = runId, e_seq = seq,
                         e_attemptId = attemptId runId (r_attempt row), e_type = etype,
                         e_data = data, e_createdAt = createdAt\<rparr>;
                guard = (\<lambda>r. r_status r \<in> set expected
                           \<and> (case expectedAttempt of None \<Rightarrow> True | Some n \<Rightarrow> r_attempt r = n))
            in and_then (insert_event event s) (\<lambda>s1.
               require (run_changes runId guard s1 = 1)
                 (Thrown ''Run transition lost its compare-and-set race'')
               (let s2 = set_run runId guard
                      (\<lambda>r. r\<lparr>r_status := nextStatus, r_phase := terminal_phase nextStatus (r_phase r),
                             r_blockedReason := reason, r_lastEventSeq := seq,
                             r_completedAt := terminal_time nextStatus createdAt,
                             r_updatedAt := createdAt\<rparr>) s1;
                    s3 = (if nextStatus \<noteq> Running then
                            s2\<lparr>db_checkpoints :=
                              upd (\<lambda>c. cp_runId c = runId \<and> cp_attempt c = r_attempt row)
                                (\<lambda>c. c\<lparr>cp_active := False, cp_currentTool := '''',
                                       cp_lastEventSeq := max (cp_lastEventSeq c) seq,
                                       cp_updatedAt := createdAt\<rparr>) (db_checkpoints s2)\<rparr>
                          else s2)
                in and_then (projectAttempt uuid runId (r_attempt row) Trig_recovery
                       (attempt_status_of nextStatus)
                       (if nextStatus = Running then ''recovery'' else ''terminal'')
                       reason seq createdAt s3) (\<lambda>s4.
                   and_then (finalizeAttemptProjectionCheckpoint runId
                       (attemptId runId (r_attempt row)) (r_attempt row) seq createdAt s4) (\<lambda>s5.
                   Inr (Some event, s5))))))"

section \<open>Interruption on restart\<close>

definition interrupt_one :: "string \<Rightarrow> int \<Rightarrow> string \<Rightarrow> int \<Rightarrow> db \<Rightarrow> store_error + db" where
  "interrupt_one uuid timestamp runId ordinal s =
     fetch (get_run s runId) (Type_error ''run is undefined'') (\<lambda>run.
       let seq = r_lastEventSeq run + 1
       in and_then (insert_event
            \<lparr>e_runId = runId, e_seq = seq, e_attemptId = attemptId runId ordinal,
             e_type = ''restart.interruption'', e_data = JObj [(''reason'', JStr ''service_restart'')],
             e_createdAt = timestamp\<rparr> s) (\<lambda>s1.
          let s2 = set_run runId (\<lambda>r. r_status r = Running)
                (\<lambda>r. r\<lparr>r_status := Interrupted,
                       r_blockedReason := ''Service restarted before the run reached a terminal state'',
                       r_lastEventSeq := seq, r_updatedAt := timestamp\<rparr>) s1;
              s3 = park_checkpoint runId timestamp s2
          in and_then (projectAttempt uuid runId ordinal Trig_recovery A_interrupted ''recovery''
                 ''service_restart'' seq timestamp s3) (\<lambda>s4.
             finalizeAttemptProjectionCheckpoint runId (attemptId runId ordinal) ordinal seq timestamp s4)))"

fun interrupt_all :: "(nat \<Rightarrow> string) \<Rightarrow> int \<Rightarrow> nat \<Rightarrow> (string \<times> int) list \<Rightarrow> db \<Rightarrow> store_error + db" where
  "interrupt_all uuid timestamp i [] s = Inr s"
| "interrupt_all uuid timestamp i ((runId, ordinal) # rest) s =
     and_then (interrupt_one (uuid i) timestamp runId ordinal s)
       (interrupt_all uuid timestamp (Suc i) rest)"

definition refresh_waiting :: "int \<Rightarrow> db \<Rightarrow> db" where
  "refresh_waiting timestamp s =
     s\<lparr>db_runs := upd (\<lambda>r. r_status r = Waiting_input)
        (\<lambda>r. r\<lparr>r_blockedReason :=
                 (case find (\<lambda>u. u_runId u = r_id r \<and> u_status u = In_pending) (db_inputs s) of
                    None \<Rightarrow> r_blockedReason r | Some u \<Rightarrow> u_prompt u),
               r_phase := Ph_waiting_input, r_updatedAt := timestamp\<rparr>) (db_runs s)\<rparr>"

definition markInterrupted :: "(nat \<Rightarrow> string) \<Rightarrow> int \<Rightarrow> db \<Rightarrow> store_error + db" where
  "markInterrupted uuid timestamp s =
     and_then (interrupt_all uuid timestamp 0
        (map (\<lambda>r. (r_id r, r_attempt r)) (filter (\<lambda>r. r_status r = Running) (db_runs s))) s)
       (\<lambda>s1. Inr (refresh_waiting timestamp s1))"

section \<open>Resumption\<close>

definition timeout_failure :: "db \<Rightarrow> string \<Rightarrow> string \<Rightarrow> bool" where
  "timeout_failure s runId aid =
     list_ex (\<lambda>e. e_runId e = runId \<and> e_attemptId e = aid \<and> e_type e = ''run.failed''
                \<and> (json_extract (e_data e) ''reason'' = Some (JStr ''idle_timeout'')
                   \<or> json_extract (e_data e) ''reason'' = Some (JStr ''hard_timeout'')))
       (db_events s)"

definition isRunResumable :: "db \<Rightarrow> string \<Rightarrow> bool" where
  "isRunResumable s runId =
     (case get_run s runId of
        None \<Rightarrow> False
      | Some row \<Rightarrow>
          if r_status row \<in> {Interrupted, Blocked} then True
          else if r_status row \<noteq> Failed then False
          else timeout_failure s runId (attemptId runId (r_attempt row)))"

definition pending_input :: "db \<Rightarrow> string \<Rightarrow> user_input_request option" where
  "pending_input s runId =
     find (\<lambda>u. u_status u = In_pending)
       (sort_key u_requestedAt (filter (\<lambda>u. u_runId u = runId) (db_inputs s)))"

definition resumeRun :: "string \<Rightarrow> int \<Rightarrow> string \<Rightarrow> db \<Rightarrow> store_error + task_run \<times> db" where
  "resumeRun uuid resumedAt runId s =
     fetch (get_run s runId) (Thrown ''Run is not resumable'') (\<lambda>run.
     require (isRunResumable s runId \<or> r_status run = Waiting_input) (Thrown ''Run is not resumable'')
    (require (\<not> (r_status run = Waiting_input \<and> pending_input s runId \<noteq> None))
       (Thrown ''Run is waiting for the requested user input'')
    (let resumedFromInput = list_ex (\<lambda>u. u_runId u = runId \<and> u_attempt u = r_attempt run
                                       \<and> u_status u = In_submitted) (db_inputs s);
         s1 = set_run runId (\<lambda>_. True)
           (\<lambda>r. r\<lparr>r_status := Running,
                  r_phase := (if r_phase r \<in> {Ph_blocked, Ph_waiting_input} then Ph_implement else r_phase r),
                  r_blockedReason := '''', r_completedAt := None, r_attempt := r_attempt r + 1,
                  r_resumedAt := Some resumedAt, r_updatedAt := resumedAt\<rparr>) s
     in and_then (projectAttempt uuid runId (r_attempt run + 1)
            (if resumedFromInput then Trig_input else Trig_resume) A_running
            (if resumedFromInput then ''input'' else ''resume'') '''' (r_lastEventSeq run) resumedAt s1) (\<lambda>s2.
        fetch (get_run s2 runId) (Type_error ''run is undefined'') (\<lambda>r. Inr (r, s2))))))"

section \<open>User input\<close>

definition field_json :: "user_input_field \<Rightarrow> jsval" where
  "field_json f =
     JObj [(''key'', JStr (f_key f)), (''label'', JStr (f_label f)),
           (''description'', JStr (f_description f)),
           (''inputType'', JStr (case f_inputType f of Input_text \<Rightarrow> ''text'' | Input_textarea \<Rightarrow> ''textarea'')),
           (''required'', JBool (f_required f)), (''placeholder'', JStr (f_placeholder f))]"

text \<open>
  \<open>requestUserInput\<close> without a hook: returns the pending request if there is one, else
  suspends the run on a new one.
\<close>

definition requestUserInput ::
  "string \<Rightarrow> string \<Rightarrow> int \<Rightarrow> string \<Rightarrow> string \<Rightarrow> user_input_field list \<Rightarrow> db
   \<Rightarrow> store_error + user_input_request \<times> db" where
  "requestUserInput uuid auditUuid requestedAt runId prompt flds s =
     fetch (get_run s runId) (Thrown ''Run is not active'') (\<lambda>run.
     require (r_status run = Running) (Thrown ''Run is not active'')
     (case pending_input s runId of
        Some existing \<Rightarrow> Inr (existing, s)
      | None \<Rightarrow>
          let request = \<lparr>u_id = uuid, u_runId = runId, u_attempt = r_attempt run, u_prompt = prompt,
                         u_fields = flds, u_status = In_pending, u_response = [],
                         u_requestedAt = requestedAt, u_submittedAt = None\<rparr>;
              seq = r_lastEventSeq run + 1;
              aid = attemptId runId (r_attempt run)
          in and_then (insert_event
               \<lparr>e_runId = runId, e_seq = seq, e_attemptId = aid, e_type = ''run.waiting_for_input'',
                e_data = JObj [(''requestId'', JStr uuid), (''prompt'', JStr prompt),
                               (''fields'', JArr (map field_json flds))],
                e_createdAt = requestedAt\<rparr> s) (\<lambda>s1.
             and_then (put_inputs (db_inputs s1 @ [request]) s1) (\<lambda>s2.
             let s3 = set_run runId (\<lambda>r. r_status r = Running)
                   (\<lambda>r. r\<lparr>r_status := Waiting_input, r_phase := Ph_waiting_input,
                          r_blockedReason := prompt, r_completedAt := None,
                          r_lastEventSeq := seq, r_updatedAt := requestedAt\<rparr>) s2;
                 s4 = park_checkpoint runId requestedAt s3
             in and_then (projectAttempt auditUuid runId (r_attempt run) Trig_input A_waiting_input
                    ''input'' prompt seq requestedAt s4) (\<lambda>s5.
                and_then (finalizeAttemptProjectionCheckpoint runId aid (r_attempt run) seq requestedAt s5)
                  (\<lambda>s6. Inr (request, s6)))))))"

definition response_of :: "(string \<times> string) list \<Rightarrow> user_input_field \<Rightarrow> string" where
  "response_of response field =
     js_trim (case map_of response (f_key field) of None \<Rightarrow> '''' | Some v \<Rightarrow> v)"

definition submitUserInput ::
  "int \<Rightarrow> string \<Rightarrow> (string \<times> string) list \<Rightarrow> db \<Rightarrow> store_error + user_input_request \<times> db" where
  "submitUserInput submittedAt requestId response s =
     fetch (find (\<lambda>u. u_id u = requestId \<and> u_status u = In_pending) (db_inputs s))
       (Thrown ''User input request is not pending'') (\<lambda>row.
     require (\<forall>field \<in> set (u_fields row). f_required field \<longrightarrow> response_of response field \<noteq> '''')
       (Thrown ''field is required'')
    (let normalized = map (\<lambda>field. (f_key field, response_of response field)) (u_fields row)
     in and_then (put_inputs (upd (\<lambda>u. u_id u = requestId \<and> u_status u = In_pending)
            (\<lambda>u. u\<lparr>u_status := In_submitted, u_response := normalized,
                   u_submittedAt := Some submittedAt\<rparr>) (db_inputs s)) s) (\<lambda>s1.
        fetch (find (\<lambda>u. u_id u = requestId) (db_inputs s1)) (Type_error ''request is undefined'')
          (\<lambda>u. Inr (u, s1)))))"

lemmas lifecycle_defs =
  appendEvent_def createRun_def transitionRun_def interrupt_one_def markInterrupted_def
  resumeRun_def requestUserInput_def

end
