(* ===== verification/Store_Invariant.thy ===== *)
theory Store_Invariant
  imports Task_Run_Store
begin

text \<open>
  The invariants the execution repositories keep between \<open>runs\<close>, \<open>attempts\<close>,
  \<open>run_events\<close> and \<open>run_checkpoints\<close>, with one lemma per shape of write and one
  preservation lemma per operation of \<open>Task_Run_Store\<close>.
\<close>

section \<open>Invariants\<close>

text \<open>A run and its current Attempt agree: a running run has a running or settling Attempt.\<close>

fun status_agrees :: "run_status \<Rightarrow> attempt_status \<Rightarrow> bool" where
  "status_agrees Running a = (a = A_running \<or> a = A_settling)"
| "status_agrees st a = (a = attempt_status_of st)"

definition attempt_placed :: "db \<Rightarrow> attempt \<Rightarrow> bool" where
  "attempt_placed s a =
     (a_id a = attemptId (a_runId a) (a_ordinal a)
      \<and> (\<exists>r \<in> set (db_runs s). r_id r = a_runId a \<and> a_ordinal a \<le> r_attempt r
           \<and> (a_ordinal a < r_attempt r \<longrightarrow> \<not> a_active a)))"

definition run_projected :: "db \<Rightarrow> task_run \<Rightarrow> bool" where
  "run_projected s r =
     (\<exists>a \<in> set (db_attempts s). a_runId a = r_id r \<and> a_ordinal a = r_attempt r
        \<and> status_agrees (r_status r) (a_status a))"

definition coherent :: "db \<Rightarrow> bool" where
  "coherent s =
     (distinct (map r_id (db_runs s)) \<and> attempts_ok (db_attempts s)
      \<and> (\<forall>a \<in> set (db_attempts s). attempt_placed s a)
      \<and> (\<forall>r \<in> set (db_runs s). run_projected s r))"

text \<open>The journal of a run is gap-free: its sequence numbers are \<open>1, ..., last_event_seq\<close> in order.\<close>

definition journal :: "db \<Rightarrow> string \<Rightarrow> run_event list" where
  "journal s rid = filter (\<lambda>e. e_runId e = rid) (db_events s)"

definition journal_ok :: "db \<Rightarrow> bool" where
  "journal_ok s =
     (distinct (map r_id (db_runs s))
      \<and> (\<forall>e \<in> set (db_events s). has_run s (e_runId e))
      \<and> (\<forall>r \<in> set (db_runs s). 0 \<le> r_lastEventSeq r
           \<and> map e_seq (journal s (r_id r)) = [1..r_lastEventSeq r]))"

text \<open>A checkpoint never points past the current Attempt of its run.\<close>

definition checkpoints_ok :: "db \<Rightarrow> bool" where
  "checkpoints_ok s =
     (distinct (map cp_runId (db_checkpoints s))
      \<and> (\<forall>c \<in> set (db_checkpoints s). \<exists>r \<in> set (db_runs s).
           r_id r = cp_runId c \<and> cp_attempt c \<le> r_attempt r))"

definition store_inv :: "db \<Rightarrow> bool" where
  "store_inv s = (coherent s \<and> journal_ok s \<and> checkpoints_ok s)"

lemma store_inv_empty: "store_inv empty_db"
  by (simp add: store_inv_def coherent_def journal_ok_def checkpoints_ok_def empty_db_def attempts_ok_def)

section \<open>Consequences\<close>

lemma coherent_distinct: "coherent s \<Longrightarrow> distinct (map r_id (db_runs s))"
  and coherent_attempts_ok: "coherent s \<Longrightarrow> attempts_ok (db_attempts s)"
  by (simp_all add: coherent_def)

lemma attempts_ok_distinct: "attempts_ok as \<Longrightarrow> distinct (map a_id as)"
  by (simp add: attempts_ok_def)

lemma attempts_ok_row: "attempts_ok as \<Longrightarrow> a \<in> set as \<Longrightarrow> attempt_row_ok a"
  by (simp add: attempts_ok_def list_all_iff)

lemma coherent_row: "coherent s \<Longrightarrow> a \<in> set (db_attempts s) \<Longrightarrow> attempt_row_ok a"
  by (auto simp: coherent_def intro: attempts_ok_row)

lemma coherent_active: "coherent s \<Longrightarrow> a \<in> set (db_attempts s) \<Longrightarrow>
    a_active a = isActiveAttemptStatus (a_status a)"
  using coherent_row by (auto simp: attempt_row_ok_def)

lemma run_unique:
  "distinct (map r_id (db_runs s)) \<Longrightarrow> r \<in> set (db_runs s) \<Longrightarrow> r' \<in> set (db_runs s) \<Longrightarrow>
   r_id r = r_id r' \<Longrightarrow> r = r'"
  by (metis eq_key_imp_eq_value find_key_mem option.inject)

lemma attempt_unique:
  "coherent s \<Longrightarrow> a \<in> set (db_attempts s) \<Longrightarrow> b \<in> set (db_attempts s) \<Longrightarrow>
   a_runId a = a_runId b \<Longrightarrow> a_ordinal a = a_ordinal b \<Longrightarrow> a = b"
proof -
  assume "coherent s" and ab: "a \<in> set (db_attempts s)" "b \<in> set (db_attempts s)"
    and eq: "a_runId a = a_runId b" "a_ordinal a = a_ordinal b"
  then have "a_id a = a_id b" by (auto simp: coherent_def attempt_placed_def)
  moreover from \<open>coherent s\<close> have "distinct (map a_id (db_attempts s))"
    by (simp add: coherent_def attempts_ok_def)
  ultimately show "a = b" using ab by (meson distinct_map inj_onD)
qed

lemma coherent_attempt_run:
  assumes "coherent s" and "a \<in> set (db_attempts s)" and "get_run s (a_runId a) = Some r"
  shows "a_ordinal a \<le> r_attempt r" and "a_ordinal a < r_attempt r \<Longrightarrow> \<not> a_active a"
proof -
  from assms(1,2) obtain r' where "r' \<in> set (db_runs s)" and id: "r_id r' = a_runId a"
    and le: "a_ordinal a \<le> r_attempt r'" and act: "a_ordinal a < r_attempt r' \<longrightarrow> \<not> a_active a"
    by (auto simp: coherent_def attempt_placed_def)
  moreover from assms(3) have "r \<in> set (db_runs s)" "r_id r = a_runId a"
    by (auto dest: get_run_SomeD)
  ultimately have "r' = r" using assms(1) by (auto simp: coherent_def intro: run_unique)
  with le act show "a_ordinal a \<le> r_attempt r" "a_ordinal a < r_attempt r \<Longrightarrow> \<not> a_active a"
    by auto
qed

lemma coherent_current:
  assumes "coherent s" and "get_run s rid = Some r"
  obtains a where "get_attempt s (attemptId rid (r_attempt r)) = Some a"
    and "a \<in> set (db_attempts s)" and "a_runId a = rid" and "a_ordinal a = r_attempt r"
    and "status_agrees (r_status r) (a_status a)"
proof -
  from assms(2) have r: "r \<in> set (db_runs s)" "r_id r = rid" by (auto dest: get_run_SomeD)
  with assms(1) obtain a where a: "a \<in> set (db_attempts s)" "a_runId a = rid"
    "a_ordinal a = r_attempt r" "status_agrees (r_status r) (a_status a)"
    by (auto simp: coherent_def run_projected_def)
  with assms(1) have "a_id a = attemptId rid (r_attempt r)"
    by (auto simp: coherent_def attempt_placed_def)
  with a(1) assms(1) have "get_attempt s (attemptId rid (r_attempt r)) = Some a"
    using find_key_mem [of a_id "db_attempts s" a]
    by (simp add: get_attempt_def coherent_def attempts_ok_def)
  then show ?thesis using a that by blast
qed

lemma status_agrees_inactive: "status_agrees st a \<Longrightarrow> st \<noteq> Running \<Longrightarrow> \<not> isActiveAttemptStatus a"
  by (cases st) auto

section \<open>Shapes of writes\<close>

text \<open>A write that keeps every run on its current Attempt.\<close>

lemma coherent_same_attempt:
  assumes inv: "coherent s"
    and runs: "db_runs s' = map F (db_runs s)"
    and atts: "db_attempts s' = map G (db_attempts s)"
    and okA: "attempts_ok (db_attempts s')"
    and F: "\<And>r. r \<in> set (db_runs s) \<Longrightarrow> r_id (F r) = r_id r \<and> r_attempt (F r) = r_attempt r"
    and G: "\<And>a. a \<in> set (db_attempts s) \<Longrightarrow>
              a_id (G a) = a_id a \<and> a_runId (G a) = a_runId a \<and> a_ordinal (G a) = a_ordinal a"
    and act: "\<And>r a. r \<in> set (db_runs s) \<Longrightarrow> a \<in> set (db_attempts s) \<Longrightarrow> r_id r = a_runId a \<Longrightarrow>
              a_ordinal a < r_attempt r \<Longrightarrow> \<not> a_active a \<Longrightarrow> \<not> a_active (G a)"
    and agree: "\<And>r a. r \<in> set (db_runs s) \<Longrightarrow> a \<in> set (db_attempts s) \<Longrightarrow> a_runId a = r_id r \<Longrightarrow>
              a_ordinal a = r_attempt r \<Longrightarrow> status_agrees (r_status r) (a_status a) \<Longrightarrow>
              status_agrees (r_status (F r)) (a_status (G a))"
  shows "coherent s'"
  unfolding coherent_def
proof (intro conjI ballI)
  have "map r_id (db_runs s') = map r_id (db_runs s)" using F by (simp add: runs)
  with inv show "distinct (map r_id (db_runs s'))" by (simp only: coherent_def)
  show "attempts_ok (db_attempts s')" by (rule okA)
next
  fix a' assume "a' \<in> set (db_attempts s')"
  then obtain a where a: "a \<in> set (db_attempts s)" "a' = G a" by (auto simp: atts)
  with inv obtain r where r: "a_id a = attemptId (a_runId a) (a_ordinal a)"
    "r \<in> set (db_runs s)" "r_id r = a_runId a" "a_ordinal a \<le> r_attempt r"
    "a_ordinal a < r_attempt r \<longrightarrow> \<not> a_active a"
    by (auto simp: coherent_def attempt_placed_def)
  have "F r \<in> set (db_runs s')" using r(2) by (simp add: runs)
  moreover have "r_id (F r) = a_runId a'" "a_ordinal a' \<le> r_attempt (F r)"
    "a_ordinal a' < r_attempt (F r) \<longrightarrow> \<not> a_active a'"
    using r a F [OF r(2)] G [OF a(1)] act [OF r(2) a(1) r(3)] by auto
  ultimately show "attempt_placed s' a'"
    using G [OF a(1)] a(2) r(1) by (auto simp: attempt_placed_def)
next
  fix r' assume "r' \<in> set (db_runs s')"
  then obtain r where r: "r \<in> set (db_runs s)" "r' = F r" by (auto simp: runs)
  with inv obtain a where a: "a \<in> set (db_attempts s)" "a_runId a = r_id r"
    "a_ordinal a = r_attempt r" "status_agrees (r_status r) (a_status a)"
    by (auto simp: coherent_def run_projected_def)
  have "G a \<in> set (db_attempts s')" using a(1) by (simp add: atts)
  moreover have "a_runId (G a) = r_id r'" "a_ordinal (G a) = r_attempt r'"
    "status_agrees (r_status r') (a_status (G a))"
    using a r F [OF r(1)] G [OF a(1)] agree [OF r(1) a] by auto
  ultimately show "run_projected s' r'" by (auto simp: run_projected_def)
qed

text \<open>A write that moves one run to a fresh running Attempt.\<close>

lemma coherent_next_attempt:
  assumes inv: "coherent s"
    and runs: "db_runs s' = map F (db_runs s)"
    and atts: "db_attempts s' = map G (db_attempts s) @ [b]"
    and okA: "attempts_ok (db_attempts s')"
    and F: "\<And>r. r \<in> set (db_runs s) \<Longrightarrow> r_id r \<noteq> rid \<Longrightarrow> F r = r"
    and Fid: "\<And>r. r \<in> set (db_runs s) \<Longrightarrow> r_id r = rid \<Longrightarrow>
              r_id (F r) = rid \<and> r_attempt (F r) = r_attempt r + 1 \<and> r_status (F r) = Running"
    and row: "r0 \<in> set (db_runs s)" "r_id r0 = rid"
    and G: "\<And>a. a \<in> set (db_attempts s) \<Longrightarrow>
              a_id (G a) = a_id a \<and> a_runId (G a) = a_runId a \<and> a_ordinal (G a) = a_ordinal a"
    and Goff: "\<And>a. a \<in> set (db_attempts s) \<Longrightarrow> a_runId a = rid \<Longrightarrow> \<not> a_active (G a)"
    and Gid: "\<And>a. a \<in> set (db_attempts s) \<Longrightarrow> a_runId a \<noteq> rid \<Longrightarrow> G a = a"
    and b: "a_id b = attemptId rid (r_attempt r0 + 1)" "a_runId b = rid"
           "a_ordinal b = r_attempt r0 + 1" "a_status b = A_running"
  shows "coherent s'"
  unfolding coherent_def
proof (intro conjI ballI)
  have ids: "r_id (F r) = r_id r" if "r \<in> set (db_runs s)" for r
    using that F Fid by (cases "r_id r = rid") auto
  then have "map r_id (db_runs s') = map r_id (db_runs s)" by (simp add: runs)
  with inv show "distinct (map r_id (db_runs s'))" by (simp only: coherent_def)
  show "attempts_ok (db_attempts s')" by (rule okA)
next
  fix a' assume "a' \<in> set (db_attempts s')"
  then consider (old) a where "a \<in> set (db_attempts s)" "a' = G a" | (new) "a' = b"
    by (auto simp: atts)
  then show "attempt_placed s' a'"
  proof cases
    case old
    with inv obtain r where r: "a_id a = attemptId (a_runId a) (a_ordinal a)"
      "r \<in> set (db_runs s)" "r_id r = a_runId a" "a_ordinal a \<le> r_attempt r"
      "a_ordinal a < r_attempt r \<longrightarrow> \<not> a_active a"
      by (auto simp: coherent_def attempt_placed_def)
    have "F r \<in> set (db_runs s')" using r(2) by (simp add: runs)
    moreover have "r_id (F r) = a_runId a'" "a_ordinal a' \<le> r_attempt (F r)"
      "a_ordinal a' < r_attempt (F r) \<longrightarrow> \<not> a_active a'"
      using r old F [OF r(2)] Fid [OF r(2)] G [OF old(1)] Goff [OF old(1)] Gid [OF old(1)]
      by (cases "a_runId a = rid"; simp)+
    ultimately show ?thesis using G [OF old(1)] old r(1) by (auto simp: attempt_placed_def)
  next
    case new
    have "F r0 \<in> set (db_runs s')" using row by (simp add: runs)
    with Fid [OF row] b new show ?thesis by (auto simp: attempt_placed_def intro!: bexI [of _ "F r0"])
  qed
next
  fix r' assume "r' \<in> set (db_runs s')"
  then obtain r where r: "r \<in> set (db_runs s)" "r' = F r" by (auto simp: runs)
  show "run_projected s' r'"
  proof (cases "r_id r = rid")
    case True
    then have "r = r0" using inv row r(1) by (auto simp: coherent_def intro: run_unique)
    with Fid [OF row] b r show ?thesis by (auto simp: run_projected_def atts)
  next
    case False
    with F r have same: "r' = r" by simp
    from inv r(1) obtain a where a: "a \<in> set (db_attempts s)" "a_runId a = r_id r"
      "a_ordinal a = r_attempt r" "status_agrees (r_status r) (a_status a)"
      by (auto simp: coherent_def run_projected_def)
    with False have "G a = a" by (intro Gid) auto
    with a same show ?thesis by (force simp: run_projected_def atts)
  qed
qed

text \<open>Appending the next events of the runs to the journal.\<close>

lemma upto_from_one: "0 \<le> m \<Longrightarrow> m \<le> n \<Longrightarrow> [1..m] @ [m + 1..n] = [1..n :: int]"
  by (cases "m = 0") (simp_all add: upto_split2 [of 1 m n])

lemma journal_step:
  assumes inv: "journal_ok s"
    and runs: "db_runs s' = map F (db_runs s)"
    and evs: "db_events s' = db_events s @ new"
    and F: "\<And>r. r \<in> set (db_runs s) \<Longrightarrow> r_id (F r) = r_id r"
    and known: "\<And>e. e \<in> set new \<Longrightarrow> has_run s (e_runId e)"
    and seqs: "\<And>r. r \<in> set (db_runs s) \<Longrightarrow> r_lastEventSeq r \<le> r_lastEventSeq (F r) \<and>
       map e_seq (filter (\<lambda>e. e_runId e = r_id r) new) = [r_lastEventSeq r + 1 .. r_lastEventSeq (F r)]"
  shows "journal_ok s'"
  unfolding journal_ok_def
proof (intro conjI ballI)
  have ids: "map r_id (db_runs s') = map r_id (db_runs s)" using F by (simp add: runs)
  with inv show "distinct (map r_id (db_runs s'))" by (simp only: journal_ok_def)
  have same: "has_run s' x = has_run s x" for x
    unfolding has_run_iff using arg_cong [OF ids, of set] by simp
  show "has_run s' (e_runId e)" if "e \<in> set (db_events s')" for e
    using that inv known by (auto simp: evs same journal_ok_def)
next
  fix r' assume "r' \<in> set (db_runs s')"
  then obtain r where r: "r \<in> set (db_runs s)" "r' = F r" by (auto simp: runs)
  with inv have j: "0 \<le> r_lastEventSeq r" "map e_seq (journal s (r_id r)) = [1..r_lastEventSeq r]"
    by (auto simp: journal_ok_def)
  show "0 \<le> r_lastEventSeq r'" using j seqs [OF r(1)] r(2) by simp
  have "map e_seq (journal s' (r_id r')) = [1..r_lastEventSeq r] @ [r_lastEventSeq r + 1 .. r_lastEventSeq r']"
    using j seqs [OF r(1)] r F [OF r(1)] by (simp add: journal_def evs)
  also have "\<dots> = [1..r_lastEventSeq r']"
    using j(1) seqs [OF r(1)] r(2) by (intro upto_from_one) simp_all
  finally show "map e_seq (journal s' (r_id r')) = [1..r_lastEventSeq r']" .
qed

lemma journal_no_event:
  assumes "journal_ok s" and "db_runs s' = map F (db_runs s)" and "db_events s' = db_events s"
    and "\<And>r. r \<in> set (db_runs s) \<Longrightarrow> r_id (F r) = r_id r \<and> r_lastEventSeq (F r) = r_lastEventSeq r"
  shows "journal_ok s'"
  by (rule journal_step [where new = "[]", OF assms(1,2)]) (use assms(3,4) in auto)

lemma journal_one_event:
  assumes inv: "journal_ok s" and runs: "db_runs s' = map F (db_runs s)"
    and evs: "db_events s' = db_events s @ [e]"
    and e: "e_runId e = rid" "has_run s rid"
    and F: "\<And>r. r \<in> set (db_runs s) \<Longrightarrow> r_id (F r) = r_id r"
    and other: "\<And>r. r \<in> set (db_runs s) \<Longrightarrow> r_id r \<noteq> rid \<Longrightarrow> r_lastEventSeq (F r) = r_lastEventSeq r"
    and own: "\<And>r. r \<in> set (db_runs s) \<Longrightarrow> r_id r = rid \<Longrightarrow>
        e_seq e = r_lastEventSeq r + 1 \<and> r_lastEventSeq (F r) = r_lastEventSeq r + 1"
  shows "journal_ok s'"
proof (rule journal_step [OF inv runs evs F])
  fix r assume r: "r \<in> set (db_runs s)"
  show "r_lastEventSeq r \<le> r_lastEventSeq (F r) \<and>
      map e_seq (filter (\<lambda>e. e_runId e = r_id r) [e]) = [r_lastEventSeq r + 1 .. r_lastEventSeq (F r)]"
    using other [OF r] own [OF r] e by (cases "r_id r = rid") auto
qed (use e in auto)

text \<open>Several events of one run.\<close>

lemma journal_run_events:
  assumes inv: "journal_ok s" and runs: "db_runs s' = upd (\<lambda>x. r_id x = rid) f (db_runs s)"
    and r: "get_run s rid = Some r" and f: "r_id (f r) = rid" "r_lastEventSeq r \<le> r_lastEventSeq (f r)"
    and evs: "db_events s' = db_events s @ new" "\<And>e. e \<in> set new \<Longrightarrow> e_runId e = rid"
      "map e_seq new = [r_lastEventSeq r + 1 .. r_lastEventSeq (f r)]"
  shows "journal_ok s'"
proof -
  let ?F = "\<lambda>x. if r_id x = rid then f x else x"
  have only: "x = r" if "x \<in> set (db_runs s)" "r_id x = rid" for x
    using that r inv by (auto simp: get_run_def journal_ok_def dest: find_key_unique)
  have r': "r \<in> set (db_runs s)" "r_id r = rid" using r by (auto dest: get_run_SomeD)
  have maps: "db_runs s' = map ?F (db_runs s)" by (simp add: runs upd_def)
  show ?thesis
  proof (rule journal_step [OF inv maps evs(1)])
    show "r_id (?F x) = r_id x" if "x \<in> set (db_runs s)" for x using only [OF that] f by auto
    show "has_run s (e_runId e)" if "e \<in> set new" for e using evs(2) [OF that] r' by (metis has_run_iff imageI)
    show "r_lastEventSeq x \<le> r_lastEventSeq (?F x) \<and>
        map e_seq (filter (\<lambda>e. e_runId e = r_id x) new) = [r_lastEventSeq x + 1 .. r_lastEventSeq (?F x)]"
      if "x \<in> set (db_runs s)" for x
    proof (cases "r_id x = rid")
      case True
      moreover from True evs(2) have "filter (\<lambda>e. e_runId e = r_id x) new = new" by simp
      ultimately show ?thesis using only [OF that] f evs(3) by auto
    next
      case False
      with evs(2) have "filter (\<lambda>e. e_runId e = r_id x) new = []" by (auto simp: filter_empty_conv)
      with False show ?thesis by simp
    qed
  qed
qed

text \<open>
  Checkpoint writes for one run: a row keeps its Attempt or takes one up to \<open>n\<close>, and there
  is still at most one row per run.
\<close>

definition cp_moves :: "string \<Rightarrow> int \<Rightarrow> run_checkpoint list \<Rightarrow> run_checkpoint list \<Rightarrow> bool" where
  "cp_moves rid n cs cs' =
     ((distinct (map cp_runId cs) \<longrightarrow> distinct (map cp_runId cs'))
      \<and> (\<forall>c' \<in> set cs'. (\<exists>c \<in> set cs. cp_runId c = cp_runId c' \<and> cp_attempt c = cp_attempt c')
           \<or> cp_runId c' = rid \<and> cp_attempt c' \<le> n))"

lemma cp_moves_refl [simp]: "cp_moves rid n cs cs"
  by (auto simp: cp_moves_def)

lemma cp_moves_trans: "cp_moves rid n cs cs' \<Longrightarrow> cp_moves rid n cs' cs'' \<Longrightarrow> cp_moves rid n cs cs''"
  unfolding cp_moves_def by metis

lemma cp_moves_upd:
  assumes "\<And>c. P c \<Longrightarrow> cp_runId (f c) = cp_runId c"
    and "\<And>c. c \<in> set cs \<Longrightarrow> P c \<Longrightarrow> cp_attempt (f c) = cp_attempt c \<or> cp_runId c = rid \<and> cp_attempt (f c) \<le> n"
  shows "cp_moves rid n cs (upd P f cs)"
proof -
  have "map cp_runId (upd P f cs) = map cp_runId cs"
    using assms(1) by (auto simp: upd_def)
  then show ?thesis using assms by (fastforce simp: cp_moves_def set_upd)
qed

lemma cp_moves_insert:
  assumes "find (\<lambda>c. cp_runId c = rid) cs = None" and "cp_runId c = rid" and "cp_attempt c \<le> n"
  shows "cp_moves rid n cs (cs @ [c])"
  using assms by (auto simp: cp_moves_def find_None_key)

lemma checkpoints_step:
  assumes inv: "checkpoints_ok s"
    and runs: "db_runs s' = map F (db_runs s)"
    and F: "\<And>r. r \<in> set (db_runs s) \<Longrightarrow> r_id (F r) = r_id r \<and> r_attempt r \<le> r_attempt (F r)"
    and cps: "cp_moves rid n (db_checkpoints s) (db_checkpoints s')"
    and row: "r0 \<in> set (db_runs s)" "r_id r0 = rid" "n \<le> r_attempt r0"
  shows "checkpoints_ok s'"
  unfolding checkpoints_ok_def
proof (intro conjI ballI)
  show "distinct (map cp_runId (db_checkpoints s'))"
    using inv cps by (simp add: checkpoints_ok_def cp_moves_def)
next
  fix c' assume c': "c' \<in> set (db_checkpoints s')"
  obtain r where r: "r \<in> set (db_runs s)" "r_id r = cp_runId c'" "cp_attempt c' \<le> r_attempt r"
  proof (cases "\<exists>c \<in> set (db_checkpoints s). cp_runId c = cp_runId c' \<and> cp_attempt c = cp_attempt c'")
    case True
    then show ?thesis using inv that by (fastforce simp: checkpoints_ok_def)
  next
    case False
    with cps c' have "cp_runId c' = rid \<and> cp_attempt c' \<le> n" by (auto simp: cp_moves_def)
    with row show ?thesis by (intro that [of r0]) auto
  qed
  then have "F r \<in> set (db_runs s')" "r_id (F r) = cp_runId c'" "cp_attempt c' \<le> r_attempt (F r)"
    using F [of r] by (auto simp: runs)
  then show "\<exists>r\<in>set (db_runs s'). r_id r = cp_runId c' \<and> cp_attempt c' \<le> r_attempt r" by blast
qed

lemma park_checkpoint_moves:
  "cp_moves rid n (db_checkpoints s) (db_checkpoints (park_checkpoint rid t s))"
  by (auto simp: park_checkpoint_def intro: cp_moves_upd)

lemma finalize_Inr:
  assumes "finalizeAttemptProjectionCheckpoint rid aid n ev t s = Inr s'"
  obtains cs where "s' = s\<lparr>db_checkpoints := cs\<rparr>" and "cp_moves rid n (db_checkpoints s) cs"
  using assms
  by (auto simp: finalizeAttemptProjectionCheckpoint_def Let_def split: option.splits
      intro!: that cp_moves_insert cp_moves_upd)

lemma finalize_keeps:
  assumes "finalizeAttemptProjectionCheckpoint rid aid n ev t s = Inr s'"
  shows "db_runs s' = db_runs s" and "db_attempts s' = db_attempts s" and "db_events s' = db_events s"
    and "db_audit s' = db_audit s" and "db_leases s' = db_leases s" and "db_candidates s' = db_candidates s"
    and "db_decisions s' = db_decisions s" and "db_continuations s' = db_continuations s"
    and "db_inputs s' = db_inputs s"
  using assms by (auto elim: finalize_Inr)

section \<open>The Attempt projection\<close>

text \<open>The rows of \<open>attempts\<close> after a projection.\<close>

definition projected_rows ::
  "string \<Rightarrow> int \<Rightarrow> attempt_trigger \<Rightarrow> attempt_status \<Rightarrow> int \<Rightarrow> int \<Rightarrow> attempt list \<Rightarrow> attempt list" where
  "projected_rows rid n trig st ev t as =
     (let aid = attemptId rid n;
          as1 = (if st = A_running then supersede_others rid aid t as else as)
      in if find (\<lambda>a. a_id a = aid) as = None
         then as1 @ [\<lparr>a_id = aid, a_runId = rid, a_ordinal = n, a_trigger = trig, a_status = st,
                      a_active = (st = A_running), a_version = 1, a_eventSequence = ev,
                      a_startedAt = t, a_updatedAt = t,
                      a_completedAt = (if st = A_running then None else Some t)\<rparr>]
         else upd (\<lambda>a. a_id a = aid) (project_row st ev t) as1)"

lemma projectAttempt_Inr:
  assumes "projectAttempt uuid rid n trig st sc rs ev t s = Inr s'"
  obtains au where
    "s' = s\<lparr>db_attempts := projected_rows rid n trig st ev t (db_attempts s), db_audit := db_audit s @ [au]\<rparr>"
    and "attempts_ok (projected_rows rid n trig st ev t (db_attempts s))"
    and "au_attemptId au = attemptId rid n" and "au_to au = st" and "au_runId au = rid"
    and "au_from au = map_option a_status (get_attempt s (attemptId rid n))"
  using assms
  by (auto simp: projectAttempt_def projected_rows_def Let_def statement_defs get_attempt_def
      split: option.splits if_splits intro: that)

lemma project_keeps:
  assumes "projectAttempt uuid rid n trig st sc rs ev t s = Inr s'"
  shows "db_runs s' = db_runs s" and "db_events s' = db_events s" and "db_checkpoints s' = db_checkpoints s"
    and "db_leases s' = db_leases s" and "db_candidates s' = db_candidates s"
    and "db_decisions s' = db_decisions s" and "db_continuations s' = db_continuations s"
    and "db_inputs s' = db_inputs s"
  using assms by (auto elim: projectAttempt_Inr)

definition superseded :: "int \<Rightarrow> attempt \<Rightarrow> attempt" where
  "superseded t a =
     a\<lparr>a_active := False, a_status := (if a_status a = A_running then A_superseded else a_status a),
       a_completedAt := coalesce (a_completedAt a) t, a_updatedAt := t\<rparr>"

definition off_current :: "string \<Rightarrow> int \<Rightarrow> attempt_status \<Rightarrow> int \<Rightarrow> attempt \<Rightarrow> attempt" where
  "off_current rid n st t a =
     (if st = A_running \<and> a_runId a = rid \<and> a_id a \<noteq> attemptId rid n \<and> a_active a
      then superseded t a else a)"

lemma off_current_fields [simp]:
  "a_id (off_current rid n st t a) = a_id a"
  "a_runId (off_current rid n st t a) = a_runId a"
  "a_ordinal (off_current rid n st t a) = a_ordinal a"
  "a_runId a \<noteq> rid \<Longrightarrow> off_current rid n st t a = a"
  by (auto simp: off_current_def superseded_def split: if_splits)

lemma project_row_fields [simp]:
  "a_id (project_row st ev t a) = a_id a"
  "a_runId (project_row st ev t a) = a_runId a"
  "a_ordinal (project_row st ev t a) = a_ordinal a"
  "a_status (project_row st ev t a) = st"
  "a_version (project_row st ev t a) = a_version a + 1"
  by (simp_all add: project_row_def)

definition proj_row :: "string \<Rightarrow> int \<Rightarrow> attempt_status \<Rightarrow> int \<Rightarrow> int \<Rightarrow> attempt \<Rightarrow> attempt" where
  "proj_row rid n st ev t a =
     (if a_id a = attemptId rid n then project_row st ev t a else off_current rid n st t a)"

lemma projected_rows_existing:
  "find (\<lambda>a. a_id a = attemptId rid n) as \<noteq> None \<Longrightarrow>
   projected_rows rid n trig st ev t as = map (proj_row rid n st ev t) as"
  by (auto simp: projected_rows_def Let_def supersede_others_def upd_def proj_row_def
      off_current_def superseded_def project_row_def)

lemma off_current_id: "st \<noteq> A_running \<Longrightarrow> off_current rid n st t = (\<lambda>a. a)"
  by (simp add: fun_eq_iff off_current_def)

lemma projected_rows_new:
  "find (\<lambda>a. a_id a = attemptId rid n) as = None \<Longrightarrow>
   \<exists>b. projected_rows rid n trig st ev t as = map (off_current rid n st t) as @ [b]
     \<and> a_id b = attemptId rid n \<and> a_runId b = rid \<and> a_ordinal b = n \<and> a_status b = st"
  by (cases "st = A_running")
    (auto simp: projected_rows_def Let_def supersede_others_def upd_def off_current_id,
      auto simp: off_current_def superseded_def)

lemma upd_run_map:
  assumes "distinct (map r_id (db_runs s))" and "get_run s rid = Some r" and "P r"
  shows "db_runs (set_run rid P f s) = upd (\<lambda>x. r_id x = rid) f (db_runs s)"
  using assms by (auto simp: set_run_def get_run_def intro!: upd_cong dest: find_key_unique)

lemma coherent_project:
  assumes inv: "coherent s" and run: "get_run s rid = Some r"
    and runs: "db_runs s' = upd (\<lambda>x. r_id x = rid) f (db_runs s)"
    and f: "r_id (f r) = rid" "r_attempt (f r) = r_attempt r"
    and atts: "db_attempts s' = projected_rows rid (r_attempt r) trig st ev t (db_attempts s)"
    and okA: "attempts_ok (db_attempts s')"
    and agree: "status_agrees (r_status (f r)) st"
  shows "coherent s'"
proof -
  let ?F = "\<lambda>x. if r_id x = rid then f x else x"
  let ?G = "proj_row rid (r_attempt r) st ev t"
  obtain b where b: "get_attempt s (attemptId rid (r_attempt r)) = Some b"
    using inv run by (rule coherent_current)
  have only: "x = r" if "x \<in> set (db_runs s)" "r_id x = rid" for x
    using that run coherent_distinct [OF inv] by (auto simp: get_run_def dest: find_key_unique)
  have name: "a_id a = attemptId (a_runId a) (a_ordinal a)" if "a \<in> set (db_attempts s)" for a
    using inv that by (auto simp: coherent_def attempt_placed_def)
  have maps: "db_attempts s' = map ?G (db_attempts s)"
    unfolding atts using b by (intro projected_rows_existing) (simp add: get_attempt_def)
  show ?thesis
  proof (rule coherent_same_attempt [OF inv _ maps okA])
    show "db_runs s' = map ?F (db_runs s)" by (simp add: runs upd_def)
    show "r_id (?F x) = r_id x \<and> r_attempt (?F x) = r_attempt x" if "x \<in> set (db_runs s)" for x
      using only [OF that] f by auto
    show "a_id (?G a) = a_id a \<and> a_runId (?G a) = a_runId a \<and> a_ordinal (?G a) = a_ordinal a" for a
      by (simp add: proj_row_def)
    show "\<not> a_active (?G a)" if "x \<in> set (db_runs s)" "a \<in> set (db_attempts s)"
      "r_id x = a_runId a" "a_ordinal a < r_attempt x" "\<not> a_active a" for x a
      using that only [OF that(1)] name [OF that(2)] by (auto simp: proj_row_def off_current_def)
    show "status_agrees (r_status (?F x)) (a_status (?G a))"
      if "x \<in> set (db_runs s)" "a \<in> set (db_attempts s)" "a_runId a = r_id x"
        "a_ordinal a = r_attempt x" "status_agrees (r_status x) (a_status a)" for x a
      using that only [OF that(1)] name [OF that(2)] agree by (auto simp: proj_row_def off_current_def)
  qed
qed

text \<open>
  One step of a run that stays on its Attempt: one event, a new run row, the projected
  Attempt and a checkpoint write.
\<close>

lemma store_inv_move:
  assumes inv: "store_inv s" and run: "get_run s rid = Some r"
    and runs: "db_runs s' = upd (\<lambda>x. r_id x = rid) f (db_runs s)"
    and f: "r_id (f r) = rid" "r_attempt (f r) = r_attempt r" "r_lastEventSeq (f r) = r_lastEventSeq r + 1"
    and evs: "db_events s' = db_events s @ [e]" "e_runId e = rid" "e_seq e = r_lastEventSeq r + 1"
    and atts: "db_attempts s' = projected_rows rid (r_attempt r) trig st ev t (db_attempts s)"
    and okA: "attempts_ok (db_attempts s')"
    and agree: "status_agrees (r_status (f r)) st"
    and cps: "cp_moves rid (r_attempt r) (db_checkpoints s) (db_checkpoints s')"
  shows "store_inv s'"
proof -
  have inv': "coherent s" "journal_ok s" "checkpoints_ok s" using inv by (simp_all add: store_inv_def)
  let ?F = "\<lambda>x. if r_id x = rid then f x else x"
  have maps: "db_runs s' = map ?F (db_runs s)" by (simp add: runs upd_def)
  have only: "x = r" if "x \<in> set (db_runs s)" "r_id x = rid" for x
    using that run coherent_distinct [OF inv'(1)] by (auto simp: get_run_def dest: find_key_unique)
  have r: "r \<in> set (db_runs s)" "r_id r = rid" using run by (auto dest: get_run_SomeD)
  have "coherent s'" by (rule coherent_project [OF inv'(1) run runs f(1,2) atts okA agree])
  moreover have "journal_ok s'"
  proof (rule journal_one_event [OF inv'(2) maps evs(1,2)])
    show "has_run s rid" using r by (auto simp: has_run_iff)
    show "r_id (?F x) = r_id x" if "x \<in> set (db_runs s)" for x
      using only [OF that] f(1) by auto
    show "e_seq e = r_lastEventSeq x + 1 \<and> r_lastEventSeq (?F x) = r_lastEventSeq x + 1"
      if "x \<in> set (db_runs s)" "r_id x = rid" for x
      using only [OF that] that(2) f(3) evs(3) by simp
  qed simp
  moreover have "checkpoints_ok s'"
  proof (rule checkpoints_step [OF inv'(3) maps _ cps r])
    show "r_id (?F x) = r_id x \<and> r_attempt x \<le> r_attempt (?F x)" if "x \<in> set (db_runs s)" for x
      using only [OF that] f(1,2) by auto
  qed simp
  ultimately show ?thesis by (simp add: store_inv_def)
qed

section \<open>Every operation keeps the invariant\<close>

lemma store_inv_cong:
  assumes "db_runs s' = db_runs s" "db_attempts s' = db_attempts s" "db_events s' = db_events s"
    "db_checkpoints s' = db_checkpoints s"
  shows "store_inv s' = store_inv s"
  using assms
  by (simp add: store_inv_def coherent_def journal_ok_def checkpoints_ok_def attempt_placed_def
      run_projected_def journal_def has_run_def)

lemma store_inv_distinct: "store_inv s \<Longrightarrow> distinct (map r_id (db_runs s))"
  by (simp add: store_inv_def coherent_def)

lemma set_run_fields [simp]:
  "db_attempts (set_run rid P f s) = db_attempts s" "db_events (set_run rid P f s) = db_events s"
  "db_checkpoints (set_run rid P f s) = db_checkpoints s" "db_inputs (set_run rid P f s) = db_inputs s"
  "db_audit (set_run rid P f s) = db_audit s"
  by (simp_all add: set_run_def)

lemma park_checkpoint_fields [simp]:
  "db_runs (park_checkpoint rid t s) = db_runs s" "db_attempts (park_checkpoint rid t s) = db_attempts s"
  "db_events (park_checkpoint rid t s) = db_events s"
  by (simp_all add: park_checkpoint_def)

lemma status_agrees_of [simp]: "status_agrees st (attempt_status_of st)"
  by (cases st) auto

lemma insert_event_Inr:
  "insert_event e s = Inr s' \<Longrightarrow> s' = s\<lparr>db_events := db_events s @ [e]\<rparr>"
  by (auto simp: insert_event_def)

lemma set_run_runs:
  assumes "store_inv s" and "get_run s rid = Some r" and "P r" and "db_runs s1 = db_runs s"
  shows "db_runs (set_run rid P f s1) = upd (\<lambda>x. r_id x = rid) f (db_runs s)"
  using upd_run_map [of s1 rid r P f] assms store_inv_distinct [OF assms(1)]
  by (simp add: get_run_def)

text \<open>
  The tail the suspending and terminating operations share: project the current Attempt
  and finalize its checkpoint, on a state whose event and run row are already written.
\<close>

lemma project_finalize_inv:
  assumes inv: "store_inv s" and run: "get_run s rid = Some r"
    and runs: "db_runs s1 = upd (\<lambda>x. r_id x = rid) f (db_runs s)"
    and f: "r_id (f r) = rid" "r_attempt (f r) = r_attempt r" "r_lastEventSeq (f r) = r_lastEventSeq r + 1"
    and evs: "db_events s1 = db_events s @ [e]" "e_runId e = rid" "e_seq e = r_lastEventSeq r + 1"
    and atts: "db_attempts s1 = db_attempts s"
    and agree: "status_agrees (r_status (f r)) st"
    and cps: "cp_moves rid (r_attempt r) (db_checkpoints s) (db_checkpoints s1)"
    and proj: "projectAttempt uuid rid (r_attempt r) trig st sc rs ev t s1 = Inr s2"
    and fin: "finalizeAttemptProjectionCheckpoint rid aid (r_attempt r) ev' t' s2 = Inr s3"
  shows "store_inv s3"
proof -
  obtain au where s2: "s2 = s1\<lparr>db_attempts := projected_rows rid (r_attempt r) trig st ev t (db_attempts s1),
      db_audit := db_audit s1 @ [au]\<rparr>"
    and okA: "attempts_ok (projected_rows rid (r_attempt r) trig st ev t (db_attempts s1))"
    using proj by (rule projectAttempt_Inr)
  obtain cs where s3: "s3 = s2\<lparr>db_checkpoints := cs\<rparr>"
    and cs: "cp_moves rid (r_attempt r) (db_checkpoints s2) cs"
    using fin by (rule finalize_Inr)
  show ?thesis
  proof (rule store_inv_move [where f = f and e = e and st = st, OF inv run _ f _ evs(2,3) _ _ agree])
    show "db_runs s3 = upd (\<lambda>x. r_id x = rid) f (db_runs s)" by (simp add: s3 s2 runs)
    show "db_events s3 = db_events s @ [e]" by (simp add: s3 s2 evs(1))
    show "db_attempts s3 = projected_rows rid (r_attempt r) trig st ev t (db_attempts s)"
      by (simp add: s3 s2 atts)
    show "attempts_ok (db_attempts s3)" using okA by (simp add: s3 s2)
    show "cp_moves rid (r_attempt r) (db_checkpoints s) (db_checkpoints s3)"
      using cp_moves_trans [OF cps, of cs] cs by (simp add: s3 s2)
  qed
qed

lemma transitionRun_inv:
  assumes inv: "store_inv s"
    and run: "transitionRun uuid at rid expected next ty data rs att s = Inr (res, s')"
  shows "store_inv s'"
proof (cases res)
  case None
  then have "s' = s" using run by (auto simp: transitionRun_def Let_def split: option.splits if_splits)
  with inv show ?thesis by simp
next
  case (Some ev)
  let ?seq = "\<lambda>r. r_lastEventSeq r + 1"
  let ?G = "\<lambda>x. r_status x \<in> set expected \<and> (case att of None \<Rightarrow> True | Some n \<Rightarrow> r_attempt x = n)"
  let ?f = "\<lambda>r x. x\<lparr>r_status := next, r_phase := terminal_phase next (r_phase x),
              r_blockedReason := rs, r_lastEventSeq := ?seq r,
              r_completedAt := terminal_time next at, r_updatedAt := at\<rparr>"
  from Some run obtain r s1 s4 where r: "get_run s rid = Some r" and guard: "?G r"
    and s1: "insert_event \<lparr>e_runId = rid, e_seq = ?seq r, e_attemptId = attemptId rid (r_attempt r),
        e_type = ty, e_data = data, e_createdAt = at\<rparr> s = Inr s1"
    and s4: "projectAttempt uuid rid (r_attempt r) Trig_recovery (attempt_status_of next)
        (if next = Running then ''recovery'' else ''terminal'') rs (?seq r) at
        (let s2 = set_run rid ?G (?f r) s1
         in if next \<noteq> Running then
              s2\<lparr>db_checkpoints := upd (\<lambda>c. cp_runId c = rid \<and> cp_attempt c = r_attempt r)
                 (\<lambda>c. c\<lparr>cp_active := False, cp_currentTool := '''',
                     cp_lastEventSeq := max (cp_lastEventSeq c) (?seq r), cp_updatedAt := at\<rparr>)
                 (db_checkpoints s2)\<rparr> else s2) = Inr s4"
    and s5: "finalizeAttemptProjectionCheckpoint rid (attemptId rid (r_attempt r)) (r_attempt r)
        (?seq r) at s4 = Inr s'"
    by (auto simp: transitionRun_def Let_def split: option.splits if_splits)
  note s1' = insert_event_Inr [OF s1]
  have rid: "r_id r = rid" using r by (auto dest: get_run_SomeD)
  show ?thesis
    by (rule project_finalize_inv [OF inv r _ _ _ _ _ _ _ _ _ _ s4 s5, where f = "?f r"])
      (use rid guard in \<open>auto simp: s1' Let_def set_run_runs [OF inv r] intro: cp_moves_upd\<close>)
qed

lemma store_inv_rows:
  assumes inv: "store_inv s" and runs: "db_runs s' = map F (db_runs s)"
    and F: "\<And>r. r \<in> set (db_runs s) \<Longrightarrow> r_id (F r) = r_id r \<and> r_attempt (F r) = r_attempt r
         \<and> r_status (F r) = r_status r \<and> r_lastEventSeq (F r) = r_lastEventSeq r"
    and same: "db_attempts s' = db_attempts s" "db_events s' = db_events s"
      "db_checkpoints s' = db_checkpoints s"
  shows "store_inv s'"
proof -
  have ids: "map r_id (db_runs s') = map r_id (db_runs s)" using F by (simp add: runs)
  have "coherent s'"
    by (rule coherent_same_attempt [where G = "\<lambda>a. a" and F = F and s = s])
      (use inv F in \<open>auto simp: store_inv_def coherent_def runs same\<close>)
  moreover have "journal_ok s'"
    by (rule journal_no_event [OF _ runs same(2)]) (use inv F in \<open>auto simp: store_inv_def\<close>)
  moreover have "checkpoints_ok s'"
    using inv F by (fastforce simp: store_inv_def checkpoints_ok_def runs same)
  ultimately show ?thesis by (simp add: store_inv_def)
qed

lemma appendEvent_inv:
  assumes inv: "store_inv s" and run: "appendEvent rid ty data at s = Inr (e, s')"
  shows "store_inv s'"
proof -
  from run obtain r s1 where r: "get_run s rid = Some r"
    and e: "e = \<lparr>e_runId = rid, e_seq = r_lastEventSeq r + 1, e_attemptId = attemptId rid (r_attempt r),
        e_type = ty, e_data = data, e_createdAt = at\<rparr>"
    and s1: "insert_event e s = Inr s1"
    and s': "s' = set_run rid (\<lambda>_. True) (\<lambda>x. x\<lparr>r_lastEventSeq := r_lastEventSeq r + 1, r_updatedAt := at\<rparr>) s1"
    by (auto simp: appendEvent_def Let_def)
  let ?F = "\<lambda>x. if r_id x = rid then x\<lparr>r_lastEventSeq := r_lastEventSeq r + 1, r_updatedAt := at\<rparr> else x"
  have maps: "db_runs s' = map ?F (db_runs s)"
    by (simp add: s' set_run_def insert_event_Inr [OF s1] upd_def)
  have only: "x = r" if "x \<in> set (db_runs s)" "r_id x = rid" for x
    using that r store_inv_distinct [OF inv] by (auto simp: get_run_def dest: find_key_unique)
  have "coherent s'"
    by (rule coherent_same_attempt [where G = "\<lambda>a. a" and F = ?F and s = s])
      (use inv maps in \<open>auto simp: store_inv_def coherent_def s' insert_event_Inr [OF s1]\<close>)
  moreover have "journal_ok s'"
    by (rule journal_one_event [where e = e and rid = rid and F = ?F and s = s])
      (use inv maps only r in \<open>auto simp: store_inv_def s' insert_event_Inr [OF s1] e has_run_iff
         dest: get_run_SomeD\<close>)
  moreover have "checkpoints_ok s'"
    by (rule checkpoints_step [where rid = rid and n = "r_attempt r" and F = ?F and s = s])
      (use inv maps r in \<open>auto simp: store_inv_def s' insert_event_Inr [OF s1] dest: get_run_SomeD\<close>)
  ultimately show ?thesis by (simp add: store_inv_def)
qed

lemma interrupt_one_inv:
  assumes inv: "store_inv s" and r: "get_run s rid = Some r" "r_status r = Running" "r_attempt r = n"
    and run: "interrupt_one uuid t rid n s = Inr s'"
  shows "store_inv s'" and "\<And>x. x \<noteq> rid \<Longrightarrow> get_run s' x = get_run s x"
proof -
  let ?seq = "r_lastEventSeq r + 1"
  let ?f = "\<lambda>x. x\<lparr>r_status := Interrupted,
      r_blockedReason := ''Service restarted before the run reached a terminal state'',
      r_lastEventSeq := ?seq, r_updatedAt := t\<rparr>"
  from run r obtain s1 s4 where
    s1: "insert_event \<lparr>e_runId = rid, e_seq = ?seq, e_attemptId = attemptId rid n,
       e_type = ''restart.interruption'', e_data = JObj [(''reason'', JStr ''service_restart'')],
       e_createdAt = t\<rparr> s = Inr s1"
    and s4: "projectAttempt uuid rid n Trig_recovery A_interrupted ''recovery'' ''service_restart''
       ?seq t (park_checkpoint rid t (set_run rid (\<lambda>x. r_status x = Running) ?f s1)) = Inr s4"
    and s5: "finalizeAttemptProjectionCheckpoint rid (attemptId rid n) n ?seq t s4 = Inr s'"
    by (auto simp: interrupt_one_def Let_def)
  have rid: "r_id r = rid" using r by (auto dest: get_run_SomeD)
  have cps: "cp_moves rid (r_attempt r) (db_checkpoints s)
      (db_checkpoints (park_checkpoint rid t (set_run rid (\<lambda>x. r_status x = Running) ?f s1)))"
    using park_checkpoint_moves [of rid "r_attempt r" "set_run rid (\<lambda>x. r_status x = Running) ?f s1" t]
    by (simp add: insert_event_Inr [OF s1])
  show "store_inv s'"
    by (rule project_finalize_inv [OF inv r(1) _ _ _ _ _ _ _ _ _ cps s4 [folded r(3)] s5 [folded r(3)],
          where f = ?f])
      (use rid r in \<open>auto simp: insert_event_Inr [OF s1] set_run_runs [OF inv r(1)]\<close>)
  have runs: "db_runs s' = upd (\<lambda>x. r_id x = rid) ?f (db_runs s)"
    using project_keeps(1) [OF s4] finalize_keeps(1) [OF s5]
    by (simp add: set_run_runs [OF inv r(1)] r insert_event_Inr [OF s1])
  show "get_run s' x = get_run s x" if "x \<noteq> rid" for x
    unfolding get_run_def runs by (rule find_upd_other) (use that in auto)
qed

lemma interrupt_all_inv:
  assumes "store_inv s" and "distinct (map fst xs)"
    and "\<forall>(rid, n) \<in> set xs. \<exists>r. get_run s rid = Some r \<and> r_status r = Running \<and> r_attempt r = n"
    and "interrupt_all uuid t i xs s = Inr s'"
  shows "store_inv s'"
  using assms
proof (induction xs arbitrary: i s)
  case Nil
  then show ?case by simp
next
  case (Cons x xs)
  obtain rid n where x: "x = (rid, n)" by (cases x)
  from Cons.prems(4) obtain s1 where s1: "interrupt_one (uuid i) t rid n s = Inr s1"
    and rest: "interrupt_all uuid t (Suc i) xs s1 = Inr s'" by (auto simp: x)
  from Cons.prems(3) obtain r where r: "get_run s rid = Some r" "r_status r = Running" "r_attempt r = n"
    by (auto simp: x)
  note one = interrupt_one_inv [OF Cons.prems(1) r s1]
  have "get_run s1 (fst y) = get_run s (fst y)" if "y \<in> set xs" for y
    using that Cons.prems(2) x by (intro one(2)) force
  with Cons.prems(2,3) have "\<forall>(rid, n) \<in> set xs. \<exists>r. get_run s1 rid = Some r \<and> r_status r = Running \<and> r_attempt r = n"
    by fastforce
  with Cons.prems(2) show ?case by (intro Cons.IH [OF one(1) _ _ rest]) auto
qed

lemma get_run_mem: "distinct (map r_id (db_runs s)) \<Longrightarrow> r \<in> set (db_runs s) \<Longrightarrow> get_run s (r_id r) = Some r"
  by (simp add: get_run_def find_key_mem)

lemma store_inv_upd_runs:
  assumes "store_inv s"
    and "\<And>r. P r \<Longrightarrow> r_id (f r) = r_id r \<and> r_attempt (f r) = r_attempt r \<and> r_status (f r) = r_status r
         \<and> r_lastEventSeq (f r) = r_lastEventSeq r"
  shows "store_inv (s\<lparr>db_runs := upd P f (db_runs s)\<rparr>)"
  by (rule store_inv_rows [where F = "\<lambda>r. if P r then f r else r", OF assms(1)])
    (use assms(2) in \<open>simp_all add: upd_def\<close>)

lemma refresh_waiting_inv: "store_inv s \<Longrightarrow> store_inv (refresh_waiting t s)"
  unfolding refresh_waiting_def by (rule store_inv_upd_runs) simp_all

lemma markInterrupted_inv:
  assumes inv: "store_inv s" and run: "markInterrupted uuid t s = Inr s'"
  shows "store_inv s'"
proof -
  let ?xs = "map (\<lambda>r. (r_id r, r_attempt r)) (filter (\<lambda>r. r_status r = Running) (db_runs s))"
  from run obtain s1 where s1: "interrupt_all uuid t 0 ?xs s = Inr s1" and s': "s' = refresh_waiting t s1"
    by (auto simp: markInterrupted_def)
  have "distinct (map fst ?xs)"
    using distinct_map_filter [OF store_inv_distinct [OF inv], of "\<lambda>r. r_status r = Running"]
    by (simp add: comp_def)
  then have "store_inv s1"
    by (rule interrupt_all_inv [OF inv _ _ s1]) (auto simp: get_run_mem store_inv_distinct [OF inv])
  then show ?thesis by (simp add: s' refresh_waiting_inv)
qed

lemma requestUserInput_inv:
  assumes inv: "store_inv s" and run: "requestUserInput uuid au t rid prompt flds s = Inr (u, s')"
  shows "store_inv s'"
proof (cases "pending_input s rid")
  case (Some u0)
  then show ?thesis using run inv by (auto simp: requestUserInput_def)
next
  case None
  let ?f = "\<lambda>r x. x\<lparr>r_status := Waiting_input, r_phase := Ph_waiting_input, r_blockedReason := prompt,
      r_completedAt := None, r_lastEventSeq := r_lastEventSeq r + 1, r_updatedAt := t\<rparr>"
  let ?s4 = "\<lambda>r s2. park_checkpoint rid t (set_run rid (\<lambda>x. r_status x = Running) (?f r) s2)"
  from run None obtain r s1 us s2 s5 where r: "get_run s rid = Some r" "r_status r = Running"
    and s1: "insert_event
         \<lparr>e_runId = rid, e_seq = r_lastEventSeq r + 1, e_attemptId = attemptId rid (r_attempt r),
          e_type = ''run.waiting_for_input'',
          e_data = JObj [(''requestId'', JStr uuid), (''prompt'', JStr prompt),
                         (''fields'', JArr (map field_json flds))], e_createdAt = t\<rparr> s = Inr s1"
    and s2: "put_inputs us s1 = Inr s2"
    and s5: "projectAttempt au rid (r_attempt r) Trig_input A_waiting_input ''input'' prompt
         (r_lastEventSeq r + 1) t (?s4 r s2) = Inr s5"
    and s6: "finalizeAttemptProjectionCheckpoint rid (attemptId rid (r_attempt r)) (r_attempt r)
         (r_lastEventSeq r + 1) t s5 = Inr s'"
    by (auto simp: requestUserInput_def Let_def)
  from s2 have s2': "s2 = s1\<lparr>db_inputs := us\<rparr>" by (auto simp: put_inputs_def)
  have rid: "r_id r = rid" using r by (auto dest: get_run_SomeD)
  have cps: "cp_moves rid (r_attempt r) (db_checkpoints s) (db_checkpoints (?s4 r s2))"
    using park_checkpoint_moves [of rid "r_attempt r" "set_run rid (\<lambda>x. r_status x = Running) (?f r) s2" t] s2'
    by (auto simp: insert_event_Inr [OF s1])
  show ?thesis
    by (rule project_finalize_inv [OF inv r(1) _ _ _ _ _ _ _ _ _ cps s5 s6, where f = "?f r"])
      (use rid r in \<open>auto simp: s2' insert_event_Inr [OF s1] set_run_runs [OF inv r(1)]\<close>)
qed

lemma submitUserInput_inv:
  assumes "store_inv s" and "submitUserInput t qid resp s = Inr (u, s')"
  shows "store_inv s'"
proof -
  from assms(2) obtain us where "s' = s\<lparr>db_inputs := us\<rparr>"
    by (auto simp: submitUserInput_def Let_def put_inputs_def)
  with assms(1) store_inv_cong [of s' s] show ?thesis by simp
qed

lemma upsertCheckpoint_inv:
  assumes inv: "store_inv s" and run: "upsertCheckpoint c s = Inr (c', s')"
    and current: "\<And>r. get_run s (cp_runId c) = Some r \<Longrightarrow> cp_attempt c \<le> r_attempt r"
  shows "store_inv s'"
proof -
  have same: "db_runs s' = db_runs s" "db_attempts s' = db_attempts s" "db_events s' = db_events s"
    using run by (auto simp: upsertCheckpoint_def Let_def split: option.splits if_splits)
  have cps: "cp_moves (cp_runId c) (cp_attempt c) (db_checkpoints s) (db_checkpoints s')"
    using run
    by (auto simp: upsertCheckpoint_def Let_def getCheckpoint_def split: option.splits if_splits
        intro!: cp_moves_insert cp_moves_upd)
  have "checkpoints_ok s'"
  proof (cases "get_run s (cp_runId c)")
    case (Some r)
    then show ?thesis
      using inv current
      by (intro checkpoints_step [where s = s and F = "\<lambda>r. r", OF _ _ _ cps, of r])
        (auto simp: store_inv_def same dest: get_run_SomeD)
  next
    case None
    have "db_checkpoints s' = db_checkpoints s"
    proof -
      have "\<not> has_run s (cp_runId c)" using None by (auto simp: has_run_iff get_run_def find_None_key)
      moreover then have "getCheckpoint s (cp_runId c) = None"
        using inv by (force simp: store_inv_def checkpoints_ok_def has_run_iff getCheckpoint_def find_None_key)
      ultimately show ?thesis using run by (simp add: upsertCheckpoint_def Let_def)
    qed
    with inv same show ?thesis by (simp add: store_inv_def checkpoints_ok_def)
  qed
  moreover have "coherent s'" "journal_ok s'"
    using inv same by (simp_all add: store_inv_def coherent_def journal_ok_def attempt_placed_def
        run_projected_def journal_def has_run_def)
  ultimately show ?thesis by (simp add: store_inv_def)
qed

lemma store_inv_new_run:
  assumes inv: "store_inv s" and fresh: "r_id run \<notin> r_id ` set (db_runs s)"
    and run: "r_status run = Running" "r_attempt run = n" "r_lastEventSeq run = 0"
    and runs: "db_runs s' = db_runs s @ [run]"
    and atts: "db_attempts s' = projected_rows (r_id run) n trig A_running ev t (db_attempts s)"
    and okA: "attempts_ok (db_attempts s')"
    and same: "db_events s' = db_events s" "db_checkpoints s' = db_checkpoints s"
  shows "store_inv s'"
proof -
  have foreign: "a_runId a \<noteq> r_id run \<and> a_id a = attemptId (a_runId a) (a_ordinal a)"
    if "a \<in> set (db_attempts s)" for a
    using inv that fresh unfolding store_inv_def coherent_def attempt_placed_def by (metis imageI)
  then have "find (\<lambda>a. a_id a = attemptId (r_id run) n) (db_attempts s) = None"
    by (fastforce simp: find_None_key)
  from projected_rows_new [OF this, of trig A_running ev t] obtain b where
    b: "db_attempts s' = map (off_current (r_id run) n A_running t) (db_attempts s) @ [b]"
       "a_id b = attemptId (r_id run) n" "a_runId b = r_id run" "a_ordinal b = n" "a_status b = A_running"
    by (auto simp: atts)
  have "map (off_current (r_id run) n A_running t) (db_attempts s) = db_attempts s"
    using foreign by (intro map_idI) simp
  with b(1) have rows: "db_attempts s' = db_attempts s @ [b]" by simp
  have "coherent s'"
    using inv fresh okA run b(2-5)
    by (fastforce simp: store_inv_def coherent_def attempt_placed_def run_projected_def runs rows)
  moreover have "journal_ok s'"
  proof -
    have "filter (\<lambda>e. e_runId e = r_id run) (db_events s) = []"
      using inv fresh unfolding store_inv_def journal_ok_def has_run_iff filter_empty_conv by metis
    with inv fresh run show ?thesis
      by (auto simp: store_inv_def journal_ok_def journal_def has_run_iff runs same)
  qed
  moreover have "checkpoints_ok s'"
    using inv by (fastforce simp: store_inv_def checkpoints_ok_def runs same)
  ultimately show ?thesis by (simp add: store_inv_def)
qed

lemma createRun_inv:
  assumes inv: "store_inv s" and run: "createRun uuid au t sid goal req k s = Inr (r, s')"
  shows "store_inv s'"
proof -
  from run obtain row s1 where s1: "insert_run row s = Inr s1"
    and row: "r_id row = uuid" "r_status row = Running" "r_attempt row = 1" "r_lastEventSeq row = 0"
    and s2: "projectAttempt au uuid 1 Trig_initial A_running ''initial'' '''' 0 t s1 = Inr s'"
    by (auto simp: createRun_def Let_def)
  from s1 have s1': "s1 = s\<lparr>db_runs := db_runs s @ [row]\<rparr>" "r_id row \<notin> r_id ` set (db_runs s)"
    by (auto simp: insert_run_def list_ex_iff)
  obtain aud where s': "s' = s1\<lparr>db_attempts := projected_rows uuid 1 Trig_initial A_running 0 t (db_attempts s1),
      db_audit := db_audit s1 @ [aud]\<rparr>"
    and okA: "attempts_ok (projected_rows uuid 1 Trig_initial A_running 0 t (db_attempts s1))"
    using s2 by (rule projectAttempt_Inr)
  show ?thesis
    by (rule store_inv_new_run [OF inv s1'(2) row(2,3,4)]) (use okA row s1' in \<open>simp_all add: s'\<close>)
qed

lemma store_inv_next_attempt:
  assumes inv: "store_inv s" and r: "get_run s rid = Some r"
    and runs: "db_runs s' = upd (\<lambda>x. r_id x = rid) f (db_runs s)"
    and f: "r_id (f r) = rid" "r_attempt (f r) = r_attempt r + 1" "r_status (f r) = Running"
       "r_lastEventSeq r \<le> r_lastEventSeq (f r)"
    and atts: "db_attempts s' = projected_rows rid (r_attempt r + 1) trig A_running ev t (db_attempts s)"
    and okA: "attempts_ok (db_attempts s')"
    and evs: "db_events s' = db_events s @ new" "\<And>e. e \<in> set new \<Longrightarrow> e_runId e = rid"
      "map e_seq new = [r_lastEventSeq r + 1 .. r_lastEventSeq (f r)]"
    and same: "db_checkpoints s' = db_checkpoints s"
  shows "store_inv s'"
proof -
  let ?F = "\<lambda>x. if r_id x = rid then f x else x"
  let ?G = "off_current rid (r_attempt r + 1) A_running t"
  have inv': "coherent s" "journal_ok s" "checkpoints_ok s" using inv by (simp_all add: store_inv_def)
  have maps: "db_runs s' = map ?F (db_runs s)" by (simp add: runs upd_def)
  have only: "x = r" if "x \<in> set (db_runs s)" "r_id x = rid" for x
    using that r store_inv_distinct [OF inv] by (auto simp: get_run_def dest: find_key_unique)
  have r': "r \<in> set (db_runs s)" "r_id r = rid" using r by (auto dest: get_run_SomeD)
  have placed: "a_id a = attemptId (a_runId a) (a_ordinal a) \<and> (a_runId a = rid \<longrightarrow> a_ordinal a \<le> r_attempt r)"
    if "a \<in> set (db_attempts s)" for a
    using inv'(1) that only by (fastforce simp: coherent_def attempt_placed_def)
  then have "find (\<lambda>a. a_id a = attemptId rid (r_attempt r + 1)) (db_attempts s) = None"
    by (fastforce simp: find_None_key)
  from projected_rows_new [OF this, of trig A_running ev t] obtain b where
    b: "db_attempts s' = map ?G (db_attempts s) @ [b]" "a_id b = attemptId rid (r_attempt r + 1)"
       "a_runId b = rid" "a_ordinal b = r_attempt r + 1" "a_status b = A_running"
    by (auto simp: atts)
  have "coherent s'"
  proof (rule coherent_next_attempt [where F = ?F and G = ?G, OF inv'(1) maps b(1) okA _ _ r' _ _ _ b(2-5)])
    show "\<not> a_active (?G a)" if "a \<in> set (db_attempts s)" "a_runId a = rid" for a
      using placed [OF that(1)] that(2) by (auto simp: off_current_def superseded_def)
  qed (use only f in auto)
  moreover have "journal_ok s'"
    by (rule journal_run_events [OF inv'(2) runs r f(1,4) evs])
  moreover have "checkpoints_ok s'"
  proof (rule checkpoints_step [where F = ?F, OF inv'(3) maps _ _ r' order_refl])
    show "r_id (?F x) = r_id x \<and> r_attempt x \<le> r_attempt (?F x)" if "x \<in> set (db_runs s)" for x
      using only [OF that] f by auto
  qed (simp add: same)
  ultimately show ?thesis by (simp add: store_inv_def)
qed

lemma resumeRun_inv:
  assumes inv: "store_inv s" and run: "resumeRun uuid t rid s = Inr (r', s')"
  shows "store_inv s'"
proof -
  let ?f = "\<lambda>x. x\<lparr>r_status := Running,
      r_phase := (if r_phase x \<in> {Ph_blocked, Ph_waiting_input} then Ph_implement else r_phase x),
      r_blockedReason := '''', r_completedAt := None, r_attempt := r_attempt x + 1,
      r_resumedAt := Some t, r_updatedAt := t\<rparr>"
  from run obtain r trig sc where r: "get_run s rid = Some r"
    and p: "projectAttempt uuid rid (r_attempt r + 1) trig A_running sc '''' (r_lastEventSeq r) t
        (set_run rid (\<lambda>_. True) ?f s) = Inr s'"
    unfolding resumeRun_def Let_def by (simp only: fetch_Inr require_Inr and_then_Inr) auto
  have rid: "r_id r = rid" using r by (auto dest: get_run_SomeD)
  obtain aud where s': "s' = (set_run rid (\<lambda>_. True) ?f s)\<lparr>db_attempts :=
        projected_rows rid (r_attempt r + 1) trig A_running (r_lastEventSeq r) t
          (db_attempts (set_run rid (\<lambda>_. True) ?f s)),
      db_audit := db_audit (set_run rid (\<lambda>_. True) ?f s) @ [aud]\<rparr>"
    and okA: "attempts_ok (projected_rows rid (r_attempt r + 1) trig A_running (r_lastEventSeq r) t
          (db_attempts (set_run rid (\<lambda>_. True) ?f s)))"
    using p by (rule projectAttempt_Inr)
  show ?thesis
    by (rule store_inv_next_attempt [where f = ?f and new = "[]", OF inv r])
      (use rid okA in \<open>simp_all add: s' set_run_def\<close>)
qed

end
