(* ===== verification/Attempt_Repository.thy ===== *)
theory Attempt_Repository
  imports Store_Invariant
begin

text \<open>
  \<open>adapters/persistence-sqlite/src/sqlite/attempt-repository.ts\<close>: execution leases with
  their fences, the candidate result of an Attempt, and the four operations that end one
  (settlement, re-adjudication, recovery, cancellation). Each method is one transaction.
  The \<open>sha256\<close> digest of \<open>node:crypto\<close> is a parameter; generated identifiers and the
  timestamp of the input are arguments.
\<close>

section \<open>Lookups\<close>

definition getAttemptForRun :: "db \<Rightarrow> string \<Rightarrow> int \<Rightarrow> attempt option" where
  "getAttemptForRun s runId ordinal =
     find (\<lambda>a. a_runId a = runId \<and> a_ordinal a = ordinal) (db_attempts s)"

definition getActiveAttempt :: "db \<Rightarrow> string \<Rightarrow> attempt option" where
  "getActiveAttempt s runId = find (\<lambda>a. a_runId a = runId \<and> a_active a) (db_attempts s)"

definition listAttempts :: "db \<Rightarrow> string \<Rightarrow> attempt list" where
  "listAttempts s runId = sort_key a_ordinal (filter (\<lambda>a. a_runId a = runId) (db_attempts s))"

definition getCandidate :: "db \<Rightarrow> string \<Rightarrow> candidate_result option" where
  "getCandidate s cid = find (\<lambda>c. c_id c = cid) (db_candidates s)"

definition getCandidateForAttempt :: "db \<Rightarrow> string \<Rightarrow> candidate_result option" where
  "getCandidateForAttempt s aid = find (\<lambda>c. c_attemptId c = aid) (db_candidates s)"

definition get_decision :: "db \<Rightarrow> string \<Rightarrow> supervisor_decision option" where
  "get_decision s did = find (\<lambda>d. d_id d = did) (db_decisions s)"

definition assertAttemptTransition ::
  "attempt_status \<Rightarrow> attempt_status \<Rightarrow> store_error + 'a \<Rightarrow> store_error + 'a" where
  "assertAttemptTransition from to k =
     require (canTransitionAttempt from to) (Thrown ''Attempt cannot transition'') k"

section \<open>Execution leases\<close>

definition requireLease ::
  "string \<Rightarrow> string \<Rightarrow> int \<Rightarrow> int \<Rightarrow> string option \<Rightarrow> db \<Rightarrow> store_error + execution_lease" where
  "requireLease aid leaseToken fence timestamp ownerId s =
     fetch (get_lease s aid) (Thrown ''Execution lease for Attempt does not exist'') (\<lambda>lease.
     require (l_token lease = leaseToken) (Thrown ''Execution lease token mismatch'')
    (require (l_fence lease = fence) (Thrown ''Execution lease fence mismatch'')
    (require (case ownerId of None \<Rightarrow> True | Some ow \<Rightarrow> l_ownerId lease = ow)
       (Thrown ''Execution lease owner mismatch'')
    (require (l_releasedAt lease = None) (Thrown ''Execution lease was released'')
    (require (timestamp < l_leaseUntil lease) (Thrown ''Execution lease expired'')
    (Inr lease))))))"

text \<open>\<open>INSERT INTO execution_leases ... ON CONFLICT(attempt_id) DO UPDATE\<close> with the column checks.\<close>

definition upsert_lease :: "execution_lease \<Rightarrow> db \<Rightarrow> store_error + db" where
  "upsert_lease l s =
     require (0 < l_fence l \<and> 0 < l_attemptVersion l \<and> l_heartbeatAt l \<le> l_leaseUntil l)
       (Sql_constraint ''execution_leases'')
       (Inr (case get_lease s (l_attemptId l) of
               None \<Rightarrow> s\<lparr>db_leases := db_leases s @ [l]\<rparr>
             | Some _ \<Rightarrow> s\<lparr>db_leases := upd (\<lambda>x. l_attemptId x = l_attemptId l) (\<lambda>_. l) (db_leases s)\<rparr>))"

definition acquireExecutionLease ::
  "string \<Rightarrow> string \<Rightarrow> int \<Rightarrow> string \<Rightarrow> int \<Rightarrow> int \<Rightarrow> db \<Rightarrow> store_error + execution_lease \<times> db" where
  "acquireExecutionLease uuid aid expectedVersion ownerId leaseMs timestamp s =
     require (js_trim ownerId \<noteq> '''') (Type_error ''Execution lease ownerId is required'')
    (require (safe_integer leaseMs \<and> 0 < leaseMs) (Type_error ''Execution leaseMs must be positive'')
    (fetch (get_attempt s aid) (Thrown ''Attempt does not exist'') (\<lambda>attempt.
     require (a_version attempt = expectedVersion) (Thrown ''Attempt version mismatch'')
    (require (a_active attempt \<and> a_status attempt = A_running) (Thrown ''Attempt is not active'')
    (let previous = get_lease s aid
     in require (\<not> (case previous of None \<Rightarrow> False
                    | Some p \<Rightarrow> l_releasedAt p = None \<and> timestamp < l_leaseUntil p))
          (Thrown ''Attempt already has an execution lease'')
       (let lease = \<lparr>l_attemptId = a_id attempt, l_ownerId = ownerId, l_token = uuid,
                     l_fence = (case previous of None \<Rightarrow> 0 | Some p \<Rightarrow> l_fence p) + 1,
                     l_attemptVersion = a_version attempt, l_leaseUntil = timestamp + leaseMs,
                     l_heartbeatAt = timestamp, l_releasedAt = None\<rparr>
        in and_then (upsert_lease lease s) (\<lambda>s1. Inr (lease, s1))))))))"

text \<open>\<open>UPDATE execution_leases SET f WHERE attempt_id=? AND P\<close>.\<close>

definition set_lease :: "string \<Rightarrow> (execution_lease \<Rightarrow> bool) \<Rightarrow> (execution_lease \<Rightarrow> execution_lease) \<Rightarrow> db \<Rightarrow> db" where
  "set_lease aid P f s = s\<lparr>db_leases := upd (\<lambda>l. l_attemptId l = aid \<and> P l) f (db_leases s)\<rparr>"

definition lease_changes :: "string \<Rightarrow> (execution_lease \<Rightarrow> bool) \<Rightarrow> db \<Rightarrow> nat" where
  "lease_changes aid P s = cnt (\<lambda>l. l_attemptId l = aid \<and> P l) (db_leases s)"

definition held_by :: "string \<Rightarrow> string \<Rightarrow> int \<Rightarrow> execution_lease \<Rightarrow> bool" where
  "held_by ownerId leaseToken fence l =
     (l_ownerId l = ownerId \<and> l_token l = leaseToken \<and> l_fence l = fence \<and> l_releasedAt l = None)"

definition renewExecutionLease ::
  "string \<Rightarrow> string \<Rightarrow> string \<Rightarrow> int \<Rightarrow> int \<Rightarrow> int \<Rightarrow> db \<Rightarrow> store_error + execution_lease \<times> db" where
  "renewExecutionLease aid ownerId leaseToken fence leaseMs timestamp s =
     require (safe_integer leaseMs \<and> 0 < leaseMs) (Type_error ''Execution leaseMs must be positive'')
    (and_then (requireLease aid leaseToken fence timestamp (Some ownerId) s) (\<lambda>lease.
     let attempt = get_attempt s aid;
         running = (case attempt of None \<Rightarrow> False
                    | Some a \<Rightarrow> a_status a = A_running \<and> a_version a = l_attemptVersion lease);
         settling = (case attempt of None \<Rightarrow> False
                     | Some a \<Rightarrow> a_status a = A_settling \<and> a_version a = l_attemptVersion lease + 1
                         \<and> (case getCandidateForAttempt s aid of None \<Rightarrow> False
                            | Some c \<Rightarrow> c_status c = Cand_proposed \<and> c_attemptVersion c = a_version a))
     in require (case attempt of None \<Rightarrow> False | Some a \<Rightarrow> a_active a \<and> (running \<or> settling))
          (Thrown ''Attempt version changed'')
       (let leaseUntil = timestamp + leaseMs;
            s1 = set_lease aid (held_by ownerId leaseToken fence)
                   (\<lambda>l. l\<lparr>l_leaseUntil := leaseUntil, l_heartbeatAt := timestamp\<rparr>) s
        in require (lease_changes aid (held_by ownerId leaseToken fence) s = 1)
             (Thrown ''Execution lease changed'')
             (Inr (lease\<lparr>l_leaseUntil := leaseUntil, l_heartbeatAt := timestamp\<rparr>, s1)))))"

definition releaseExecutionLease ::
  "string \<Rightarrow> string \<Rightarrow> string \<Rightarrow> int \<Rightarrow> int \<Rightarrow> db \<Rightarrow> bool \<times> db" where
  "releaseExecutionLease aid ownerId leaseToken fence timestamp s =
     (lease_changes aid (held_by ownerId leaseToken fence) s = 1,
      set_lease aid (held_by ownerId leaseToken fence) (\<lambda>l. l\<lparr>l_releasedAt := Some timestamp\<rparr>) s)"

section \<open>Guarded row updates\<close>

text \<open>\<open>UPDATE attempts SET f WHERE id=? AND version=? AND active=? AND status=?\<close>, one row or an error.\<close>

definition cas_attempt ::
  "string \<Rightarrow> int \<Rightarrow> bool \<Rightarrow> attempt_status \<Rightarrow> (attempt \<Rightarrow> attempt) \<Rightarrow> store_error \<Rightarrow> db \<Rightarrow> store_error + db" where
  "cas_attempt aid version active status f err s =
     (let P = (\<lambda>a. a_id a = aid \<and> a_version a = version \<and> a_active a = active \<and> a_status a = status)
      in and_then (put_attempts (upd P f (db_attempts s)) s) (\<lambda>s1.
         require (cnt P (db_attempts s) = 1) err (Inr s1)))"

text \<open>\<open>UPDATE runs SET f WHERE id=? AND status=? AND attempt=?\<close>, one row or an error.\<close>

definition cas_run ::
  "string \<Rightarrow> run_status \<Rightarrow> int \<Rightarrow> (task_run \<Rightarrow> task_run) \<Rightarrow> store_error \<Rightarrow> db \<Rightarrow> store_error + db" where
  "cas_run rid status ordinal f err s =
     (let P = (\<lambda>r. r_status r = status \<and> r_attempt r = ordinal)
      in require (run_changes rid P s = 1) err (Inr (set_run rid P f s)))"

definition set_candidate :: "(candidate_result \<Rightarrow> bool) \<Rightarrow> (candidate_result \<Rightarrow> candidate_result) \<Rightarrow> db \<Rightarrow> db" where
  "set_candidate P f s = s\<lparr>db_candidates := upd P f (db_candidates s)\<rparr>"

definition set_decision :: "(supervisor_decision \<Rightarrow> bool) \<Rightarrow> (supervisor_decision \<Rightarrow> supervisor_decision) \<Rightarrow> db \<Rightarrow> db" where
  "set_decision P f s = s\<lparr>db_decisions := upd P f (db_decisions s)\<rparr>"

text \<open>The assistant message of an accepted candidate, with the session's activity time.\<close>

definition deliver_message :: "string \<Rightarrow> string \<Rightarrow> int \<Rightarrow> db \<Rightarrow> db" where
  "deliver_message sessionId content timestamp s =
     s\<lparr>db_messages := db_messages s @
         [\<lparr>m_sessionId = sessionId, m_role = ''assistant'', m_content = content, m_createdAt = timestamp\<rparr>],
       db_sessions := upd (\<lambda>x. s_id x = sessionId) (\<lambda>x. x\<lparr>s_updatedAt := timestamp\<rparr>) (db_sessions s)\<rparr>"

text \<open>The audit row of a transition of \<open>attempt\<close> to \<open>status\<close>.\<close>

definition transition_row ::
  "string \<Rightarrow> attempt \<Rightarrow> attempt_status \<Rightarrow> string \<Rightarrow> string \<Rightarrow> int \<Rightarrow> int \<Rightarrow> int \<Rightarrow> transition_audit" where
  "transition_row uuid attempt status scenario reason version eventSeq timestamp =
     \<lparr>au_id = uuid, au_attemptId = a_id attempt, au_runId = a_runId attempt, au_ordinal = a_ordinal attempt,
      au_from = Some (a_status attempt), au_to = status, au_trigger = a_trigger attempt,
      au_scenario = scenario, au_reason = reason, au_version = version, au_eventSequence = eventSeq,
      au_createdAt = timestamp\<rparr>"

definition recordTerminalAudit ::
  "string \<Rightarrow> attempt \<Rightarrow> attempt_status \<Rightarrow> string \<Rightarrow> int \<Rightarrow> int \<Rightarrow> int \<Rightarrow> db \<Rightarrow> store_error + db" where
  "recordTerminalAudit uuid attempt status reason eventSeq version timestamp s =
     insert_audit (transition_row uuid attempt status
       (if status = A_interrupted then ''recovery'' else ''terminal'') reason version eventSeq timestamp) s"

definition append_event_at ::
  "string \<Rightarrow> string \<Rightarrow> jsval \<Rightarrow> string \<Rightarrow> int \<Rightarrow> int \<Rightarrow> db \<Rightarrow> store_error + db" where
  "append_event_at runId etype data aid seq timestamp s =
     insert_event \<lparr>e_runId = runId, e_seq = seq, e_attemptId = aid, e_type = etype, e_data = data,
                   e_createdAt = timestamp\<rparr> s"

section \<open>Candidate results\<close>

text \<open>\<open>INSERT OR IGNORE\<close>: a row that repeats an id or an Attempt is dropped.\<close>

definition insert_or_ignore_candidate :: "candidate_result \<Rightarrow> db \<Rightarrow> db" where
  "insert_or_ignore_candidate c s =
     (if list_ex (\<lambda>x. c_id x = c_id c \<or> c_attemptId x = c_attemptId c) (db_candidates s)
         \<or> c_attemptVersion c \<le> 0 then s
      else s\<lparr>db_candidates := db_candidates s @ [c]\<rparr>)"

definition recordCandidateResult ::
  "(string \<Rightarrow> string) \<Rightarrow> string \<Rightarrow> string \<Rightarrow> string \<Rightarrow> int \<Rightarrow> string \<Rightarrow> int \<Rightarrow> string \<Rightarrow> int \<Rightarrow> db
   \<Rightarrow> store_error + candidate_result \<times> db" where
  "recordCandidateResult sha256 uuid cid aid expectedVersion leaseToken fence response timestamp s =
     fetch (get_attempt s aid) (Thrown ''Attempt does not exist'') (\<lambda>attempt.
     let responseHash = sha256 response
     in case getCandidateForAttempt s aid of
          Some existing \<Rightarrow>
            and_then (requireLease aid leaseToken fence timestamp None s) (\<lambda>executionLease.
            require (l_attemptVersion executionLease = expectedVersion
                     \<and> a_version attempt = c_attemptVersion existing
                     \<and> c_attemptVersion existing = expectedVersion + 1) (Thrown ''Attempt version mismatch'')
           (require (c_responseHash existing = responseHash \<and> c_response existing = response)
              (Thrown ''Attempt already has a different Candidate result'')
              (Inr (existing, s))))
        | None \<Rightarrow>
            require (a_version attempt = expectedVersion) (Thrown ''Attempt version mismatch'')
           (and_then (requireLease aid leaseToken fence timestamp None s) (\<lambda>executionLease.
            require (l_attemptVersion executionLease = a_version attempt)
              (Thrown ''Execution lease Attempt version mismatch'')
           (assertAttemptTransition (a_status attempt) A_settling
           (let settlingVersion = a_version attempt + 1
            in and_then (cas_attempt (a_id attempt) (a_version attempt) True A_running
                   (\<lambda>a. a\<lparr>a_status := A_settling, a_version := a_version a + 1, a_updatedAt := timestamp\<rparr>)
                   (Thrown ''Attempt version changed before candidate settlement'') s) (\<lambda>s1.
               let s2 = insert_or_ignore_candidate
                     \<lparr>c_id = cid, c_attemptId = aid, c_attemptVersion = settlingVersion,
                      c_response = response, c_responseHash = responseHash, c_status = Cand_proposed,
                      c_createdAt = timestamp, c_settledAt = None\<rparr> s1
               in fetch (getCandidate s2 cid)
                    (Thrown ''Candidate result already exists with different content'') (\<lambda>candidate.
                  require (c_attemptId candidate = a_id attempt
                           \<and> c_attemptVersion candidate = settlingVersion
                           \<and> c_responseHash candidate = responseHash \<and> c_response candidate = response)
                    (Thrown ''Candidate result already exists with different content'')
                 (and_then (insert_audit (transition_row uuid attempt A_settling ''terminal''
                      ''candidate_result'' settlingVersion (a_eventSequence attempt) timestamp) s2) (\<lambda>s3.
                  Inr (candidate, s3))))))))))"

section \<open>Settlement\<close>

datatype terminal_attempt_status = Term_completed | Term_blocked | Term_failed | Term_cancelled

fun term_attempt :: "terminal_attempt_status \<Rightarrow> attempt_status" where
  "term_attempt Term_completed = A_completed"
| "term_attempt Term_blocked = A_blocked"
| "term_attempt Term_failed = A_failed"
| "term_attempt Term_cancelled = A_cancelled"

fun term_run :: "terminal_attempt_status \<Rightarrow> run_status" where
  "term_run Term_completed = Completed"
| "term_run Term_blocked = Blocked"
| "term_run Term_failed = Failed"
| "term_run Term_cancelled = Cancelled"

fun term_event :: "terminal_attempt_status \<Rightarrow> string" where
  "term_event Term_completed = ''run.completed''"
| "term_event Term_blocked = ''run.blocked''"
| "term_event Term_failed = ''run.failed''"
| "term_event Term_cancelled = ''run.cancelled''"

record settle_input =
  si_attemptId :: string
  si_expectedVersion :: int
  si_leaseToken :: string
  si_fence :: int
  si_candidateResultId :: string
  si_supervisorDecisionId :: string
  si_status :: terminal_attempt_status
  si_reason :: string
  si_timestamp :: int

text \<open>
  The rows a settlement closes beside the run and its Attempt: candidate, lease, decision,
  and the message of a completed run.
\<close>

definition settle_side :: "settle_input \<Rightarrow> attempt \<Rightarrow> candidate_result \<Rightarrow> task_run \<Rightarrow> db \<Rightarrow> db" where
  "settle_side input attempt candidate run s4 =
     (let timestamp = si_timestamp input;
          s5 = set_candidate (\<lambda>c. c_id c = c_id candidate \<and> c_status c = Cand_proposed)
            (\<lambda>c. c\<lparr>c_status := (if si_status input = Term_completed then Cand_accepted else Cand_rejected),
                   c_settledAt := Some timestamp\<rparr>) s4;
          s6 = set_lease (a_id attempt) (\<lambda>l. l_token l = si_leaseToken input \<and> l_fence l = si_fence input)
            (\<lambda>l. l\<lparr>l_releasedAt := Some timestamp\<rparr>) s5;
          s7 = set_decision (\<lambda>d. d_id d = si_supervisorDecisionId input \<and> d_status d = Dec_proposed)
            (\<lambda>d. d\<lparr>d_status := Dec_executed, d_error := '''', d_executedAt := Some timestamp\<rparr>) s6
      in if si_status input = Term_completed \<and> js_trim (c_response candidate) \<noteq> ''''
         then deliver_message (r_sessionId run) (c_response candidate) timestamp s7 else s7)"

text \<open>The writes of a settlement once its guards have passed.\<close>

definition settle_writes ::
  "string \<Rightarrow> settle_input \<Rightarrow> attempt \<Rightarrow> candidate_result \<Rightarrow> task_run \<Rightarrow> supervisor_decision \<Rightarrow> db
   \<Rightarrow> store_error + attempt \<times> db" where
  "settle_writes uuid input attempt candidate run decision s =
     (let timestamp = si_timestamp input;
          rid = a_runId attempt; aid = a_id attempt;
          firstSeq = r_lastEventSeq run + 1;
          eventSeq = (if si_status input = Term_blocked then firstSeq + 1 else firstSeq)
      in and_then
           (if si_status input = Term_blocked then
              append_event_at rid ''message.rejected''
                (JObj [(''response'', JStr (c_response candidate)), (''reason'', JStr (si_reason input)),
                       (''supervisionDecisionId'', JStr (si_supervisorDecisionId input)),
                       (''action'', JStr (action_name (d_action decision)))]) aid firstSeq timestamp s
            else Inr s) (\<lambda>s1.
         and_then (append_event_at rid (term_event (si_status input))
             (JObj [(''attemptId'', JStr aid), (''candidateResultId'', JStr (c_id candidate)),
                    (''response'', JStr (c_response candidate)),
                    (''supervisionDecisionId'', JStr (si_supervisorDecisionId input)),
                    (''action'', JStr (action_name (d_action decision))),
                    (''reason'', JStr (si_reason input))]) aid eventSeq timestamp s1) (\<lambda>s2.
         and_then (cas_attempt aid (a_version attempt) True A_settling
             (\<lambda>a. a\<lparr>a_status := term_attempt (si_status input), a_active := False,
                    a_version := a_version a + 1, a_eventSequence := eventSeq,
                    a_updatedAt := timestamp, a_completedAt := Some timestamp\<rparr>)
             (Thrown ''Attempt version changed during settlement'') s2) (\<lambda>s3.
         and_then (cas_run rid Running (a_ordinal attempt)
             (\<lambda>r. r\<lparr>r_status := term_run (si_status input),
                    r_phase := terminal_phase (term_run (si_status input)) (r_phase r),
                    r_blockedReason := si_reason input, r_lastEventSeq := eventSeq,
                    r_completedAt := terminal_time (term_run (si_status input)) timestamp,
                    r_updatedAt := timestamp\<rparr>)
             (Thrown ''TaskRun changed during Attempt settlement'') s3) (\<lambda>s4.
         and_then (finalizeAttemptProjectionCheckpoint rid aid (a_ordinal attempt) eventSeq timestamp
             (settle_side input attempt candidate run s4)) (\<lambda>s9.
         and_then (insert_audit (transition_row uuid attempt (term_attempt (si_status input)) ''terminal''
             (si_reason input) (a_version attempt + 1) eventSeq timestamp) s9) (\<lambda>s10.
         fetch (get_attempt s10 aid) (Type_error ''attempt is undefined'') (\<lambda>a. Inr (a, s10)))))))))"

definition settleAttempt :: "string \<Rightarrow> settle_input \<Rightarrow> db \<Rightarrow> store_error + attempt \<times> db" where
  "settleAttempt uuid input s =
     fetch (get_attempt s (si_attemptId input)) (Thrown ''Attempt does not exist'') (\<lambda>attempt.
     require (a_version attempt = si_expectedVersion input) (Thrown ''Attempt version mismatch'')
    (require (a_active attempt \<and> a_status attempt = A_settling) (Thrown ''Attempt is not settling'')
    (assertAttemptTransition (a_status attempt) (term_attempt (si_status input))
    (and_then (requireLease (si_attemptId input) (si_leaseToken input) (si_fence input) (si_timestamp input) None s)
       (\<lambda>executionLease.
     require (l_attemptVersion executionLease = a_version attempt - 1)
       (Thrown ''Execution lease Attempt version mismatch'')
    (fetch (getCandidate s (si_candidateResultId input))
       (Thrown ''Candidate result does not belong to Attempt'') (\<lambda>candidate.
     require (c_attemptId candidate = a_id attempt) (Thrown ''Candidate result does not belong to Attempt'')
    (require (c_attemptVersion candidate = a_version attempt)
       (Thrown ''Candidate result Attempt version mismatch'')
    (require (c_status candidate = Cand_proposed) (Thrown ''Candidate result is already settled'')
    (fetch (get_run s (a_runId attempt)) (Thrown ''TaskRun projection is stale'') (\<lambda>run.
     require (r_attempt run = a_ordinal attempt \<and> r_status run = Running)
       (Thrown ''TaskRun projection is stale'')
    (fetch (get_decision s (si_supervisorDecisionId input))
       (Thrown ''Supervisor decision is not proposed for Attempt'') (\<lambda>decision.
     require (d_runId decision = a_runId attempt \<and> d_attempt decision = a_ordinal attempt
              \<and> d_status decision = Dec_proposed)
       (Thrown ''Supervisor decision is not proposed for Attempt'')
    (require (\<not> (si_status input = Term_completed \<and> d_action decision \<noteq> Act_complete_taskrun))
       (Thrown ''Supervisor decision does not authorize completion'')
       (settle_writes uuid input attempt candidate run decision s)))))))))))))))"

section \<open>Re-adjudication of a rejected candidate\<close>

record readjudicate_input =
  ra_attemptId :: string
  ra_expectedVersion :: int
  ra_candidateResultId :: string
  ra_candidateResponseHash :: string
  ra_previousSupervisorDecisionId :: string
  ra_supervisorDecisionId :: string
  ra_gateEvaluationIds :: "string list"
  ra_acceptedUncertaintyIds :: "string list"
  ra_reason :: string
  ra_timestamp :: int

definition decision_of :: "db \<Rightarrow> string \<Rightarrow> attempt \<Rightarrow> supervisor_decision option" where
  "decision_of s did attempt =
     find (\<lambda>d. d_id d = did \<and> d_runId d = a_runId attempt \<and> d_attempt d = a_ordinal attempt) (db_decisions s)"

text \<open>\<open>[...new Set(ids)]\<close>: the first occurrences, in order.\<close>

definition js_unique :: "'a list \<Rightarrow> 'a list" where
  "js_unique xs = rev (remdups (rev xs))"

definition readjudication_gates_pass :: "db \<Rightarrow> attempt \<Rightarrow> string list \<Rightarrow> bool" where
  "readjudication_gates_pass s attempt gateIds =
     (let gates = filter (\<lambda>g. ge_runId g = a_runId attempt \<and> ge_attempt g = a_ordinal attempt
                            \<and> ge_id g \<in> set gateIds) (db_gates s)
      in length gates = length gateIds
         \<and> list_all (\<lambda>ty. list_ex (\<lambda>g. ge_gateType g = ty \<and> ge_passed g \<and> ge_failures g = []) gates)
             [G_progress, G_evidence, G_contract, G_completion])"

definition live_uncertainties :: "db \<Rightarrow> attempt \<Rightarrow> string list \<Rightarrow> int \<Rightarrow> accepted_uncertainty list" where
  "live_uncertainties s attempt ids timestamp =
     filter (\<lambda>u. un_runId u = a_runId attempt \<and> un_id u \<in> set ids
               \<and> (case un_expiresAt u of None \<Rightarrow> True | Some t \<Rightarrow> timestamp < t)) (db_uncertainties s)"

text \<open>The candidate, decision and message writes of a re-adjudication.\<close>

definition rejected_candidate :: "candidate_result \<Rightarrow> candidate_result \<Rightarrow> bool" where
  "rejected_candidate candidate c =
     (c_id c = c_id candidate \<and> c_status c = Cand_rejected \<and> c_responseHash c = c_responseHash candidate)"

definition proposed_decision :: "string \<Rightarrow> supervisor_decision \<Rightarrow> bool" where
  "proposed_decision did d = (d_id d = did \<and> d_status d = Dec_proposed)"

definition readjudicate_side :: "readjudicate_input \<Rightarrow> candidate_result \<Rightarrow> task_run \<Rightarrow> db \<Rightarrow> store_error + db" where
  "readjudicate_side input candidate run s3 =
     (let timestamp = ra_timestamp input;
          s4 = set_candidate (rejected_candidate candidate) (\<lambda>c. c\<lparr>c_status := Cand_accepted\<rparr>) s3;
          isDecision = proposed_decision (ra_supervisorDecisionId input)
      in require (cnt (rejected_candidate candidate) (db_candidates s3) = 1)
           (Thrown ''Rejected Candidate changed during re-adjudication'')
        (let s5 = set_decision isDecision
               (\<lambda>d. d\<lparr>d_status := Dec_executed, d_error := '''', d_executedAt := Some timestamp\<rparr>) s4
         in require (cnt isDecision (db_decisions s4) = 1)
              (Thrown ''Re-adjudication decision changed before completion'')
              (Inr (deliver_message (r_sessionId run) (c_response candidate) timestamp s5))))"

definition readjudicate_writes ::
  "string \<Rightarrow> readjudicate_input \<Rightarrow> attempt \<Rightarrow> candidate_result \<Rightarrow> task_run \<Rightarrow> supervisor_decision
   \<Rightarrow> string list \<Rightarrow> db \<Rightarrow> store_error + (attempt \<times> run_event) \<times> db" where
  "readjudicate_writes uuid input attempt candidate run decision uncertaintyIds s =
     (let timestamp = ra_timestamp input;
          rid = a_runId attempt; aid = a_id attempt;
          eventSeq = r_lastEventSeq run + 1;
          data = JObj [(''attemptId'', JStr aid), (''candidateResultId'', JStr (c_id candidate)),
                       (''response'', JStr (c_response candidate)),
                       (''supervisionDecisionId'', JStr (ra_supervisorDecisionId input)),
                       (''previousSupervisionDecisionId'', JStr (ra_previousSupervisorDecisionId input)),
                       (''action'', JStr (action_name (d_action decision))),
                       (''reason'', JStr (ra_reason input)),
                       (''acceptedUncertaintyIds'', JArr (map JStr uncertaintyIds)),
                       (''reAdjudicated'', JBool True)];
          event = \<lparr>e_runId = rid, e_seq = eventSeq, e_attemptId = aid, e_type = ''run.completed'',
                   e_data = data, e_createdAt = timestamp\<rparr>
      in and_then (insert_event event s) (\<lambda>s1.
         and_then (cas_attempt aid (a_version attempt) False A_blocked
             (\<lambda>a. a\<lparr>a_status := A_completed, a_version := a_version a + 1, a_eventSequence := eventSeq,
                    a_updatedAt := timestamp, a_completedAt := Some timestamp\<rparr>)
             (Thrown ''Blocked Attempt changed during Candidate re-adjudication'') s1) (\<lambda>s2.
         and_then (cas_run rid Blocked (a_ordinal attempt)
             (\<lambda>r. r\<lparr>r_status := Completed, r_phase := Ph_done, r_blockedReason := '''',
                    r_lastEventSeq := eventSeq, r_completedAt := Some timestamp, r_updatedAt := timestamp\<rparr>)
             (Thrown ''Blocked TaskRun changed during Candidate re-adjudication'') s2) (\<lambda>s3.
         and_then (readjudicate_side input candidate run s3) (\<lambda>s6.
         and_then (finalizeAttemptProjectionCheckpoint rid aid (a_ordinal attempt) eventSeq timestamp s6) (\<lambda>s7.
         and_then (insert_audit (transition_row uuid attempt A_completed ''uncertainty_readjudication''
             (ra_reason input) (a_version attempt + 1) eventSeq timestamp) s7) (\<lambda>s8.
         fetch (get_attempt s8 aid) (Type_error ''attempt is undefined'')
           (\<lambda>a. Inr ((a, event), s8)))))))))"

definition reAdjudicateBlockedCandidate ::
  "string \<Rightarrow> readjudicate_input \<Rightarrow> db \<Rightarrow> store_error + (attempt \<times> run_event) \<times> db" where
  "reAdjudicateBlockedCandidate uuid input s =
     fetch (get_attempt s (ra_attemptId input)) (Thrown ''Attempt does not exist'') (\<lambda>attempt.
     require (a_version attempt = ra_expectedVersion input) (Thrown ''Attempt version mismatch'')
    (require (\<not> a_active attempt \<and> a_status attempt = A_blocked) (Thrown ''Attempt is not blocked'')
    (fetch (getCandidate s (ra_candidateResultId input))
       (Thrown ''Candidate result is not the rejected Candidate for Attempt'') (\<lambda>candidate.
     require (c_attemptId candidate = a_id attempt \<and> c_status candidate = Cand_rejected)
       (Thrown ''Candidate result is not the rejected Candidate for Attempt'')
    (require (c_attemptVersion candidate = a_version attempt - 1
              \<and> c_responseHash candidate = ra_candidateResponseHash input
              \<and> js_trim (c_response candidate) \<noteq> '''')
       (Thrown ''Rejected Candidate integrity does not match the blocked Attempt'')
    (fetch (get_run s (a_runId attempt)) (Thrown ''TaskRun projection is stale for blocked Attempt'') (\<lambda>run.
     require (r_status run = Blocked \<and> r_attempt run = a_ordinal attempt)
       (Thrown ''TaskRun projection is stale for blocked Attempt'')
    (fetch (decision_of s (ra_previousSupervisorDecisionId input) attempt)
       (Thrown ''Rejected Candidate is not bound to the prior executed blocking decision'') (\<lambda>prior.
     require (d_action prior = Act_block_taskrun \<and> d_status prior = Dec_executed
              \<and> d_candidateResponseHash prior = c_responseHash candidate)
       (Thrown ''Rejected Candidate is not bound to the prior executed blocking decision'')
    (fetch (decision_of s (ra_supervisorDecisionId input) attempt)
       (Thrown ''Re-adjudication decision does not authorize this Candidate completion'') (\<lambda>decision.
     require (d_action decision = Act_complete_taskrun \<and> d_status decision = Dec_proposed
              \<and> d_candidateResponseHash decision = c_responseHash candidate)
       (Thrown ''Re-adjudication decision does not authorize this Candidate completion'')
    (require (readjudication_gates_pass s attempt (js_unique (ra_gateEvaluationIds input)))
       (Thrown ''Re-adjudication Gates do not authorize Candidate completion'')
    (let uncertaintyIds = js_unique (ra_acceptedUncertaintyIds input)
     in require (uncertaintyIds \<noteq> []) (Thrown ''Candidate re-adjudication requires accepted uncertainty'')
       (require (length (live_uncertainties s attempt uncertaintyIds (ra_timestamp input)) = length uncertaintyIds)
          (Thrown ''Candidate re-adjudication uncertainty is missing or expired'')
          (readjudicate_writes uuid input attempt candidate run decision uncertaintyIds s)))))))))))))))"

section \<open>Recovery and cancellation\<close>

text \<open>The rows an ended Attempt leaves open: its proposed candidate and decisions.\<close>

definition reject_candidates :: "string \<Rightarrow> int \<Rightarrow> db \<Rightarrow> db" where
  "reject_candidates aid timestamp =
     set_candidate (\<lambda>c. c_attemptId c = aid \<and> c_status c = Cand_proposed)
       (\<lambda>c. c\<lparr>c_status := Cand_rejected, c_settledAt := Some timestamp\<rparr>)"

definition supersede_decisions :: "string \<Rightarrow> int \<Rightarrow> string \<Rightarrow> int \<Rightarrow> db \<Rightarrow> db" where
  "supersede_decisions rid ordinal reason timestamp =
     set_decision (\<lambda>d. d_runId d = rid \<and> d_attempt d = ordinal \<and> d_status d = Dec_proposed)
       (\<lambda>d. d\<lparr>d_status := Dec_superseded, d_error := reason, d_executedAt := Some timestamp\<rparr>)"

record recover_input =
  ri_attemptId :: string
  ri_ownerId :: string
  ri_leaseToken :: string
  ri_fence :: int
  ri_expectedVersion :: int
  ri_supervisorDecisionId :: "string option"
  ri_reason :: string
  ri_timestamp :: int

text \<open>The candidate, decision and lease writes of a recovery.\<close>

definition recover_side :: "recover_input \<Rightarrow> attempt \<Rightarrow> db \<Rightarrow> store_error + db" where
  "recover_side input attempt s3 =
     (let timestamp = ri_timestamp input;
          aid = a_id attempt;
          open_lease = (\<lambda>l. l_token l = ri_leaseToken input \<and> l_fence l = ri_fence input
                              \<and> l_releasedAt l = None);
          s4 = reject_candidates aid timestamp s3;
          s5 = supersede_decisions (a_runId attempt) (a_ordinal attempt) (ri_reason input) timestamp s4
      in require (lease_changes aid open_lease s5 = 1)
           (Thrown ''Execution lease changed during Attempt recovery'')
           (Inr (set_lease aid open_lease (\<lambda>l. l\<lparr>l_releasedAt := Some timestamp\<rparr>) s5)))"

definition recover_writes ::
  "string \<Rightarrow> recover_input \<Rightarrow> attempt \<Rightarrow> task_run \<Rightarrow> db \<Rightarrow> store_error + (attempt \<times> run_event option) \<times> db" where
  "recover_writes uuid input attempt run s =
     (let timestamp = ri_timestamp input;
          rid = a_runId attempt; aid = a_id attempt;
          eventSeq = r_lastEventSeq run + 1;
          data = JObj ([(''attemptId'', JStr aid), (''reason'', JStr (ri_reason input)),
                        (''recoverable'', JBool True)] @
                       (case ri_supervisorDecisionId input of None \<Rightarrow> []
                        | Some d \<Rightarrow> if d = '''' then [] else [(''supervisorDecisionId'', JStr d)]));
          event = \<lparr>e_runId = rid, e_seq = eventSeq, e_attemptId = aid, e_type = ''run.interrupted'',
                   e_data = data, e_createdAt = timestamp\<rparr>
      in and_then (append_event_at rid ''run.interrupted'' data aid eventSeq timestamp s) (\<lambda>s1.
         and_then (cas_attempt aid (a_version attempt) True (a_status attempt)
             (\<lambda>a. a\<lparr>a_status := A_interrupted, a_active := False, a_version := a_version a + 1,
                    a_eventSequence := eventSeq, a_updatedAt := timestamp, a_completedAt := None\<rparr>)
             (Thrown ''Attempt version changed during recovery'') s1) (\<lambda>s2.
         and_then (cas_run rid Running (a_ordinal attempt)
             (\<lambda>r. r\<lparr>r_status := Interrupted, r_blockedReason := ri_reason input,
                    r_lastEventSeq := eventSeq, r_completedAt := None, r_updatedAt := timestamp\<rparr>)
             (Thrown ''TaskRun changed during Attempt recovery'') s2) (\<lambda>s3.
         and_then (recover_side input attempt s3) (\<lambda>s6.
         and_then (finalizeAttemptProjectionCheckpoint rid aid (a_ordinal attempt) eventSeq timestamp s6) (\<lambda>s7.
         and_then (recordTerminalAudit uuid attempt A_interrupted (ri_reason input) eventSeq
             (a_version attempt + 1) timestamp s7) (\<lambda>s8.
         fetch (get_attempt s8 aid) (Type_error ''attempt is undefined'')
           (\<lambda>a. Inr ((a, Some event), s8)))))))))"

definition recoverInterruptedAttempt ::
  "string \<Rightarrow> recover_input \<Rightarrow> db \<Rightarrow> store_error + (attempt \<times> run_event option) \<times> db" where
  "recoverInterruptedAttempt uuid input s =
     fetch (get_attempt s (ri_attemptId input)) (Thrown ''Attempt does not exist'') (\<lambda>attempt.
     fetch (get_lease s (ri_attemptId input)) (Thrown ''Execution lease for Attempt does not exist'') (\<lambda>lease.
     require (l_ownerId lease = ri_ownerId input) (Thrown ''Execution lease owner mismatch'')
    (require (l_token lease = ri_leaseToken input) (Thrown ''Execution lease token mismatch'')
    (require (l_fence lease = ri_fence input) (Thrown ''Execution lease fence mismatch'')
    (let run = get_run s (a_runId attempt)
     in if a_status attempt = A_interrupted \<and> \<not> a_active attempt then
          require (case run of None \<Rightarrow> False
                   | Some r \<Rightarrow> r_attempt r = a_ordinal attempt \<and> r_status r = Interrupted
                               \<and> l_releasedAt lease \<noteq> None)
            (Thrown ''Interrupted Attempt recovery state is inconsistent'')
         (require (\<not> list_ex (\<lambda>c. c_attemptId c = a_id attempt \<and> c_status c = Cand_proposed) (db_candidates s)
                   \<and> \<not> list_ex (\<lambda>d. d_runId d = a_runId attempt \<and> d_attempt d = a_ordinal attempt
                                    \<and> d_status d = Dec_proposed) (db_decisions s))
            (Thrown ''Interrupted Attempt recovery is incomplete'')
            (Inr ((attempt, None), s)))
        else
          require (l_releasedAt lease = None) (Thrown ''Execution lease was released'')
         (let running = (a_status attempt = A_running \<and> a_version attempt = ri_expectedVersion input);
              settling = (a_status attempt = A_settling \<and> a_version attempt = ri_expectedVersion input + 1
                          \<and> (case getCandidateForAttempt s (a_id attempt) of None \<Rightarrow> False
                             | Some c \<Rightarrow> c_status c = Cand_proposed \<and> c_attemptVersion c = a_version attempt))
          in require (a_active attempt \<and> (running \<or> settling)) (Thrown ''Attempt version changed'')
            (require (l_attemptVersion lease = ri_expectedVersion input)
               (Thrown ''Execution lease Attempt version mismatch'')
            (fetch run (Thrown ''TaskRun projection is stale'') (\<lambda>r.
             require (r_attempt r = a_ordinal attempt \<and> r_status r = Running)
               (Thrown ''TaskRun projection is stale'')
            (require (case ri_supervisorDecisionId input of None \<Rightarrow> True
                      | Some did \<Rightarrow> did = '''' \<or>
                          (case get_decision s did of None \<Rightarrow> False
                           | Some d \<Rightarrow> d_runId d = a_runId attempt \<and> d_attempt d = a_ordinal attempt
                                        \<and> d_status d = Dec_proposed))
               (Thrown ''Supervisor decision is not proposed for Attempt'')
            (assertAttemptTransition (a_status attempt) A_interrupted
               (recover_writes uuid input attempt r s))))))))))))"

text \<open>The candidate, decision and lease writes of a cancellation.\<close>

definition cancel_side :: "string \<Rightarrow> int \<Rightarrow> attempt \<Rightarrow> db \<Rightarrow> db" where
  "cancel_side reason timestamp attempt s3 =
     set_lease (a_id attempt) (\<lambda>l. l_releasedAt l = None) (\<lambda>l. l\<lparr>l_releasedAt := Some timestamp\<rparr>)
       (supersede_decisions (a_runId attempt) (a_ordinal attempt) reason timestamp
         (reject_candidates (a_id attempt) timestamp s3))"

definition cancel_writes ::
  "string \<Rightarrow> string \<Rightarrow> int \<Rightarrow> attempt \<Rightarrow> task_run \<Rightarrow> db \<Rightarrow> store_error + (attempt \<times> run_event option) \<times> db" where
  "cancel_writes uuid reason timestamp attempt run s =
     (let rid = a_runId attempt; aid = a_id attempt;
          eventSeq = r_lastEventSeq run + 1;
          data = JObj [(''attemptId'', JStr aid), (''reason'', JStr reason)];
          event = \<lparr>e_runId = rid, e_seq = eventSeq, e_attemptId = aid, e_type = ''run.cancelled'',
                   e_data = data, e_createdAt = timestamp\<rparr>
      in and_then (append_event_at rid ''run.cancelled'' data aid eventSeq timestamp s) (\<lambda>s1.
         and_then (cas_attempt aid (a_version attempt) True (a_status attempt)
             (\<lambda>a. a\<lparr>a_status := A_cancelled, a_active := False, a_version := a_version a + 1,
                    a_eventSequence := eventSeq, a_updatedAt := timestamp, a_completedAt := Some timestamp\<rparr>)
             (Thrown ''Attempt version changed during cancellation'') s1) (\<lambda>s2.
         and_then (cas_run rid Running (a_ordinal attempt)
             (\<lambda>r. r\<lparr>r_status := Cancelled, r_blockedReason := reason, r_lastEventSeq := eventSeq,
                    r_completedAt := Some timestamp, r_updatedAt := timestamp\<rparr>)
             (Thrown ''TaskRun changed during Attempt cancellation'') s2) (\<lambda>s3.
         and_then (finalizeAttemptProjectionCheckpoint rid aid (a_ordinal attempt) eventSeq timestamp
             (cancel_side reason timestamp attempt s3)) (\<lambda>s7.
         and_then (recordTerminalAudit uuid attempt A_cancelled reason eventSeq
             (a_version attempt + 1) timestamp s7) (\<lambda>s8.
         fetch (get_attempt s8 aid) (Type_error ''attempt is undefined'')
           (\<lambda>a. Inr ((a, Some event), s8))))))))"

definition cancelAttempt ::
  "string \<Rightarrow> string \<Rightarrow> string \<Rightarrow> int \<Rightarrow> db \<Rightarrow> store_error + (attempt \<times> run_event option) \<times> db" where
  "cancelAttempt uuid aid reason timestamp s =
     fetch (get_attempt s aid) (Thrown ''Attempt does not exist'') (\<lambda>attempt.
     let run = get_run s (a_runId attempt)
     in if a_status attempt = A_cancelled \<and> \<not> a_active attempt then
          require (case run of None \<Rightarrow> False
                   | Some r \<Rightarrow> r_attempt r = a_ordinal attempt \<and> r_status r = Cancelled)
            (Thrown ''Cancelled Attempt state is inconsistent'')
            (Inr ((attempt, None), s))
        else
          require (a_active attempt \<and> a_status attempt \<in> {A_running, A_settling})
            (Thrown ''Attempt is not cancellable'')
         (fetch run (Thrown ''TaskRun projection is stale'') (\<lambda>r.
          require (r_attempt r = a_ordinal attempt \<and> r_status r = Running)
            (Thrown ''TaskRun projection is stale'')
         (assertAttemptTransition (a_status attempt) A_cancelled
            (cancel_writes uuid reason timestamp attempt r s)))))"

lemmas settlement_defs =
  settleAttempt_def settle_writes_def reAdjudicateBlockedCandidate_def readjudicate_writes_def
  recoverInterruptedAttempt_def recover_writes_def cancelAttempt_def cancel_writes_def

section \<open>The invariant is kept\<close>

text \<open>A write that moves one Attempt and its run together.\<close>

lemma store_inv_settle:
  assumes inv: "store_inv s" and att: "get_attempt s aid = Some a"
    and run: "get_run s (a_runId a) = Some r" "r_attempt r = a_ordinal a"
    and runs: "db_runs s' = upd (\<lambda>x. r_id x = a_runId a) f (db_runs s)"
    and f: "r_id (f r) = r_id r" "r_attempt (f r) = r_attempt r" "r_lastEventSeq r \<le> r_lastEventSeq (f r)"
    and atts: "db_attempts s' = upd (\<lambda>x. a_id x = aid) g (db_attempts s)"
    and g: "a_id (g a) = a_id a" "a_runId (g a) = a_runId a" "a_ordinal (g a) = a_ordinal a"
    and okA: "attempts_ok (db_attempts s')"
    and agree: "status_agrees (r_status (f r)) (a_status (g a))"
    and evs: "db_events s' = db_events s @ new" "\<And>e. e \<in> set new \<Longrightarrow> e_runId e = a_runId a"
      "map e_seq new = [r_lastEventSeq r + 1 .. r_lastEventSeq (f r)]"
    and cps: "cp_moves (a_runId a) (r_attempt r) (db_checkpoints s) (db_checkpoints s')"
  shows "store_inv s'"
proof -
  have inv': "coherent s" "journal_ok s" "checkpoints_ok s" using inv by (simp_all add: store_inv_def)
  let ?F = "\<lambda>x. if r_id x = a_runId a then f x else x" and ?G = "\<lambda>x. if a_id x = aid then g x else x"
  have maps: "db_runs s' = map ?F (db_runs s)" by (simp add: runs upd_def)
  have mapa: "db_attempts s' = map ?G (db_attempts s)" by (simp add: atts upd_def)
  have only: "x = r" if "x \<in> set (db_runs s)" "r_id x = a_runId a" for x
    using that run store_inv_distinct [OF inv] by (auto simp: get_run_def dest: find_key_unique)
  have onlya: "x = a" if "x \<in> set (db_attempts s)" "a_id x = aid" for x
    using that att attempts_ok_distinct [OF coherent_attempts_ok [OF inv'(1)]]
    by (auto simp: get_attempt_def dest: find_key_unique)
  have a: "a \<in> set (db_attempts s)" "a_id a = aid" using att by (auto dest: get_attempt_SomeD)
  have r: "r \<in> set (db_runs s)" "r_id r = a_runId a" using run by (auto dest: get_run_SomeD)
  have "coherent s'"
  proof (rule coherent_same_attempt [where F = ?F and G = ?G, OF inv'(1) maps mapa okA])
    show "r_id (?F x) = r_id x \<and> r_attempt (?F x) = r_attempt x" if "x \<in> set (db_runs s)" for x
      using only [OF that] f by auto
    show "a_id (?G x) = a_id x \<and> a_runId (?G x) = a_runId x \<and> a_ordinal (?G x) = a_ordinal x"
      if "x \<in> set (db_attempts s)" for x using onlya [OF that] g by auto
    show "\<not> a_active (?G x)" if "y \<in> set (db_runs s)" "x \<in> set (db_attempts s)" "r_id y = a_runId x"
      "a_ordinal x < r_attempt y" "\<not> a_active x" for x y
      using that only [OF that(1)] onlya [OF that(2)] run(2) by auto
    show "status_agrees (r_status (?F y)) (a_status (?G x))"
      if "y \<in> set (db_runs s)" "x \<in> set (db_attempts s)" "a_runId x = r_id y"
        "a_ordinal x = r_attempt y" "status_agrees (r_status y) (a_status x)" for x y
    proof (cases "r_id y = a_runId a")
      case True
      then have "y = r" using only that(1) by blast
      moreover from this have "x = a" using attempt_unique [OF inv'(1) that(2) a(1)] that(3,4) run(2) True by simp
      ultimately show ?thesis using agree r(2) a(2) by simp
    next
      case False
      then have "a_id x \<noteq> aid" using onlya [OF that(2)] that(3) by metis
      with False that(5) show ?thesis by simp
    qed
  qed
  moreover have "journal_ok s'"
    by (rule journal_run_events [OF inv'(2) runs run(1) _ f(3) evs]) (use f(1) r(2) in simp)
  moreover have "checkpoints_ok s'"
  proof (rule checkpoints_step [where F = ?F, OF inv'(3) maps _ cps r order_refl])
    show "r_id (?F x) = r_id x \<and> r_attempt x \<le> r_attempt (?F x)" if "x \<in> set (db_runs s)" for x
      using only [OF that] f by auto
  qed
  ultimately show ?thesis by (simp add: store_inv_def)
qed

lemma cas_attempt_Inr:
  assumes "cas_attempt aid v act st f err s = Inr s'" and "get_attempt s aid = Some a"
    and "distinct (map a_id (db_attempts s))"
  shows "s' = s\<lparr>db_attempts := upd (\<lambda>x. a_id x = aid) f (db_attempts s)\<rparr>"
    and "attempts_ok (db_attempts s')" and "a_version a = v \<and> a_active a = act \<and> a_status a = st"
proof -
  let ?Q = "\<lambda>a. a_version a = v \<and> a_active a = act \<and> a_status a = st"
  from assms(1) have ok: "attempts_ok (upd (\<lambda>x. a_id x = aid \<and> ?Q x) f (db_attempts s))"
    and s': "s' = s\<lparr>db_attempts := upd (\<lambda>x. a_id x = aid \<and> ?Q x) f (db_attempts s)\<rparr>"
    and one: "cnt (\<lambda>x. a_id x = aid \<and> ?Q x) (db_attempts s) = 1"
    by (auto simp: cas_attempt_def put_attempts_def Let_def)
  show q: "?Q a" using one cnt_key [of a_id "db_attempts s" aid a ?Q] assms(2,3)
    by (auto simp: get_attempt_def split: if_splits)
  have "upd (\<lambda>x. a_id x = aid \<and> ?Q x) f (db_attempts s) = upd (\<lambda>x. a_id x = aid) f (db_attempts s)"
    using assms(2,3) q by (intro upd_cong) (auto simp: get_attempt_def dest: find_key_unique)
  with ok s' show "s' = s\<lparr>db_attempts := upd (\<lambda>x. a_id x = aid) f (db_attempts s)\<rparr>"
    "attempts_ok (db_attempts s')" by simp_all
qed

lemma cas_run_Inr:
  assumes "cas_run rid st n f err s = Inr s'" and "get_run s rid = Some r"
    and "distinct (map r_id (db_runs s))"
  shows "s' = s\<lparr>db_runs := upd (\<lambda>x. r_id x = rid) f (db_runs s)\<rparr>" and "r_status r = st \<and> r_attempt r = n"
proof -
  let ?Q = "\<lambda>r. r_status r = st \<and> r_attempt r = n"
  from assms(1) have s': "s' = s\<lparr>db_runs := upd (\<lambda>x. r_id x = rid \<and> ?Q x) f (db_runs s)\<rparr>"
    and one: "cnt (\<lambda>x. r_id x = rid \<and> ?Q x) (db_runs s) = 1"
    by (auto simp: cas_run_def run_changes_def set_run_def Let_def)
  show q: "?Q r" using one cnt_key [of r_id "db_runs s" rid r ?Q] assms(2,3)
    by (auto simp: get_run_def split: if_splits)
  have "upd (\<lambda>x. r_id x = rid \<and> ?Q x) f (db_runs s) = upd (\<lambda>x. r_id x = rid) f (db_runs s)"
    using assms(2,3) q by (intro upd_cong) (auto simp: get_run_def dest: find_key_unique)
  with s' show "s' = s\<lparr>db_runs := upd (\<lambda>x. r_id x = rid) f (db_runs s)\<rparr>" by simp
qed

text \<open>Two states with the same runs, Attempts, events and checkpoints.\<close>

definition same_core :: "db \<Rightarrow> db \<Rightarrow> bool" where
  "same_core s' s =
     (db_runs s' = db_runs s \<and> db_attempts s' = db_attempts s \<and> db_events s' = db_events s
      \<and> db_checkpoints s' = db_checkpoints s)"

lemma same_core_inv: "same_core s' s \<Longrightarrow> store_inv s' = store_inv s"
  by (rule store_inv_cong) (simp_all add: same_core_def)

lemma same_core_writes [simp]:
  "same_core s s"
  "same_core (set_candidate P1 f1 s) s' = same_core s s'"
  "same_core (set_lease aid P2 f2 s) s' = same_core s s'"
  "same_core (set_decision P3 f3 s) s' = same_core s s'"
  "same_core (deliver_message sid m t s) s' = same_core s s'"
  "same_core (reject_candidates aid t s) s' = same_core s s'"
  "same_core (supersede_decisions rid n rs t s) s' = same_core s s'"
  by (simp_all add: same_core_def set_candidate_def set_lease_def set_decision_def deliver_message_def
      reject_candidates_def supersede_decisions_def)

lemma same_core_sides:
  "same_core (settle_side input a c r s) s"
  "readjudicate_side rinput c r s = Inr s' \<Longrightarrow> same_core s' s"
  "recover_side vinput a s = Inr s' \<Longrightarrow> same_core s' s"
  "same_core (cancel_side rs t a s) s"
  by (auto simp: settle_side_def readjudicate_side_def recover_side_def cancel_side_def Let_def)

lemma insert_audit_Inr: "insert_audit x s = Inr s' \<Longrightarrow> s' = s\<lparr>db_audit := db_audit s @ [x]\<rparr>"
  by (auto simp: insert_audit_def)

lemma same_core_audit: "insert_audit x s = Inr s' \<Longrightarrow> same_core s' s"
  by (auto dest!: insert_audit_Inr simp: same_core_def)

text \<open>The state after the guarded Attempt and run updates that follow new events.\<close>

lemma settle_core:
  assumes inv: "store_inv s" and att: "get_attempt s aid = Some a" and run: "get_run s rid = Some r"
    and s1: "s1 = s\<lparr>db_events := es\<rparr>"
    and s2: "cas_attempt aid v act st g err s1 = Inr s2"
    and s3: "cas_run rid rst n f err' s2 = Inr s3"
  shows "s3 = s\<lparr>db_events := es, db_attempts := upd (\<lambda>x. a_id x = aid) g (db_attempts s),
           db_runs := upd (\<lambda>x. r_id x = rid) f (db_runs s)\<rparr>"
    and "attempts_ok (upd (\<lambda>x. a_id x = aid) g (db_attempts s))"
proof -
  have da: "distinct (map a_id (db_attempts s1))" and dr: "distinct (map r_id (db_runs s))"
    using inv by (simp_all add: store_inv_def coherent_def attempts_ok_def s1)
  have att1: "get_attempt s1 aid = Some a" using att by (simp add: s1 get_attempt_def)
  note c2 = cas_attempt_Inr [OF s2 att1 da]
  have run2: "get_run s2 rid = Some r" using run by (simp add: c2(1) s1 get_run_def)
  have dr2: "distinct (map r_id (db_runs s2))" using dr by (simp add: c2(1) s1)
  note c3 = cas_run_Inr [OF s3 run2 dr2]
  show "s3 = s\<lparr>db_events := es, db_attempts := upd (\<lambda>x. a_id x = aid) g (db_attempts s),
           db_runs := upd (\<lambda>x. r_id x = rid) f (db_runs s)\<rparr>"
    by (simp add: c3(1) c2(1) s1)
  show "attempts_ok (upd (\<lambda>x. a_id x = aid) g (db_attempts s))"
    using c2(2) by (simp add: c2(1) s1)
qed

lemma settle_tail_inv:
  assumes inv: "store_inv s" and att: "get_attempt s aid = Some a"
    and run: "get_run s (a_runId a) = Some r" "r_attempt r = a_ordinal a"
    and evs: "s1 = s\<lparr>db_events := db_events s @ new\<rparr>" "\<And>e. e \<in> set new \<Longrightarrow> e_runId e = a_runId a"
      "map e_seq new = [r_lastEventSeq r + 1 .. r_lastEventSeq (f r)]"
    and s2: "cas_attempt aid v act st g err s1 = Inr s2"
    and s3: "cas_run (a_runId a) rst n f err' s2 = Inr s3"
    and s4: "same_core s4 s3"
    and s5: "finalizeAttemptProjectionCheckpoint (a_runId a) aid (a_ordinal a) ev t s4 = Inr s5"
    and s6: "same_core s6 s5"
    and f: "r_id (f r) = r_id r" "r_attempt (f r) = r_attempt r" "r_lastEventSeq r \<le> r_lastEventSeq (f r)"
    and g: "a_id (g a) = a_id a" "a_runId (g a) = a_runId a" "a_ordinal (g a) = a_ordinal a"
    and agree: "status_agrees (r_status (f r)) (a_status (g a))"
  shows "store_inv s6"
proof -
  note c3 = settle_core [OF inv att run(1) evs(1) s2 s3]
  obtain cs where c5: "s5 = s4\<lparr>db_checkpoints := cs\<rparr>"
    and cs: "cp_moves (a_runId a) (a_ordinal a) (db_checkpoints s4) cs"
    using s5 by (rule finalize_Inr)
  have core: "db_runs s6 = upd (\<lambda>x. r_id x = a_runId a) f (db_runs s)"
    "db_attempts s6 = upd (\<lambda>x. a_id x = aid) g (db_attempts s)" "db_events s6 = db_events s @ new"
    "db_checkpoints s6 = cs" "db_checkpoints s4 = db_checkpoints s"
    using s4 s6 by (simp_all add: same_core_def c5 c3(1))
  have okA: "attempts_ok (db_attempts s6)" using c3(2) by (simp add: core)
  show ?thesis
    by (rule store_inv_settle [where f = f and g = g and new = new, OF inv att run core(1) f core(2) g okA agree core(3) evs(2,3)])
      (use cs run(2) core in simp_all)
qed

lemma append_event_at_Inr:
  "append_event_at rid ty d aid n t s = Inr s' \<Longrightarrow>
   s' = s\<lparr>db_events := db_events s @ [\<lparr>e_runId = rid, e_seq = n, e_attemptId = aid, e_type = ty, e_data = d,
       e_createdAt = t\<rparr>]\<rparr>"
  by (auto simp: append_event_at_def dest: insert_event_Inr)

lemma terminal_agrees: "status_agrees (term_run st) (term_attempt st)"
  by (cases st) auto

lemma cas_attempt_events: "cas_attempt aid v act st f err s = Inr s' \<Longrightarrow> db_events s' = db_events s"
  by (auto simp: cas_attempt_def put_attempts_def Let_def)

lemma settle_writes_inv:
  assumes inv: "store_inv s" and att: "get_attempt s (si_attemptId input) = Some a"
    and run: "get_run s (a_runId a) = Some r" "r_attempt r = a_ordinal a"
    and ok: "settle_writes uuid input a c r d s = Inr (a', s')"
  shows "store_inv s'"
proof -
  let ?st = "si_status input" and ?t = "si_timestamp input"
  let ?seq = "if ?st = Term_blocked then r_lastEventSeq r + 1 + 1 else r_lastEventSeq r + 1"
  let ?g = "\<lambda>a. a\<lparr>a_status := term_attempt ?st, a_active := False, a_version := a_version a + 1,
      a_eventSequence := ?seq, a_updatedAt := ?t, a_completedAt := Some ?t\<rparr>"
  let ?f = "\<lambda>r. r\<lparr>r_status := term_run ?st, r_phase := terminal_phase (term_run ?st) (r_phase r),
      r_blockedReason := si_reason input, r_lastEventSeq := ?seq,
      r_completedAt := terminal_time (term_run ?st) ?t, r_updatedAt := ?t\<rparr>"
  from ok obtain s1 s2 s3 s4 s9 e1 d2 where
    s1: "(if ?st = Term_blocked then append_event_at (a_runId a) ''message.rejected'' e1 (a_id a)
           (r_lastEventSeq r + 1) ?t s else Inr s) = Inr s1"
    and s2: "append_event_at (a_runId a) (term_event ?st) d2 (a_id a) ?seq ?t s1 = Inr s2"
    and s3: "cas_attempt (a_id a) (a_version a) True A_settling ?g
       (Thrown ''Attempt version changed during settlement'') s2 = Inr s3"
    and s4: "cas_run (a_runId a) Running (a_ordinal a) ?f
       (Thrown ''TaskRun changed during Attempt settlement'') s3 = Inr s4"
    and s9: "finalizeAttemptProjectionCheckpoint (a_runId a) (a_id a) (a_ordinal a) ?seq ?t
       (settle_side input a c r s4) = Inr s9"
    and s10: "insert_audit (transition_row uuid a (term_attempt ?st) ''terminal'' (si_reason input)
       (a_version a + 1) ?seq ?t) s9 = Inr s'"
    unfolding settle_writes_def Let_def by (simp only: and_then_Inr fetch_Inr) auto
  have aid: "a_id a = si_attemptId input" using att by (auto dest: get_attempt_SomeD)
  obtain new where new: "s2 = s\<lparr>db_events := db_events s @ new\<rparr>" "\<And>e. e \<in> set new \<Longrightarrow> e_runId e = a_runId a"
    "map e_seq new = [r_lastEventSeq r + 1 .. ?seq]"
  proof (cases "?st = Term_blocked")
    case True
    with s1 have "append_event_at (a_runId a) ''message.rejected'' e1 (a_id a) (r_lastEventSeq r + 1) ?t s = Inr s1"
      by simp
    note e = append_event_at_Inr [OF this] append_event_at_Inr [OF s2]
    show ?thesis
      by (rule that, simp add: e(2) e(1)) (use True in \<open>auto simp: upto_rec1\<close>)
  next
    case False
    with s1 have e: "s1 = s" by simp
    show ?thesis
      by (rule that, simp add: append_event_at_Inr [OF s2] e) (use False in auto)
  qed
  show ?thesis
    by (rule settle_tail_inv [where f = ?f and g = ?g and new = new,
          OF inv att run new(1,2) _ s3 [unfolded aid] s4 same_core_sides(1) s9 [unfolded aid]
            same_core_audit [OF s10]])
      (use new(3) terminal_agrees in simp_all)
qed

lemma settleAttempt_inv:
  assumes "store_inv s" and "settleAttempt uuid input s = Inr (a', s')"
  shows "store_inv s'"
  using assms
  by (auto simp: settleAttempt_def assertAttemptTransition_def intro: settle_writes_inv)

lemma readjudicate_writes_inv:
  assumes inv: "store_inv s" and att: "get_attempt s (ra_attemptId input) = Some a"
    and run: "get_run s (a_runId a) = Some r" "r_attempt r = a_ordinal a"
    and ok: "readjudicate_writes uuid input a c r d us s = Inr (res, s')"
  shows "store_inv s'"
proof -
  let ?t = "ra_timestamp input" and ?seq = "r_lastEventSeq r + 1"
  let ?g = "\<lambda>a. a\<lparr>a_status := A_completed, a_version := a_version a + 1, a_eventSequence := ?seq,
      a_updatedAt := ?t, a_completedAt := Some ?t\<rparr>"
  let ?f = "\<lambda>r. r\<lparr>r_status := Completed, r_phase := Ph_done, r_blockedReason := '''',
      r_lastEventSeq := ?seq, r_completedAt := Some ?t, r_updatedAt := ?t\<rparr>"
  from ok obtain s1 s2 s3 s6 s7 dt where
    s1: "insert_event \<lparr>e_runId = a_runId a, e_seq = ?seq, e_attemptId = a_id a, e_type = ''run.completed'',
       e_data = dt, e_createdAt = ?t\<rparr> s = Inr s1"
    and s2: "cas_attempt (a_id a) (a_version a) False A_blocked ?g
       (Thrown ''Blocked Attempt changed during Candidate re-adjudication'') s1 = Inr s2"
    and s3: "cas_run (a_runId a) Blocked (a_ordinal a) ?f
       (Thrown ''Blocked TaskRun changed during Candidate re-adjudication'') s2 = Inr s3"
    and s6: "readjudicate_side input c r s3 = Inr s6"
    and s7: "finalizeAttemptProjectionCheckpoint (a_runId a) (a_id a) (a_ordinal a) ?seq ?t s6 = Inr s7"
    and s8: "insert_audit (transition_row uuid a A_completed ''uncertainty_readjudication'' (ra_reason input)
       (a_version a + 1) ?seq ?t) s7 = Inr s'"
    unfolding readjudicate_writes_def Let_def by (simp only: and_then_Inr fetch_Inr) auto
  have aid: "a_id a = ra_attemptId input" using att by (auto dest: get_attempt_SomeD)
  show ?thesis
    by (rule settle_tail_inv [where f = ?f and g = ?g,
          OF inv att run insert_event_Inr [OF s1] _ _ s2 [unfolded aid] s3
            same_core_sides(2) [OF s6] s7 [unfolded aid] same_core_audit [OF s8]])
      simp_all
qed

lemma reAdjudicateBlockedCandidate_inv:
  assumes "store_inv s" and "reAdjudicateBlockedCandidate uuid input s = Inr (res, s')"
  shows "store_inv s'"
  using assms by (auto simp: reAdjudicateBlockedCandidate_def Let_def intro: readjudicate_writes_inv)

lemma recover_writes_inv:
  assumes inv: "store_inv s" and att: "get_attempt s (ri_attemptId input) = Some a"
    and run: "get_run s (a_runId a) = Some r" "r_attempt r = a_ordinal a"
    and ok: "recover_writes uuid input a r s = Inr (res, s')"
  shows "store_inv s'"
proof -
  let ?t = "ri_timestamp input" and ?seq = "r_lastEventSeq r + 1"
  let ?g = "\<lambda>a. a\<lparr>a_status := A_interrupted, a_active := False, a_version := a_version a + 1,
      a_eventSequence := ?seq, a_updatedAt := ?t, a_completedAt := None\<rparr>"
  let ?f = "\<lambda>r. r\<lparr>r_status := Interrupted, r_blockedReason := ri_reason input, r_lastEventSeq := ?seq,
      r_completedAt := None, r_updatedAt := ?t\<rparr>"
  from ok obtain s1 s2 s3 s6 s7 dt where
    s1: "append_event_at (a_runId a) ''run.interrupted'' dt (a_id a) ?seq ?t s = Inr s1"
    and s2: "cas_attempt (a_id a) (a_version a) True (a_status a) ?g
       (Thrown ''Attempt version changed during recovery'') s1 = Inr s2"
    and s3: "cas_run (a_runId a) Running (a_ordinal a) ?f
       (Thrown ''TaskRun changed during Attempt recovery'') s2 = Inr s3"
    and s6: "recover_side input a s3 = Inr s6"
    and s7: "finalizeAttemptProjectionCheckpoint (a_runId a) (a_id a) (a_ordinal a) ?seq ?t s6 = Inr s7"
    and s8: "recordTerminalAudit uuid a A_interrupted (ri_reason input) ?seq (a_version a + 1) ?t s7 = Inr s'"
    unfolding recover_writes_def Let_def by (simp only: and_then_Inr fetch_Inr) auto
  have aid: "a_id a = ri_attemptId input" using att by (auto dest: get_attempt_SomeD)
  show ?thesis
    by (rule settle_tail_inv [where f = ?f and g = ?g,
          OF inv att run append_event_at_Inr [OF s1] _ _ s2 [unfolded aid] s3 same_core_sides(3) [OF s6] s7 [unfolded aid]
            same_core_audit [OF s8 [unfolded recordTerminalAudit_def]]])
      simp_all
qed

lemma recoverInterruptedAttempt_inv:
  assumes "store_inv s" and "recoverInterruptedAttempt uuid input s = Inr (res, s')"
  shows "store_inv s'"
  using assms
  by (auto simp: recoverInterruptedAttempt_def assertAttemptTransition_def Let_def
      split: if_splits intro: recover_writes_inv)

lemma cancel_writes_inv:
  assumes inv: "store_inv s" and att: "get_attempt s aid = Some a"
    and run: "get_run s (a_runId a) = Some r" "r_attempt r = a_ordinal a"
    and ok: "cancel_writes uuid reason t a r s = Inr (res, s')"
  shows "store_inv s'"
proof -
  let ?seq = "r_lastEventSeq r + 1"
  let ?g = "\<lambda>a. a\<lparr>a_status := A_cancelled, a_active := False, a_version := a_version a + 1,
      a_eventSequence := ?seq, a_updatedAt := t, a_completedAt := Some t\<rparr>"
  let ?f = "\<lambda>r. r\<lparr>r_status := Cancelled, r_blockedReason := reason, r_lastEventSeq := ?seq,
      r_completedAt := Some t, r_updatedAt := t\<rparr>"
  from ok obtain s1 s2 s3 s7 dt where
    s1: "append_event_at (a_runId a) ''run.cancelled'' dt (a_id a) ?seq t s = Inr s1"
    and s2: "cas_attempt (a_id a) (a_version a) True (a_status a) ?g
       (Thrown ''Attempt version changed during cancellation'') s1 = Inr s2"
    and s3: "cas_run (a_runId a) Running (a_ordinal a) ?f
       (Thrown ''TaskRun changed during Attempt cancellation'') s2 = Inr s3"
    and s7: "finalizeAttemptProjectionCheckpoint (a_runId a) (a_id a) (a_ordinal a) ?seq t
       (cancel_side reason t a s3) = Inr s7"
    and s8: "recordTerminalAudit uuid a A_cancelled reason ?seq (a_version a + 1) t s7 = Inr s'"
    unfolding cancel_writes_def Let_def by (simp only: and_then_Inr fetch_Inr) auto
  have aid: "a_id a = aid" using att by (auto dest: get_attempt_SomeD)
  show ?thesis
    by (rule settle_tail_inv [where f = ?f and g = ?g,
          OF inv att run append_event_at_Inr [OF s1] _ _ s2 [unfolded aid] s3 same_core_sides(4) s7 [unfolded aid]
            same_core_audit [OF s8 [unfolded recordTerminalAudit_def]]])
      simp_all
qed

lemma cancelAttempt_inv:
  assumes "store_inv s" and "cancelAttempt uuid aid reason t s = Inr (res, s')"
  shows "store_inv s'"
  using assms
  by (auto simp: cancelAttempt_def assertAttemptTransition_def Let_def
      split: if_splits intro: cancel_writes_inv)

lemma recordCandidateResult_inv:
  assumes inv: "store_inv s" and ok: "recordCandidateResult sha uuid cid aid v tok fc resp t s = Inr (c, s')"
  shows "store_inv s'"
proof (cases "getCandidateForAttempt s aid")
  case (Some x)
  with ok inv show ?thesis by (auto simp: recordCandidateResult_def Let_def)
next
  case None
  let ?g = "\<lambda>a. a\<lparr>a_status := A_settling, a_version := a_version a + 1, a_updatedAt := t\<rparr>"
  from ok None obtain a s1 x au where att: "get_attempt s aid = Some a"
    and can: "canTransitionAttempt (a_status a) A_settling"
    and s1: "cas_attempt (a_id a) (a_version a) True A_running ?g
       (Thrown ''Attempt version changed before candidate settlement'') s = Inr s1"
    and s3: "insert_audit au (insert_or_ignore_candidate x s1) = Inr s'"
    by (auto simp: recordCandidateResult_def assertAttemptTransition_def Let_def)
  have aid: "a_id a = aid" using att by (auto dest: get_attempt_SomeD)
  have da: "distinct (map a_id (db_attempts s))"
    using inv by (simp add: store_inv_def coherent_def attempts_ok_def)
  note c1 = cas_attempt_Inr [OF s1 [unfolded aid] att da]
  have core: "same_core s' s1"
    using s3 by (auto simp: insert_or_ignore_candidate_def same_core_def dest!: insert_audit_Inr)
  have "a \<in> set (db_attempts s)" using att by (auto dest: get_attempt_SomeD)
  then obtain r where r: "get_run s (a_runId a) = Some r" "a_ordinal a \<le> r_attempt r"
    "a_ordinal a < r_attempt r \<longrightarrow> \<not> a_active a"
    using inv get_run_mem [OF store_inv_distinct [OF inv]]
    unfolding store_inv_def coherent_def attempt_placed_def by metis
  with c1(3) have current: "r_attempt r = a_ordinal a" by auto
  obtain b where b: "get_attempt s (attemptId (a_runId a) (r_attempt r)) = Some b"
    and agr: "status_agrees (r_status r) (a_status b)"
    using inv r(1) by (auto simp: store_inv_def elim: coherent_current)
  have "a_id a = attemptId (a_runId a) (a_ordinal a)"
    using inv \<open>a \<in> set (db_attempts s)\<close> by (auto simp: store_inv_def coherent_def attempt_placed_def)
  with b current att aid have "b = a" by simp
  with agr c1(3) have running: "r_status r = Running" by (cases "r_status r") auto
  have "store_inv s1"
    by (rule store_inv_settle [where f = "\<lambda>x. x" and g = ?g and new = "[]", OF inv att r(1) current])
      (use c1 running in \<open>simp_all add: upd_id\<close>)
  with same_core_inv [OF core] show ?thesis by simp
qed

text \<open>The fence an Attempt's lease row holds, \<open>0\<close> when it never had a lease.\<close>

definition fence_of :: "db \<Rightarrow> string \<Rightarrow> int" where
  "fence_of s aid = (case get_lease s aid of None \<Rightarrow> 0 | Some l \<Rightarrow> l_fence l)"

lemma acquire_Inr:
  assumes "acquireExecutionLease uuid aid v ow ms t s = Inr (l, s')"
  obtains a where "get_attempt s aid = Some a" "a_version a = v" "a_active a" "a_status a = A_running"
    "0 < ms" "js_trim ow \<noteq> ''''"
    "\<forall>p. get_lease s aid = Some p \<longrightarrow> l_releasedAt p \<noteq> None \<or> l_leaseUntil p \<le> t"
    "l = \<lparr>l_attemptId = aid, l_ownerId = ow, l_token = uuid, l_fence = fence_of s aid + 1,
          l_attemptVersion = v, l_leaseUntil = t + ms, l_heartbeatAt = t, l_releasedAt = None\<rparr>"
    "upsert_lease l s = Inr s'"
proof -
  from assms obtain a where "get_attempt s aid = Some a" "a_version a = v" "a_active a" "a_status a = A_running"
    "0 < ms" "js_trim ow \<noteq> ''''"
    "\<not> (case get_lease s aid of None \<Rightarrow> False | Some p \<Rightarrow> l_releasedAt p = None \<and> t < l_leaseUntil p)"
    "l = \<lparr>l_attemptId = a_id a, l_ownerId = ow, l_token = uuid, l_fence = fence_of s aid + 1,
          l_attemptVersion = a_version a, l_leaseUntil = t + ms, l_heartbeatAt = t, l_releasedAt = None\<rparr>"
    "upsert_lease l s = Inr s'"
    unfolding acquireExecutionLease_def Let_def fence_of_def
    by (simp only: require_Inr fetch_Inr and_then_Inr) auto
  moreover from this(1) have "a_id a = aid" by (auto dest: get_attempt_SomeD)
  ultimately show ?thesis by (intro that) (auto split: option.splits)
qed

lemma upsert_lease_core: "upsert_lease l s = Inr s' \<Longrightarrow> same_core s' s"
  by (auto simp: upsert_lease_def same_core_def split: option.splits)

lemma acquireExecutionLease_inv:
  "store_inv s \<Longrightarrow> acquireExecutionLease uuid aid v ow ms t s = Inr (l, s') \<Longrightarrow> store_inv s'"
  by (rule same_core_inv [THEN iffD2]) (auto elim!: acquire_Inr dest: upsert_lease_core)

lemma renewExecutionLease_inv:
  "store_inv s \<Longrightarrow> renewExecutionLease aid ow tok fc ms t s = Inr (l, s') \<Longrightarrow> store_inv s'"
  by (rule same_core_inv [THEN iffD2], unfold renewExecutionLease_def Let_def) auto

lemma releaseExecutionLease_inv: "store_inv s \<Longrightarrow> store_inv (snd (releaseExecutionLease aid ow tok fc t s))"
  by (rule same_core_inv [THEN iffD2, of _ s]) (simp_all add: releaseExecutionLease_def)

end
