(* ===== verification/Attempt_Settlement.thy ===== *)
theory Attempt_Settlement
  imports Attempt_Repository
begin

text \<open>
  What leases, candidates and settlements guarantee: fences only grow and a superseded
  holder is refused everywhere, recording a candidate is idempotent, and a settlement
  closes the run, the Attempt, the candidate, the lease and the decision together, once.
\<close>

section \<open>Keys of the side tables\<close>

definition side_inv :: "db \<Rightarrow> bool" where
  "side_inv s =
     (distinct (map l_attemptId (db_leases s)) \<and> (\<forall>n \<in> set (map l_fence (db_leases s)). 0 < n)
      \<and> distinct (map c_id (db_candidates s)) \<and> distinct (map c_attemptId (db_candidates s))
      \<and> distinct (map d_id (db_decisions s)))"

lemma side_inv_cong:
  assumes "map l_attemptId (db_leases s') = map l_attemptId (db_leases s)"
    "map l_fence (db_leases s') = map l_fence (db_leases s)"
    "map c_id (db_candidates s') = map c_id (db_candidates s)"
    "map c_attemptId (db_candidates s') = map c_attemptId (db_candidates s)"
    "map d_id (db_decisions s') = map d_id (db_decisions s)"
  shows "side_inv s' = side_inv s"
  unfolding side_inv_def assms ..

text \<open>The keys, fences and statuses the side writes leave alone.\<close>

lemma side_writes [simp]:
  "db_leases (set_candidate P1 f1 s) = db_leases s" "db_decisions (set_candidate P1 f1 s) = db_decisions s"
  "db_candidates (set_candidate P1 f1 s) = upd P1 f1 (db_candidates s)"
  "db_candidates (set_lease aid P2 f2 s) = db_candidates s" "db_decisions (set_lease aid P2 f2 s) = db_decisions s"
  "db_leases (set_lease aid P2 f2 s) = upd (\<lambda>l. l_attemptId l = aid \<and> P2 l) f2 (db_leases s)"
  "db_candidates (set_decision P3 f3 s) = db_candidates s" "db_leases (set_decision P3 f3 s) = db_leases s"
  "db_decisions (set_decision P3 f3 s) = upd P3 f3 (db_decisions s)"
  "db_leases (deliver_message sid m t s) = db_leases s" "db_candidates (deliver_message sid m t s) = db_candidates s"
  "db_decisions (deliver_message sid m t s) = db_decisions s"
  "db_messages (set_candidate P1 f1 s) = db_messages s" "db_messages (set_lease aid P2 f2 s) = db_messages s"
  "db_messages (set_decision P3 f3 s) = db_messages s"
  "db_messages (deliver_message sid m t s) = db_messages s @
     [\<lparr>m_sessionId = sid, m_role = ''assistant'', m_content = m, m_createdAt = t\<rparr>]"
  by (simp_all add: set_candidate_def set_lease_def set_decision_def deliver_message_def)

section \<open>Fences\<close>

lemma get_lease_append:
  "get_lease s aid = None \<Longrightarrow> l_attemptId l = aid \<Longrightarrow> get_lease (s\<lparr>db_leases := db_leases s @ [l]\<rparr>) aid = Some l"
  by (simp add: get_lease_def find_append)

lemma upsert_lease_get:
  assumes "upsert_lease l s = Inr s'"
  shows "get_lease s' aid = (if aid = l_attemptId l then Some l else get_lease s aid)"
proof (cases "get_lease s (l_attemptId l)")
  case None
  with assms have "s' = s\<lparr>db_leases := db_leases s @ [l]\<rparr>" by (auto simp: upsert_lease_def)
  with None show ?thesis by (auto simp: get_lease_def find_append split: option.splits)
next
  case (Some p)
  with assms have s': "s' = s\<lparr>db_leases := upd (\<lambda>x. l_attemptId x = l_attemptId l) (\<lambda>_. l) (db_leases s)\<rparr>"
    by (auto simp: upsert_lease_def)
  have "find (\<lambda>x. l_attemptId x = aid) (upd (\<lambda>x. l_attemptId x = l_attemptId l) (\<lambda>_. l) ls) =
      (if aid = l_attemptId l then map_option (\<lambda>_. l) (find (\<lambda>x. l_attemptId x = aid) ls)
       else find (\<lambda>x. l_attemptId x = aid) ls)" for ls
    by (induction ls) auto
  with Some show ?thesis by (simp add: s' get_lease_def)
qed

lemma upsert_lease_side:
  assumes "side_inv s" and "upsert_lease l s = Inr s'"
  shows "side_inv s'"
proof (cases "get_lease s (l_attemptId l)")
  case None
  with assms(2) have "s' = s\<lparr>db_leases := db_leases s @ [l]\<rparr>" "0 < l_fence l" by (auto simp: upsert_lease_def)
  with None assms(1) show ?thesis by (simp add: side_inv_def get_lease_def find_None_key)
next
  case (Some p)
  with assms have s': "s' = s\<lparr>db_leases := upd (\<lambda>x. l_attemptId x = l_attemptId l) (\<lambda>_. l) (db_leases s)\<rparr>"
    and pos: "0 < l_fence l" by (auto simp: upsert_lease_def)
  have "map l_attemptId (upd (\<lambda>x. l_attemptId x = l_attemptId l) (\<lambda>_. l) ls) = map l_attemptId ls" for ls
    by (induction ls) auto
  moreover have "\<forall>n \<in> l_fence ` set (upd (\<lambda>x. l_attemptId x = l_attemptId l) (\<lambda>_. l) (db_leases s)). 0 < n"
    using assms(1) pos by (auto simp: side_inv_def set_upd)
  ultimately show ?thesis using assms(1) by (simp add: s' side_inv_def)
qed

lemma fence_of_acquire:
  assumes "acquireExecutionLease uuid aid v ow ms t s = Inr (l, s')"
  shows "fence_of s' x = (if x = aid then fence_of s aid + 1 else fence_of s x)"
  using assms by (auto elim!: acquire_Inr simp: fence_of_def upsert_lease_get)

lemma requireLease_Inr:
  "requireLease aid tok fc t ow s = Inr l \<longleftrightarrow>
   get_lease s aid = Some l \<and> l_token l = tok \<and> l_fence l = fc \<and> l_releasedAt l = None \<and> t < l_leaseUntil l
   \<and> (\<forall>x. ow = Some x \<longrightarrow> l_ownerId l = x)"
  by (auto simp: requireLease_def split: option.splits)

lemma requireLease_fence: "requireLease aid tok fc t ow s = Inr l \<Longrightarrow> fence_of s aid = fc"
  by (simp add: requireLease_Inr fence_of_def)

text \<open>Every fenced operation refuses a fence that is not the current one.\<close>

lemma renew_fenced: "renewExecutionLease aid ow tok fc ms t s = Inr res \<Longrightarrow> fence_of s aid = fc"
  by (auto simp: renewExecutionLease_def dest: requireLease_fence)

lemma record_fenced: "recordCandidateResult sha uuid cid aid v tok fc resp t s = Inr res \<Longrightarrow> fence_of s aid = fc"
  by (auto simp: recordCandidateResult_def Let_def dest: requireLease_fence split: option.splits)

lemma settle_fenced: "settleAttempt uuid input s = Inr res \<Longrightarrow> fence_of s (si_attemptId input) = si_fence input"
  by (auto simp: settleAttempt_def assertAttemptTransition_def dest: requireLease_fence)

lemma recover_fenced:
  "recoverInterruptedAttempt uuid input s = Inr res \<Longrightarrow> fence_of s (ri_attemptId input) = ri_fence input"
  by (auto simp: recoverInterruptedAttempt_def fence_of_def)

section \<open>The effect of a settlement\<close>

definition settled_attempt :: "settle_input \<Rightarrow> int \<Rightarrow> attempt \<Rightarrow> attempt" where
  "settled_attempt input eventSeq a =
     a\<lparr>a_status := term_attempt (si_status input), a_active := False, a_version := a_version a + 1,
       a_eventSequence := eventSeq, a_updatedAt := si_timestamp input,
       a_completedAt := Some (si_timestamp input)\<rparr>"

definition settled_run :: "settle_input \<Rightarrow> int \<Rightarrow> task_run \<Rightarrow> task_run" where
  "settled_run input eventSeq r =
     r\<lparr>r_status := term_run (si_status input), r_phase := terminal_phase (term_run (si_status input)) (r_phase r),
       r_blockedReason := si_reason input, r_lastEventSeq := eventSeq,
       r_completedAt := terminal_time (term_run (si_status input)) (si_timestamp input),
       r_updatedAt := si_timestamp input\<rparr>"

lemma settle_writes_state:
  assumes inv: "store_inv s" and att: "get_attempt s aid = Some a" and run: "get_run s (a_runId a) = Some r"
    and ok: "settle_writes uuid input a c r d s = Inr (a', s')"
  obtains es q cs au where
    "s' = (settle_side input a c r (s\<lparr>db_events := es,
        db_attempts := upd (\<lambda>x. a_id x = aid) (settled_attempt input q) (db_attempts s),
        db_runs := upd (\<lambda>x. r_id x = a_runId a) (settled_run input q) (db_runs s)\<rparr>))\<lparr>db_checkpoints := cs, db_audit := au\<rparr>"
    and "get_attempt s' aid = Some a'"
proof -
  let ?st = "si_status input" and ?t = "si_timestamp input"
  let ?seq = "if ?st = Term_blocked then r_lastEventSeq r + 1 + 1 else r_lastEventSeq r + 1"
  have aid: "a_id a = aid" using att by (auto dest: get_attempt_SomeD)
  from ok obtain s1 s2 s3 s4 s9 au e1 d2 where
    s1: "(if ?st = Term_blocked then append_event_at (a_runId a) ''message.rejected'' e1 (a_id a)
           (r_lastEventSeq r + 1) ?t s else Inr s) = Inr s1"
    and s2: "append_event_at (a_runId a) (term_event ?st) d2 (a_id a) ?seq ?t s1 = Inr s2"
    and s3: "cas_attempt (a_id a) (a_version a) True A_settling (settled_attempt input ?seq)
       (Thrown ''Attempt version changed during settlement'') s2 = Inr s3"
    and s4: "cas_run (a_runId a) Running (a_ordinal a) (settled_run input ?seq)
       (Thrown ''TaskRun changed during Attempt settlement'') s3 = Inr s4"
    and s9: "finalizeAttemptProjectionCheckpoint (a_runId a) (a_id a) (a_ordinal a) ?seq ?t
       (settle_side input a c r s4) = Inr s9"
    and s10: "insert_audit au s9 = Inr s'" and res: "get_attempt s' (a_id a) = Some a'"
    unfolding settle_writes_def settled_attempt_def settled_run_def Let_def
    by (simp only: and_then_Inr fetch_Inr) auto
  obtain es where es: "s2 = s\<lparr>db_events := es\<rparr>"
    using s1 append_event_at_Inr [OF s2] by (auto split: if_splits dest!: append_event_at_Inr)
  note core = settle_core(1) [OF inv att run es s3 [unfolded aid] s4]
  obtain cs where cs: "s9 = (settle_side input a c r s4)\<lparr>db_checkpoints := cs\<rparr>"
    using s9 by (rule finalize_Inr)
  show ?thesis
    by (rule that [where es = es and q = ?seq and cs = cs and au = "db_audit s9 @ [au]"])
      (use res in \<open>simp_all add: insert_audit_Inr [OF s10] cs core aid\<close>)
qed

lemma settle_Inr:
  assumes "settleAttempt uuid input s = Inr (a', s')"
  obtains a l c r d where "get_attempt s (si_attemptId input) = Some a"
    "a_version a = si_expectedVersion input" "a_active a" "a_status a = A_settling"
    "requireLease (si_attemptId input) (si_leaseToken input) (si_fence input) (si_timestamp input) None s = Inr l"
    "getCandidate s (si_candidateResultId input) = Some c" "c_attemptId c = a_id a" "c_status c = Cand_proposed"
    "get_run s (a_runId a) = Some r" "r_attempt r = a_ordinal a" "r_status r = Running"
    "get_decision s (si_supervisorDecisionId input) = Some d" "d_runId d = a_runId a" "d_attempt d = a_ordinal a"
    "d_status d = Dec_proposed" "si_status input = Term_completed \<longrightarrow> d_action d = Act_complete_taskrun"
    "settle_writes uuid input a c r d s = Inr (a', s')"
  using assms by (auto simp: settleAttempt_def assertAttemptTransition_def intro: that)

lemma find_key_upd_guarded:
  assumes "distinct (map k t)" "find (\<lambda>r. k r = x) t = Some r" "Q r" "k (f r) = x"
  shows "find (\<lambda>r. k r = x) (upd (\<lambda>r. k r = x \<and> Q r) f t) = Some (f r)"
  using assms(1,2) by (induction t) (use assms(3,4) in \<open>auto split: if_splits\<close>)

lemma find_key_upd_Some:
  assumes "find (\<lambda>r. k r = x) t = Some r" and "k (f r) = x"
  shows "find (\<lambda>r. k r = x) (upd (\<lambda>r. k r = x) f t) = Some (f r)"
  using assms(1) by (induction t) (use assms(2) in \<open>auto split: if_splits\<close>)

lemma settle_effect:
  assumes inv: "store_inv s" and side: "side_inv s" and ok: "settleAttempt uuid input s = Inr (a', s')"
  shows "get_attempt s' (si_attemptId input) = Some a'"
    and "a_status a' = term_attempt (si_status input)" and "\<not> a_active a'"
    and "a_version a' = si_expectedVersion input + 1"
    and "\<exists>r'. get_run s' (a_runId a') = Some r' \<and> r_status r' = term_run (si_status input)
           \<and> r_attempt r' = a_ordinal a'"
    and "\<exists>l. get_lease s' (si_attemptId input) = Some l \<and> l_fence l = si_fence input
           \<and> l_releasedAt l = Some (si_timestamp input)"
    and "\<exists>c. getCandidate s' (si_candidateResultId input) = Some c \<and> c_attemptId c = si_attemptId input
           \<and> c_status c = (if si_status input = Term_completed then Cand_accepted else Cand_rejected)"
    and "\<exists>d. get_decision s' (si_supervisorDecisionId input) = Some d \<and> d_status d = Dec_executed
           \<and> d_runId d = a_runId a' \<and> d_attempt d = a_ordinal a'
           \<and> (si_status input = Term_completed \<longrightarrow> d_action d = Act_complete_taskrun)"
proof -
  from ok obtain a l c r d where att: "get_attempt s (si_attemptId input) = Some a"
    and v: "a_version a = si_expectedVersion input"
    and l: "requireLease (si_attemptId input) (si_leaseToken input) (si_fence input) (si_timestamp input) None s = Inr l"
    and c: "getCandidate s (si_candidateResultId input) = Some c" "c_attemptId c = a_id a" "c_status c = Cand_proposed"
    and r: "get_run s (a_runId a) = Some r" "r_attempt r = a_ordinal a"
    and d: "get_decision s (si_supervisorDecisionId input) = Some d" "d_runId d = a_runId a"
      "d_attempt d = a_ordinal a" "d_status d = Dec_proposed"
      "si_status input = Term_completed \<longrightarrow> d_action d = Act_complete_taskrun"
    and w: "settle_writes uuid input a c r d s = Inr (a', s')"
    by (rule settle_Inr)
  have aid: "a_id a = si_attemptId input" using att by (auto dest: get_attempt_SomeD)
  have cid: "c_id c = si_candidateResultId input" using c by (auto simp: getCandidate_def dest: find_SomeD)
  have rid: "r_id r = a_runId a" using r by (auto dest: get_run_SomeD)
  have did: "d_id d = si_supervisorDecisionId input" using d by (auto simp: get_decision_def dest: find_SomeD)
  have lid: "get_lease s (si_attemptId input) = Some l" "l_token l = si_leaseToken input" "l_fence l = si_fence input"
    "l_attemptId l = si_attemptId input"
    using l by (auto simp: requireLease_Inr get_lease_def dest: find_SomeD)
  obtain es q cs au where s': "s' = (settle_side input a c r (s\<lparr>db_events := es,
        db_attempts := upd (\<lambda>x. a_id x = si_attemptId input) (settled_attempt input q) (db_attempts s),
        db_runs := upd (\<lambda>x. r_id x = a_runId a) (settled_run input q) (db_runs s)\<rparr>))\<lparr>db_checkpoints := cs, db_audit := au\<rparr>"
    and res: "get_attempt s' (si_attemptId input) = Some a'"
    using inv att r(1) w by (rule settle_writes_state)
  note core = same_core_sides(1) [unfolded same_core_def]
  show "get_attempt s' (si_attemptId input) = Some a'" by (rule res)
  have "get_attempt s' (si_attemptId input) = Some (settled_attempt input q a)"
    using att aid core by (simp add: get_attempt_def s' find_key_upd_Some settled_attempt_def)
  with res have a': "a' = settled_attempt input q a" by simp
  show "a_status a' = term_attempt (si_status input)" "\<not> a_active a'"
    "a_version a' = si_expectedVersion input + 1"
    using v by (simp_all add: a' settled_attempt_def)
  have "get_run s' (a_runId a) = Some (settled_run input q r)"
    using r(1) rid core by (simp add: get_run_def s' find_key_upd_Some settled_run_def)
  then show "\<exists>r'. get_run s' (a_runId a') = Some r' \<and> r_status r' = term_run (si_status input)
      \<and> r_attempt r' = a_ordinal a'"
    using r(2) by (simp add: a' settled_attempt_def settled_run_def)
  show "\<exists>l. get_lease s' (si_attemptId input) = Some l \<and> l_fence l = si_fence input
      \<and> l_releasedAt l = Some (si_timestamp input)"
    using lid side
    by (simp add: s' get_lease_def settle_side_def Let_def side_inv_def aid find_key_upd_guarded)
  show "\<exists>c. getCandidate s' (si_candidateResultId input) = Some c \<and> c_attemptId c = si_attemptId input
      \<and> c_status c = (if si_status input = Term_completed then Cand_accepted else Cand_rejected)"
    using c side aid by (simp add: s' getCandidate_def settle_side_def Let_def side_inv_def cid find_key_upd_guarded)
  show "\<exists>d. get_decision s' (si_supervisorDecisionId input) = Some d \<and> d_status d = Dec_executed
      \<and> d_runId d = a_runId a' \<and> d_attempt d = a_ordinal a'
      \<and> (si_status input = Term_completed \<longrightarrow> d_action d = Act_complete_taskrun)"
    using d side did
    by (simp add: s' get_decision_def settle_side_def Let_def side_inv_def a' settled_attempt_def find_key_upd_guarded)
qed

text \<open>An Attempt that is not settling refuses a settlement.\<close>

lemma settle_needs_settling:
  "get_attempt s (si_attemptId input) = Some a \<Longrightarrow> a_status a \<noteq> A_settling \<Longrightarrow>
   \<exists>e. settleAttempt uuid input s = Inl e"
  by (cases "settleAttempt uuid input s") (auto elim!: settle_Inr)

end
