(* ===== verification/Task_Run_Transitions.thy ===== *)
theory Task_Run_Transitions
  imports Attempt_Settlement Canonical_Json
begin

text \<open>
  The closed transition authority of a TaskRun: the execution fence a runtime must hold
  (\<open>sqlite/task-run-execution-fence.ts\<close>) and the commands and authorities of
  \<open>packages/execution/src/ports/task-run-transition-port.ts\<close> as
  \<open>sqlite/task-run-transition-repository.ts\<close> validates and executes them. Commands arrive
  as untyped values and are validated into the datatypes below. Both entry points run
  inside the caller's writer transaction, so \<open>db.inTransaction\<close> holds.
\<close>

section \<open>Input assertions\<close>

definition assertNonEmpty :: "jsval option \<Rightarrow> (string \<Rightarrow> store_error + 'a) \<Rightarrow> store_error + 'a" where
  "assertNonEmpty v k =
     (case v of Some (JStr s) \<Rightarrow>
        require (s \<noteq> [] \<and> nul \<notin> set s) (Type_error ''must be a non-empty string without NUL bytes'') (k s)
      | _ \<Rightarrow> Inl (Type_error ''must be a non-empty string without NUL bytes''))"

definition assertStringWithoutNul :: "jsval option \<Rightarrow> (string \<Rightarrow> store_error + 'a) \<Rightarrow> store_error + 'a" where
  "assertStringWithoutNul v k =
     (case v of Some (JStr s) \<Rightarrow>
        require (nul \<notin> set s) (Type_error ''must be a string without NUL bytes'') (k s)
      | _ \<Rightarrow> Inl (Type_error ''must be a string without NUL bytes''))"

definition assertPositiveInteger :: "jsval option \<Rightarrow> (int \<Rightarrow> store_error + 'a) \<Rightarrow> store_error + 'a" where
  "assertPositiveInteger v k =
     (case v of Some (JNum (JInt n)) \<Rightarrow>
        require (safe_integer n \<and> 0 < n) (Type_error ''must be a positive safe integer'') (k n)
      | _ \<Rightarrow> Inl (Type_error ''must be a positive safe integer''))"

definition asRecord :: "jsval \<Rightarrow> ((string \<times> jsval) list \<Rightarrow> store_error + 'a) \<Rightarrow> store_error + 'a" where
  "asRecord v k = (case v of JObj kvs \<Rightarrow> k kvs | _ \<Rightarrow> Inl (Type_error ''must be an object''))"

definition assertExactKeys :: "(string \<times> jsval) list \<Rightarrow> string list \<Rightarrow> store_error + 'a \<Rightarrow> store_error + 'a" where
  "assertExactKeys kvs expected k =
     require (sort (map fst kvs) = sort expected) (Type_error ''must contain exactly'') k"

text \<open>
  \<open>JSON.parse(stableJson(record))\<close> reads back the normalized value: canonical text lists
  keys in enumeration order.
\<close>

definition canonicalData :: "jsval option \<Rightarrow> (jsval \<Rightarrow> store_error + 'a) \<Rightarrow> store_error + 'a" where
  "canonicalData v k =
     (case v of
        None \<Rightarrow> Inl (Type_error ''must be an object'')
      | Some d \<Rightarrow> asRecord d (\<lambda>_.
          case normalizeCanonicalJson d of
            Inl e \<Rightarrow> Inl (Type_error ''must contain canonical JSON'')
          | Inr w \<Rightarrow> k w))"

section \<open>The execution fence\<close>

record execution_fence =
  xf_attemptId :: string
  xf_expectedVersion :: int
  xf_leaseToken :: string
  xf_executionFence :: int

record execution_scope =
  xs_attemptId :: string
  xs_runId :: string
  xs_ordinal :: int
  xs_sessionId :: string
  xs_attemptVersion :: int
  xs_timestamp :: int

definition validateInput :: "execution_fence \<Rightarrow> store_error + 'a \<Rightarrow> store_error + 'a" where
  "validateInput fence k =
     require (xf_attemptId fence \<noteq> [] \<and> nul \<notin> set (xf_attemptId fence))
       (Type_error ''attemptId must be a non-empty string without NUL bytes'')
    (require (xf_leaseToken fence \<noteq> [] \<and> nul \<notin> set (xf_leaseToken fence))
       (Type_error ''leaseToken must be a non-empty string without NUL bytes'')
    (require (safe_integer (xf_expectedVersion fence) \<and> 0 < xf_expectedVersion fence)
       (Type_error ''expectedVersion must be a positive safe integer'')
    (require (safe_integer (xf_executionFence fence) \<and> 0 < xf_executionFence fence)
       (Type_error ''executionFence must be a positive safe integer'') k)))"

text \<open>\<open>dbNow\<close> is the database clock of the transaction.\<close>

definition validate :: "int \<Rightarrow> execution_fence \<Rightarrow> db \<Rightarrow> store_error + execution_scope" where
  "validate dbNow fence s =
     validateInput fence
    (require (safe_integer dbNow) (Thrown ''TaskRun execution fence database clock is invalid'')
    (fetch (get_attempt s (xf_attemptId fence)) (Thrown ''Attempt does not exist'') (\<lambda>attempt.
     require (a_version attempt = xf_expectedVersion fence) (Thrown ''Attempt version mismatch'')
    (require (a_active attempt \<and> a_status attempt = A_running) (Thrown ''Attempt is not active and running'')
    (fetch (get_lease s (xf_attemptId fence)) (Thrown ''Execution lease does not exist'') (\<lambda>lease.
     require (l_token lease = xf_leaseToken fence) (Thrown ''Execution lease token mismatch'')
    (require (l_fence lease = xf_executionFence fence) (Thrown ''Execution lease fence mismatch'')
    (require (l_attemptVersion lease = a_version attempt) (Thrown ''Execution lease Attempt version mismatch'')
    (require (l_releasedAt lease = None \<and> dbNow < l_leaseUntil lease)
       (Thrown ''Execution lease is released or expired'')
    (fetch (get_run s (a_runId attempt)) (Thrown ''TaskRun projection is stale'') (\<lambda>run.
     require (r_status run = Running \<and> r_attempt run = a_ordinal attempt)
       (Thrown ''TaskRun projection is stale'')
       (Inr \<lparr>xs_attemptId = xf_attemptId fence, xs_runId = a_runId attempt, xs_ordinal = a_ordinal attempt,
             xs_sessionId = r_sessionId run, xs_attemptVersion = a_version attempt,
             xs_timestamp = dbNow\<rparr>))))))))))))"

section \<open>Runtime commands\<close>

datatype runtime_kind = RT_complete | RT_block | RT_fail

record runtime_command =
  rt_kind :: runtime_kind
  rt_reason :: string
  rt_data :: jsval
  rt_preceding :: "jsval list"

fun RUNTIME_TRANSITIONS :: "runtime_kind \<Rightarrow> run_status \<times> string" where
  "RUNTIME_TRANSITIONS RT_complete = (Completed, ''run.completed'')"
| "RUNTIME_TRANSITIONS RT_block = (Blocked, ''run.blocked'')"
| "RUNTIME_TRANSITIONS RT_fail = (Failed, ''run.failed'')"

definition js_get :: "(string \<times> jsval) list \<Rightarrow> string \<Rightarrow> jsval option" where
  "js_get kvs k = (case map_of kvs k of Some JUndefined \<Rightarrow> None | v \<Rightarrow> v)"

definition preceding_event :: "jsval \<Rightarrow> store_error + jsval" where
  "preceding_event v =
     asRecord v (\<lambda>kvs.
     assertExactKeys kvs [''kind'', ''data'']
    (require (js_get kvs ''kind'' = Some (JStr ''message_rejected''))
       (Type_error ''precedingEvents.kind is not allowlisted'')
       (canonicalData (js_get kvs ''data'') Inr)))"

fun preceding_events :: "jsval list \<Rightarrow> store_error + jsval list" where
  "preceding_events [] = Inr []"
| "preceding_events (v # vs) =
     and_then (preceding_event v) (\<lambda>d. and_then (preceding_events vs) (\<lambda>ds. Inr (d # ds)))"

definition validateRuntimeCommand :: "jsval \<Rightarrow> store_error + runtime_command" where
  "validateRuntimeCommand command =
     asRecord command (\<lambda>kvs.
       let finish = (\<lambda>kind reason.
             canonicalData (js_get kvs ''data'') (\<lambda>data.
             if kind \<noteq> RT_block then
               Inr \<lparr>rt_kind = kind, rt_reason = reason, rt_data = data, rt_preceding = []\<rparr>
             else case js_get kvs ''precedingEvents'' of
                    None \<Rightarrow> Inr \<lparr>rt_kind = kind, rt_reason = reason, rt_data = data, rt_preceding = []\<rparr>
                  | Some (JArr vs) \<Rightarrow>
                      and_then (preceding_events vs) (\<lambda>ds.
                        Inr \<lparr>rt_kind = kind, rt_reason = reason, rt_data = data, rt_preceding = ds\<rparr>)
                  | Some _ \<Rightarrow> Inl (Type_error ''precedingEvents must be an array'')))
       in if js_get kvs ''kind'' = Some (JStr ''complete'') then
            assertExactKeys kvs [''kind'', ''reason'', ''data'']
              (assertStringWithoutNul (js_get kvs ''reason'') (finish RT_complete))
          else if js_get kvs ''kind'' = Some (JStr ''fail'') then
            assertExactKeys kvs [''kind'', ''reason'', ''data'']
              (assertNonEmpty (js_get kvs ''reason'') (finish RT_fail))
          else if js_get kvs ''kind'' = Some (JStr ''block'') then
            assertExactKeys kvs
              (if js_get kvs ''precedingEvents'' = None then [''kind'', ''reason'', ''data'']
               else [''kind'', ''reason'', ''data'', ''precedingEvents''])
              (assertNonEmpty (js_get kvs ''reason'') (finish RT_block))
          else Inl (Type_error ''RuntimeTransitionCommand.kind is not allowlisted''))"

section \<open>Outcomes\<close>

record transition_outcome =
  to_runId :: string
  to_sourceAttemptId :: string
  to_sourceOrdinal :: int
  to_targetAttemptId :: string
  to_targetOrdinal :: int
  to_fromStatus :: run_status
  to_toStatus :: run_status
  to_precedingEvents :: "run_event list"
  to_event :: "run_event option"

text \<open>An outcome that stays on its Attempt.\<close>

definition same_attempt_outcome ::
  "string \<Rightarrow> string \<Rightarrow> int \<Rightarrow> run_status \<Rightarrow> run_status \<Rightarrow> run_event list \<Rightarrow> run_event option \<Rightarrow> transition_outcome" where
  "same_attempt_outcome runId aid ordinal from to preceding event =
     \<lparr>to_runId = runId, to_sourceAttemptId = aid, to_sourceOrdinal = ordinal, to_targetAttemptId = aid,
      to_targetOrdinal = ordinal, to_fromStatus = from, to_toStatus = to,
      to_precedingEvents = preceding, to_event = event\<rparr>"

definition terminalOutcome ::
  "execution_scope \<Rightarrow> run_status \<Rightarrow> run_event \<Rightarrow> run_event list \<Rightarrow> transition_outcome" where
  "terminalOutcome scope status event preceding =
     same_attempt_outcome (xs_runId scope) (xs_attemptId scope) (xs_ordinal scope) Running status
       preceding (Some event)"

fun append_rejections :: "string \<Rightarrow> int \<Rightarrow> jsval list \<Rightarrow> db \<Rightarrow> store_error + run_event list \<times> db" where
  "append_rejections runId t [] s = Inr ([], s)"
| "append_rejections runId t (d # ds) s =
     and_then (appendEvent runId ''message.rejected'' d t s) (\<lambda>(e, s1).
     and_then (append_rejections runId t ds s1) (\<lambda>(es, s2). Inr (e # es, s2)))"

text \<open>\<open>now\<close> is \<open>Date.now()\<close>, \<open>dbNow\<close> the database clock, \<open>uuid\<close> the audit row's identifier.\<close>

definition transitionRuntime ::
  "string \<Rightarrow> int \<Rightarrow> int \<Rightarrow> jsval \<Rightarrow> execution_fence \<Rightarrow> db \<Rightarrow> store_error + transition_outcome list \<times> db" where
  "transitionRuntime uuid now dbNow command fence s =
     and_then (validateRuntimeCommand command) (\<lambda>normalized.
     and_then (validate dbNow fence s) (\<lambda>scope.
     let (status, eventType) = RUNTIME_TRANSITIONS (rt_kind normalized)
     in and_then (if rt_kind normalized = RT_block
                  then append_rejections (xs_runId scope) now (rt_preceding normalized) s
                  else Inr ([], s)) (\<lambda>(precedingEvents, s1).
        and_then (transitionRun uuid now (xs_runId scope) [Running] status eventType
            (rt_data normalized) (rt_reason normalized) (Some (xs_ordinal scope)) s1) (\<lambda>(event, s2).
        fetch event (Thrown ''TaskRun transition lost its compare-and-set'') (\<lambda>ev.
        Inr ([terminalOutcome scope status ev precedingEvents], s2))))))"

section \<open>System commands and authorities\<close>

datatype system_command =
    SC_admission_launch_failed string int string string bool
    \<comment> \<open>attemptId, expectedVersion, inboxItemId, error, retryable\<close>
  | SC_require_external_approval string int string string
    \<comment> \<open>attemptId, expectedVersion, approvalId, reason\<close>
  | SC_resume_preparation_failed string int string  \<comment> \<open>attemptId, expectedVersion, error\<close>
  | SC_startup_interrupt_active
  | SC_shutdown_interrupt_active
  | SC_resume_manual string int string  \<comment> \<open>attemptId, expectedVersion, reason\<close>
  | SC_resume_approval string int string  \<comment> \<open>attemptId, expectedVersion, approvalId\<close>
  | SC_resume_input string int string  \<comment> \<open>attemptId, expectedVersion, inputRequestId\<close>

datatype system_authority =
    SA_admission_launch_failure string  \<comment> \<open>inboxItemId\<close>
  | SA_external_action_guard string  \<comment> \<open>approvalId\<close>
  | SA_resume_preparation_failure
  | SA_lifecycle_startup
  | SA_lifecycle_shutdown
  | SA_manual_resume string  \<comment> \<open>actorId\<close>
  | SA_approval_resume string  \<comment> \<open>approvalId\<close>
  | SA_input_resume string  \<comment> \<open>inputRequestId\<close>

text \<open>The attempt-bound tail: \<open>attemptId\<close> and \<open>expectedVersion\<close>.\<close>

definition bound_command ::
  "(string \<times> jsval) list \<Rightarrow> (string \<Rightarrow> int \<Rightarrow> store_error + 'a) \<Rightarrow> store_error + 'a" where
  "bound_command kvs k =
     assertNonEmpty (js_get kvs ''attemptId'') (\<lambda>aid.
     assertPositiveInteger (js_get kvs ''expectedVersion'') (k aid))"

definition validateSystemCommand :: "jsval \<Rightarrow> store_error + system_command" where
  "validateSystemCommand command =
     asRecord command (\<lambda>kvs.
       let bound = [''kind'', ''attemptId'', ''expectedVersion''];
           kind = js_get kvs ''kind''
       in if kind = Some (JStr ''startup_interrupt_active'') then
            assertExactKeys kvs [''kind''] (Inr SC_startup_interrupt_active)
          else if kind = Some (JStr ''shutdown_interrupt_active'') then
            assertExactKeys kvs [''kind''] (Inr SC_shutdown_interrupt_active)
          else if kind = Some (JStr ''admission_launch_failed'') then
            assertExactKeys kvs (bound @ [''inboxItemId'', ''error'', ''retryable''])
              (bound_command kvs (\<lambda>aid ver.
               assertNonEmpty (js_get kvs ''inboxItemId'') (\<lambda>inboxItemId.
               assertNonEmpty (js_get kvs ''error'') (\<lambda>err.
               case js_get kvs ''retryable'' of
                 Some (JBool b) \<Rightarrow> Inr (SC_admission_launch_failed aid ver inboxItemId err b)
               | _ \<Rightarrow> Inl (Type_error ''SystemTransitionCommand.retryable must be boolean'')))))
          else if kind = Some (JStr ''require_external_approval'') then
            assertExactKeys kvs (bound @ [''approvalId'', ''reason''])
              (assertNonEmpty (js_get kvs ''approvalId'') (\<lambda>approvalId.
               assertNonEmpty (js_get kvs ''reason'') (\<lambda>reason.
               bound_command kvs (\<lambda>aid ver. Inr (SC_require_external_approval aid ver approvalId reason)))))
          else if kind = Some (JStr ''resume_preparation_failed'') then
            assertExactKeys kvs (bound @ [''error''])
              (assertNonEmpty (js_get kvs ''error'') (\<lambda>err.
               bound_command kvs (\<lambda>aid ver. Inr (SC_resume_preparation_failed aid ver err))))
          else if kind = Some (JStr ''resume_manual'') then
            assertExactKeys kvs (bound @ [''reason''])
              (assertNonEmpty (js_get kvs ''reason'') (\<lambda>reason.
               bound_command kvs (\<lambda>aid ver. Inr (SC_resume_manual aid ver reason))))
          else if kind = Some (JStr ''resume_approval'') then
            assertExactKeys kvs (bound @ [''approvalId''])
              (assertNonEmpty (js_get kvs ''approvalId'') (\<lambda>approvalId.
               bound_command kvs (\<lambda>aid ver. Inr (SC_resume_approval aid ver approvalId))))
          else if kind = Some (JStr ''resume_input'') then
            assertExactKeys kvs (bound @ [''inputRequestId''])
              (assertNonEmpty (js_get kvs ''inputRequestId'') (\<lambda>inputRequestId.
               bound_command kvs (\<lambda>aid ver. Inr (SC_resume_input aid ver inputRequestId))))
          else Inl (Type_error ''SystemTransitionCommand.kind is not allowlisted''))"

definition validateSystemAuthority :: "jsval \<Rightarrow> store_error + system_authority" where
  "validateSystemAuthority authority =
     asRecord authority (\<lambda>kvs.
       let kind = js_get kvs ''kind''; component = js_get kvs ''component''; phase = js_get kvs ''phase''
       in if kind = Some (JStr ''admission_launch_failure'') then
            assertExactKeys kvs [''kind'', ''component'', ''inboxItemId'']
           (require (component = Some (JStr ''admission_coordinator''))
              (Type_error ''Admission authority component is invalid'')
           (assertNonEmpty (js_get kvs ''inboxItemId'') (\<lambda>i. Inr (SA_admission_launch_failure i))))
          else if kind = Some (JStr ''external_action_guard'') then
            assertExactKeys kvs [''kind'', ''component'', ''approvalId'']
           (require (component = Some (JStr ''core_external_action_approval_application''))
              (Type_error ''External action guard component is invalid'')
           (assertNonEmpty (js_get kvs ''approvalId'') (\<lambda>i. Inr (SA_external_action_guard i))))
          else if kind = Some (JStr ''resume_preparation_failure'') then
            assertExactKeys kvs [''kind'', ''component'']
           (require (component = Some (JStr ''run_context_service''))
              (Type_error ''Resume preparation authority component is invalid'')
              (Inr SA_resume_preparation_failure))
          else if kind = Some (JStr ''lifecycle_interrupt'') then
            assertExactKeys kvs [''kind'', ''component'', ''phase'']
             (if component = Some (JStr ''execution_lifecycle_service'') \<and> phase = Some (JStr ''startup'')
              then Inr SA_lifecycle_startup
              else if component = Some (JStr ''runtime_registry'') \<and> phase = Some (JStr ''shutdown'')
              then Inr SA_lifecycle_shutdown
              else Inl (Type_error ''Lifecycle transition authority is invalid''))
          else if kind = Some (JStr ''manual_resume'') then
            assertExactKeys kvs [''kind'', ''actorId'']
              (assertNonEmpty (js_get kvs ''actorId'') (\<lambda>i. Inr (SA_manual_resume i)))
          else if kind = Some (JStr ''approval_resume'') then
            assertExactKeys kvs [''kind'', ''approvalId'']
              (assertNonEmpty (js_get kvs ''approvalId'') (\<lambda>i. Inr (SA_approval_resume i)))
          else if kind = Some (JStr ''input_resume'') then
            assertExactKeys kvs [''kind'', ''inputRequestId'']
              (assertNonEmpty (js_get kvs ''inputRequestId'') (\<lambda>i. Inr (SA_input_resume i)))
          else Inl (Type_error ''SystemTransitionAuthority.kind is not allowlisted''))"

fun authority_matches :: "system_command \<Rightarrow> system_authority \<Rightarrow> bool" where
  "authority_matches (SC_admission_launch_failed _ _ inboxItemId _ _) a = (a = SA_admission_launch_failure inboxItemId)"
| "authority_matches (SC_require_external_approval _ _ approvalId _) a = (a = SA_external_action_guard approvalId)"
| "authority_matches (SC_resume_preparation_failed _ _ _) a = (a = SA_resume_preparation_failure)"
| "authority_matches SC_startup_interrupt_active a = (a = SA_lifecycle_startup)"
| "authority_matches SC_shutdown_interrupt_active a = (a = SA_lifecycle_shutdown)"
| "authority_matches (SC_resume_manual _ _ _) a = (case a of SA_manual_resume _ \<Rightarrow> True | _ \<Rightarrow> False)"
| "authority_matches (SC_resume_approval _ _ approvalId) a = (a = SA_approval_resume approvalId)"
| "authority_matches (SC_resume_input _ _ inputRequestId) a = (a = SA_input_resume inputRequestId)"

section \<open>System transitions\<close>

record system_scope =
  ss_attemptId :: string
  ss_runId :: string
  ss_ordinal :: int
  ss_attemptStatus :: attempt_status
  ss_active :: bool
  ss_version :: int
  ss_runStatus :: run_status

definition validateSystemAttempt :: "string \<Rightarrow> int \<Rightarrow> db \<Rightarrow> store_error + system_scope" where
  "validateSystemAttempt aid expectedVersion s =
     fetch (get_attempt s aid) (Thrown ''Attempt does not exist'') (\<lambda>a.
     fetch (get_run s (a_runId a)) (Thrown ''Attempt does not exist'') (\<lambda>r.
     require (a_version a = expectedVersion) (Thrown ''Attempt version mismatch'')
    (require (r_attempt r = a_ordinal a) (Thrown ''TaskRun projection is stale'')
    (Inr \<lparr>ss_attemptId = aid, ss_runId = a_runId a, ss_ordinal = a_ordinal a, ss_attemptStatus = a_status a,
          ss_active = a_active a, ss_version = a_version a, ss_runStatus = r_status r\<rparr>))))"

fun interruptible :: "db \<Rightarrow> task_run list \<Rightarrow> store_error + system_scope list" where
  "interruptible s [] = Inr []"
| "interruptible s (r # rs) =
     fetch (getAttemptForRun s (r_id r) (r_attempt r))
       (Thrown ''Running TaskRun is missing its active running Attempt projection'') (\<lambda>a.
     require (a_id a \<noteq> '''' \<and> a_status a = A_running \<and> a_active a)
       (Thrown ''Running TaskRun is missing its active running Attempt projection'')
    (and_then (interruptible s rs) (\<lambda>scopes.
     Inr (\<lparr>ss_attemptId = a_id a, ss_runId = r_id r, ss_ordinal = a_ordinal a,
           ss_attemptStatus = a_status a, ss_active = True, ss_version = a_version a,
           ss_runStatus = r_status r\<rparr> # scopes))))"

definition listInterruptibleSystemAttempts :: "db \<Rightarrow> store_error + system_scope list" where
  "listInterruptibleSystemAttempts s =
     interruptible s (sort_key r_id (filter (\<lambda>r. r_status r = Running) (db_runs s)))"

text \<open>
  \<open>CAST(json_extract(metadata_json,'$.approvedAttempt') AS INTEGER)=?\<close>; the approval
  application writes \<open>approvedAttempt\<close> as a JSON integer.
\<close>

definition approved_attempt_is :: "jsval \<Rightarrow> int \<Rightarrow> bool" where
  "approved_attempt_is metadata n = (json_extract metadata ''approvedAttempt'' = Some (JNum (JInt n)))"

definition transitionResumePreparationFailure ::
  "string \<Rightarrow> int \<Rightarrow> string \<Rightarrow> system_scope \<Rightarrow> db \<Rightarrow> store_error + transition_outcome list \<times> db" where
  "transitionResumePreparationFailure uuid now err scope s =
     require (ss_active scope \<and> ss_attemptStatus scope = A_running \<and> ss_runStatus scope = Running)
       (Thrown ''Resume context preparation failure requires the active running Attempt'')
    (and_then (transitionRun uuid now (ss_runId scope) [Running] Failed ''run.failed''
        (JObj [(''error'', JStr err), (''reason'', JStr ''resume_context_preparation_failed''),
               (''stage'', JStr ''context_preparation''), (''retryable'', JBool False)])
        err (Some (ss_ordinal scope)) s) (\<lambda>(event, s1).
     fetch event (Thrown ''resume preparation failure lost its compare-and-set'') (\<lambda>ev.
     Inr ([same_attempt_outcome (ss_runId scope) (ss_attemptId scope) (ss_ordinal scope) Running Failed
             [] (Some ev)], s1))))"

definition submitted_input_boundary :: "system_scope \<Rightarrow> db \<Rightarrow> bool" where
  "submitted_input_boundary scope s =
     (\<not> ss_active scope \<and> ss_attemptStatus scope = A_waiting_input \<and> ss_runStatus scope = Waiting_input
      \<and> list_ex (\<lambda>u. u_runId u = ss_runId scope \<and> u_attempt u = ss_ordinal scope \<and> u_status u = In_submitted)
          (db_inputs s)
      \<and> \<not> list_ex (\<lambda>u. u_runId u = ss_runId scope \<and> u_status u = In_pending) (db_inputs s))"

definition pending_external_approval :: "string \<Rightarrow> system_scope \<Rightarrow> db \<Rightarrow> approval_request option" where
  "pending_external_approval approvalId scope s =
     find (\<lambda>p. ap_id p = approvalId \<and> ap_runId p = ss_runId scope
             \<and> ap_actionType p = Ap_execute_external_action \<and> ap_status p = Ap_pending
             \<and> approved_attempt_is (ap_metadata p) (ss_ordinal scope + 1)) (db_approvals s)"

text \<open>\<open>json_extract\<close> renders JSON \<open>true\<close> as \<open>1\<close>.\<close>

definition manual_resume_requested :: "approval_request \<Rightarrow> bool" where
  "manual_resume_requested p =
     (json_extract (ap_metadata p) ''manualResumeRequested'' \<in> {Some (JBool True), Some (JNum (JInt 1))})"

definition bound_submitted_input :: "approval_request \<Rightarrow> system_scope \<Rightarrow> db \<Rightarrow> bool" where
  "bound_submitted_input p scope s =
     (case json_extract (ap_metadata p) ''submittedInputRequestId'' of
        Some (JStr i) \<Rightarrow> i \<noteq> '''' \<and> list_ex (\<lambda>u. u_id u = i \<and> u_runId u = ss_runId scope
            \<and> u_attempt u = ss_ordinal scope \<and> u_status u = In_submitted) (db_inputs s)
      | _ \<Rightarrow> False)"

definition transitionExternalApproval ::
  "string \<Rightarrow> int \<Rightarrow> string \<Rightarrow> string \<Rightarrow> system_scope \<Rightarrow> db \<Rightarrow> store_error + transition_outcome list \<times> db" where
  "transitionExternalApproval uuid now approvalId reason scope s =
     (let runningBoundary = (ss_active scope \<and> ss_attemptStatus scope = A_running \<and> ss_runStatus scope = Running);
          submittedInputBoundary = submitted_input_boundary scope s
      in fetch (pending_external_approval approvalId scope s) (Thrown ''External approval is not pending'') (\<lambda>approval.
         let resumableFailure = (ss_runStatus scope = Failed
               \<and> timeout_failure s (ss_runId scope) (ss_attemptId scope));
             manualResumeBoundary = (\<not> ss_active scope \<and> manual_resume_requested approval
               \<and> (ss_runStatus scope = Blocked \<or> ss_runStatus scope = Interrupted \<or> resumableFailure))
         in require (runningBoundary \<or> submittedInputBoundary \<or> manualResumeBoundary)
              (Thrown ''External approval requires a running, submitted-input, or resumable boundary'')
           (require (\<not> submittedInputBoundary \<or> bound_submitted_input approval scope s)
              (Thrown ''External approval is not bound to submitted input'')
           (and_then (transitionRun uuid now (ss_runId scope) [ss_runStatus scope] Blocked ''run.blocked''
               (JObj [(''reason'', JStr reason), (''approvalId'', JStr approvalId),
                      (''action'', JStr ''execute_external_action'')])
               reason (Some (ss_ordinal scope)) s) (\<lambda>(event, s1).
            fetch event (Thrown ''external approval boundary lost its compare-and-set'') (\<lambda>ev.
            Inr ([same_attempt_outcome (ss_runId scope) (ss_attemptId scope) (ss_ordinal scope)
                    (ss_runStatus scope) Blocked [] (Some ev)], s1)))))))"

definition transitionAdmissionFailure ::
  "string \<Rightarrow> int \<Rightarrow> string \<Rightarrow> string \<Rightarrow> bool \<Rightarrow> system_scope \<Rightarrow> db \<Rightarrow> store_error + transition_outcome list \<times> db" where
  "transitionAdmissionFailure uuid now inboxItemId err retryable scope s =
     require (ss_active scope \<and> ss_attemptStatus scope = A_running \<and> ss_runStatus scope = Running)
       (Thrown ''Admission launch failure requires the active running Attempt'')
    (let started = (\<lambda>i. ib_id i = inboxItemId \<and> ib_runId i = Some (ss_runId scope) \<and> ib_status i = ''started'');
         s1 = s\<lparr>db_inbox := upd started (\<lambda>i. i\<lparr>ib_error := err, ib_updatedAt := now\<rparr>) (db_inbox s)\<rparr>
     in require (cnt started (db_inbox s) = 1)
          (Thrown ''Started admission inbox item does not own the Attempt'')
       (and_then (transitionRun uuid now (ss_runId scope) [Running] Failed ''run.failed''
           (JObj [(''error'', JStr err), (''reason'', JStr ''runtime_initialization_failed''),
                  (''stage'', JStr ''launch_setup''), (''retryable'', JBool retryable),
                  (''inboxItemId'', JStr inboxItemId)])
           err (Some (ss_ordinal scope)) s1) (\<lambda>(event, s2).
        fetch event (Thrown ''admission failure lost its compare-and-set'') (\<lambda>ev.
        Inr ([same_attempt_outcome (ss_runId scope) (ss_attemptId scope) (ss_ordinal scope) Running Failed
                [] (Some ev)], s2)))))"

text \<open>The boundary each resume command requires.\<close>

definition approved_resume :: "string \<Rightarrow> system_scope \<Rightarrow> db \<Rightarrow> bool" where
  "approved_resume approvalId scope s =
     list_ex (\<lambda>p. ap_id p = approvalId \<and> ap_runId p = ss_runId scope \<and> ap_status p = Ap_approved
                \<and> (ap_actionType p = Ap_resume_taskrun
                   \<or> ap_actionType p = Ap_execute_external_action
                     \<and> approved_attempt_is (ap_metadata p) (ss_ordinal scope + 1))) (db_approvals s)"

fun resume_allowed :: "system_command \<Rightarrow> system_authority \<Rightarrow> system_scope \<Rightarrow> db \<Rightarrow> store_error + 'a \<Rightarrow> store_error + 'a" where
  "resume_allowed (SC_resume_manual _ _ _) authority scope s k =
     require (case authority of SA_manual_resume _ \<Rightarrow> True | _ \<Rightarrow> False) (Thrown ''Manual resume authority mismatch'')
    (require (ss_runStatus scope \<in> {Blocked, Interrupted, Failed}) (Thrown ''Manual resume cannot continue TaskRun'') k)"
| "resume_allowed (SC_resume_approval _ _ approvalId) authority scope s k =
     require (case authority of SA_approval_resume _ \<Rightarrow> True | _ \<Rightarrow> False) (Thrown ''Approval resume authority mismatch'')
    (require (approved_resume approvalId scope s) (Thrown ''Approval cannot resume'')
    (require (ss_runStatus scope = Blocked \<or> ss_runStatus scope = Interrupted
              \<or> ss_runStatus scope = Failed \<and> timeout_failure s (ss_runId scope) (ss_attemptId scope))
       (Thrown ''Approval resume cannot continue TaskRun'') k))"
| "resume_allowed (SC_resume_input _ _ inputRequestId) authority scope s k =
     require (case authority of SA_input_resume _ \<Rightarrow> True | _ \<Rightarrow> False) (Thrown ''Input resume authority mismatch'')
    (require (list_ex (\<lambda>u. u_id u = inputRequestId \<and> u_runId u = ss_runId scope \<and> u_attempt u = ss_ordinal scope
                         \<and> u_status u = In_submitted) (db_inputs s)) (Thrown ''Input request cannot resume'')
    (require (ss_runStatus scope = Waiting_input) (Thrown ''Input resume cannot continue TaskRun'') k))"
| "resume_allowed _ _ _ _ k = k"

text \<open>The \<open>TypeError\<close>s of \<open>attemptIdFor\<close>.\<close>

fun attempt_id_thrown :: "attempt_id_error + string \<Rightarrow> store_error + string" where
  "attempt_id_thrown (Inl RunIdRequired) = Inl (Type_error ''Attempt runId is required'')"
| "attempt_id_thrown (Inl OrdinalNotPositive) =
     Inl (Type_error ''Attempt ordinal must be a positive safe integer'')"
| "attempt_id_thrown (Inr aid) = Inr aid"

definition transitionResume ::
  "string \<Rightarrow> int \<Rightarrow> system_command \<Rightarrow> system_authority \<Rightarrow> system_scope \<Rightarrow> db
   \<Rightarrow> store_error + transition_outcome list \<times> db" where
  "transitionResume uuid now command authority scope s =
     require (\<not> ss_active scope) (Thrown ''Resume requires an inactive source Attempt'')
    (resume_allowed command authority scope s
    (and_then (resumeRun uuid now (ss_runId scope) s) (\<lambda>(resumed, s1).
     and_then (attempt_id_thrown (attemptIdFor (ss_runId scope) (r_attempt resumed))) (\<lambda>targetAttemptId.
        fetch (find (\<lambda>a. a_id a = targetAttemptId \<and> a_runId a = ss_runId scope) (db_attempts s1))
          (Thrown ''resume did not create its target Attempt'') (\<lambda>target.
        require (a_ordinal target = r_attempt resumed) (Thrown ''resume did not create its target Attempt'')
          (Inr ([\<lparr>to_runId = ss_runId scope, to_sourceAttemptId = ss_attemptId scope,
                  to_sourceOrdinal = ss_ordinal scope, to_targetAttemptId = a_id target,
                  to_targetOrdinal = a_ordinal target, to_fromStatus = ss_runStatus scope,
                  to_toStatus = Running, to_precedingEvents = [], to_event = None\<rparr>], s1)))))))"

text \<open>\<open>uuids\<close> supplies the identifiers of the audit rows a bulk interruption writes.\<close>

definition interrupt_active :: "(nat \<Rightarrow> string) \<Rightarrow> int \<Rightarrow> db \<Rightarrow> store_error + transition_outcome list \<times> db" where
  "interrupt_active uuids now s =
     and_then (listInterruptibleSystemAttempts s) (\<lambda>scopes.
     and_then (markInterrupted uuids now s) (\<lambda>s1.
     Inr (map (\<lambda>sc. same_attempt_outcome (ss_runId sc) (ss_attemptId sc) (ss_ordinal sc) Running
                      Interrupted [] None) scopes, s1)))"

definition execute_system ::
  "(nat \<Rightarrow> string) \<Rightarrow> int \<Rightarrow> system_command \<Rightarrow> system_authority \<Rightarrow> db
   \<Rightarrow> store_error + transition_outcome list \<times> db" where
  "execute_system uuids now command authority s =
     (case command of
        SC_startup_interrupt_active \<Rightarrow> interrupt_active uuids now s
      | SC_shutdown_interrupt_active \<Rightarrow> interrupt_active uuids now s
      | SC_admission_launch_failed aid ver inboxItemId err retryable \<Rightarrow>
          and_then (validateSystemAttempt aid ver s) (\<lambda>scope.
            transitionAdmissionFailure (uuids 0) now inboxItemId err retryable scope s)
      | SC_require_external_approval aid ver approvalId reason \<Rightarrow>
          and_then (validateSystemAttempt aid ver s) (\<lambda>scope.
            transitionExternalApproval (uuids 0) now approvalId reason scope s)
      | SC_resume_preparation_failed aid ver err \<Rightarrow>
          and_then (validateSystemAttempt aid ver s) (\<lambda>scope.
            transitionResumePreparationFailure (uuids 0) now err scope s)
      | SC_resume_manual aid ver _ \<Rightarrow>
          and_then (validateSystemAttempt aid ver s) (\<lambda>scope.
            transitionResume (uuids 0) now command authority scope s)
      | SC_resume_approval aid ver _ \<Rightarrow>
          and_then (validateSystemAttempt aid ver s) (\<lambda>scope.
            transitionResume (uuids 0) now command authority scope s)
      | SC_resume_input aid ver _ \<Rightarrow>
          and_then (validateSystemAttempt aid ver s) (\<lambda>scope.
            transitionResume (uuids 0) now command authority scope s))"

definition transitionSystem ::
  "(nat \<Rightarrow> string) \<Rightarrow> int \<Rightarrow> jsval \<Rightarrow> jsval \<Rightarrow> db \<Rightarrow> store_error + transition_outcome list \<times> db" where
  "transitionSystem uuids now command authority s =
     and_then (validateSystemCommand command) (\<lambda>normalizedCommand.
     and_then (validateSystemAuthority authority) (\<lambda>normalizedAuthority.
     require (authority_matches normalizedCommand normalizedAuthority)
       (Thrown ''System transition authority does not permit the command'')
       (execute_system uuids now normalizedCommand normalizedAuthority s)))"

section \<open>The invariant is kept\<close>

lemma append_rejections_inv:
  "store_inv s \<Longrightarrow> append_rejections rid t ds s = Inr (es, s') \<Longrightarrow> store_inv s'"
  by (induction ds arbitrary: s es) (auto dest: appendEvent_inv)

lemma transitionRuntime_inv:
  assumes "store_inv s" and "transitionRuntime uuid t dbNow cmd f s = Inr (out, s')"
  shows "store_inv s'"
  using assms
  by (auto simp: transitionRuntime_def Let_def split: if_splits prod.splits
      dest: append_rejections_inv transitionRun_inv)

lemma resume_allowed_Inr: "resume_allowed c a sc s k = Inr y \<Longrightarrow> k = Inr y"
  by (cases c) auto

lemma transitionResume_inv:
  "store_inv s \<Longrightarrow> transitionResume uuid t c a sc s = Inr (out, s') \<Longrightarrow> store_inv s'"
  by (auto simp: transitionResume_def dest!: resume_allowed_Inr dest: resumeRun_inv)

lemma store_inv_inbox [simp]: "store_inv (s\<lparr>db_inbox := x\<rparr>) = store_inv s"
  by (rule store_inv_cong) simp_all

lemma transitionAdmissionFailure_inv:
  assumes "store_inv s" and "transitionAdmissionFailure uuid t i e b sc s = Inr (out, s')"
  shows "store_inv s'"
proof -
  from assms(2) obtain x ev where
    "transitionRun uuid t (ss_runId sc) [Running] Failed ''run.failed''
       (JObj [(''error'', JStr e), (''reason'', JStr ''runtime_initialization_failed''),
              (''stage'', JStr ''launch_setup''), (''retryable'', JBool b), (''inboxItemId'', JStr i)])
       e (Some (ss_ordinal sc)) (s\<lparr>db_inbox := x\<rparr>) = Inr (ev, s')"
    by (auto simp: transitionAdmissionFailure_def Let_def)
  moreover have "store_inv (s\<lparr>db_inbox := x\<rparr>)" using assms(1) by simp
  ultimately show ?thesis by (rule transitionRun_inv [rotated])
qed

lemma execute_system_inv:
  assumes "store_inv s" and "execute_system uuids t c a s = Inr (out, s')"
  shows "store_inv s'"
  using assms
  by (cases c)
    (auto simp: execute_system_def interrupt_active_def transitionExternalApproval_def
      transitionResumePreparationFailure_def Let_def
      dest: markInterrupted_inv transitionRun_inv transitionResume_inv transitionAdmissionFailure_inv)

lemma transitionSystem_inv:
  "store_inv s \<Longrightarrow> transitionSystem uuids t c a s = Inr (out, s') \<Longrightarrow> store_inv s'"
  by (auto simp: transitionSystem_def dest: execute_system_inv)

end
