(* ===== verification/Transition_Progress.thy ===== *)
theory Transition_Progress
  imports Task_Run_Transitions
begin

text \<open>
  Transitions that must succeed do: from a store that satisfies \<open>store_inv\<close>, no
  constraint, compare-and-set or checkpoint guard of a legal transition can fail. Also the
  effect of a transition on the run, its Attempt and the journal.
\<close>

section \<open>Statements that cannot fail\<close>

lemma insert_event_ok:
  assumes "store_inv s" and "get_run s rid = Some r" and "e_runId e = rid" and "e_seq e = r_lastEventSeq r + 1"
  shows "insert_event e s = Inr (s\<lparr>db_events := db_events s @ [e]\<rparr>)"
proof -
  have r: "r \<in> set (db_runs s)" "r_id r = rid" using assms(2) by (auto dest: get_run_SomeD)
  then have has: "has_run s rid" by (auto simp: has_run_iff)
  have "map e_seq (journal s rid) = [1..r_lastEventSeq r]"
    using assms(1) r by (auto simp: store_inv_def journal_ok_def)
  then have "e_seq ` set (journal s rid) = {1..r_lastEventSeq r}"
    using list.set_map [of e_seq "journal s rid"] by simp
  then have "e_seq e' \<noteq> r_lastEventSeq r + 1" if "e' \<in> set (db_events s)" "e_runId e' = rid" for e'
    using that by (force simp: journal_def)
  with has assms(3,4) show ?thesis by (auto simp: insert_event_def require_def list_ex_iff)
qed

lemma run_changes_one:
  "distinct (map r_id (db_runs s)) \<Longrightarrow> get_run s rid = Some r \<Longrightarrow> P r \<Longrightarrow> run_changes rid P s = 1"
  by (simp add: run_changes_def get_run_def cnt_key)

text \<open>Updating one row of \<open>attempts\<close> without activating it keeps every constraint.\<close>

lemma attempts_ok_upd:
  assumes ok: "attempts_ok as"
    and keys: "\<And>a. a_id (f a) = a_id a \<and> a_runId (f a) = a_runId a \<and> a_ordinal (f a) = a_ordinal a"
    and row: "\<And>a. a \<in> set as \<Longrightarrow> P a \<Longrightarrow> attempt_row_ok a \<Longrightarrow> attempt_row_ok (f a)"
    and act: "\<And>a. a \<in> set as \<Longrightarrow> P a \<Longrightarrow> isActiveAttemptStatus (a_status (f a)) \<Longrightarrow> isActiveAttemptStatus (a_status a)"
  shows "attempts_ok (upd P f as)"
proof -
  let ?A = "\<lambda>a. isActiveAttemptStatus (a_status a)"
  have m: "map k (upd P f as) = map k as" if "\<And>a. k (f a) = k a" for k :: "attempt \<Rightarrow> 'k"
    using that by (rule map_upd)
  have "distinct (map a_runId (filter ?A (upd P f bs))) \<and>
      a_runId ` set (filter ?A (upd P f bs)) \<subseteq> a_runId ` set (filter ?A bs)"
    if "distinct (map a_runId (filter ?A bs))" "set bs \<subseteq> set as" for bs
    using that
  proof (induction bs)
    case (Cons b bs)
    then have IH: "distinct (map a_runId (filter ?A (upd P f bs)))"
      "a_runId ` set (filter ?A (upd P f bs)) \<subseteq> a_runId ` set (filter ?A bs)"
      by (auto split: if_splits)
    have fb: "a_runId (f b) = a_runId b" "P b \<Longrightarrow> ?A (f b) \<Longrightarrow> ?A b"
      using keys act Cons.prems(2) by auto
    from Cons.prems(1) have "?A b \<Longrightarrow> a_runId b \<notin> a_runId ` set (filter ?A bs)" by simp
    with IH fb show ?case by (auto split: if_splits)
  qed simp
  moreover have "list_all attempt_row_ok (upd P f as)"
    using ok row by (auto simp: attempts_ok_def list_all_iff set_upd)
  ultimately show ?thesis
    using ok m [of a_id] m [of "\<lambda>a. (a_runId a, a_ordinal a)"] keys by (simp add: attempts_ok_def)
qed

lemma projectAttempt_ok:
  assumes ok: "attempts_ok (db_attempts s)" and ex: "get_attempt s (attemptId rid n) = Some a"
    and st: "\<not> isActiveAttemptStatus st" and ev: "0 \<le> ev"
    and fresh: "uuid \<notin> au_id ` set (db_audit s)"
  shows "\<exists>s'. projectAttempt uuid rid n trig st sc rs ev t s = Inr s'"
proof -
  from st have nr: "st \<noteq> A_running" by auto
  let ?as = "upd (\<lambda>a. a_id a = attemptId rid n) (project_row st ev t) (db_attempts s)"
  have okA: "attempts_ok ?as"
    by (rule attempts_ok_upd [OF ok])
      (use st ev nr in \<open>auto simp: attempt_row_ok_def project_row_def isActiveAttemptStatus_def\<close>)
  have id: "a_id a = attemptId rid n" using ex by (auto dest: get_attempt_SomeD)
  have look: "get_attempt (s\<lparr>db_attempts := ?as\<rparr>) (attemptId rid n) = Some (project_row st ev t a)"
    using ex id by (simp add: get_attempt_def find_key_upd_Some)
  have free: "\<not> list_ex (\<lambda>x. au_id x = uuid) (db_audit s)" using fresh by (auto simp: list_ex_iff)
  show ?thesis
    using nr okA look free ex
    by (simp add: projectAttempt_def Let_def put_attempts_def insert_audit_def require_def and_then_def fetch_def)
qed

lemma finalize_ok:
  assumes "store_inv s" and "get_run s rid = Some r" and "r_attempt r = n"
    and "db_runs s1 = upd P f (db_runs s)" and "\<And>x. r_id (f x) = r_id x"
    and "cp_moves rid n (db_checkpoints s) (db_checkpoints s1)"
  shows "\<exists>s'. finalizeAttemptProjectionCheckpoint rid aid n ev t s1 = Inr s'"
proof (cases "find (\<lambda>c. cp_runId c = rid) (db_checkpoints s1)")
  case None
  have "r_id ` set (db_runs s1) = r_id ` set (db_runs s)"
    using map_upd [of r_id f P "db_runs s"] assms(4,5) by (metis list.set_map)
  moreover have "rid \<in> r_id ` set (db_runs s)" using assms(2) by (auto dest: get_run_SomeD)
  ultimately have "has_run s1 rid" by (simp add: has_run_iff)
  with None show ?thesis by (simp add: finalizeAttemptProjectionCheckpoint_def Let_def require_def)
next
  case (Some c)
  then have c: "c \<in> set (db_checkpoints s1)" "cp_runId c = rid" by (auto dest: find_SomeD)
  have "cp_attempt c \<le> n"
  proof (cases "\<exists>c0 \<in> set (db_checkpoints s). cp_runId c0 = cp_runId c \<and> cp_attempt c0 = cp_attempt c")
    case True
    then obtain c0 x where "c0 \<in> set (db_checkpoints s)" "cp_runId c0 = rid" "cp_attempt c0 = cp_attempt c"
      "x \<in> set (db_runs s)" "r_id x = rid" "cp_attempt c0 \<le> r_attempt x"
      using assms(1) c(2) unfolding store_inv_def checkpoints_ok_def by metis
    moreover from this(4,5) have "x = r"
      using assms(2) store_inv_distinct [OF assms(1)] by (auto simp: get_run_def dest: find_key_unique)
    ultimately show ?thesis using assms(3) by simp
  next
    case False
    with c assms(6) show ?thesis by (auto simp: cp_moves_def)
  qed
  with Some show ?thesis by (simp add: finalizeAttemptProjectionCheckpoint_def Let_def require_def)
qed

section \<open>The compare-and-set transition\<close>

lemma status_inactive: "next \<noteq> Running \<Longrightarrow> \<not> isActiveAttemptStatus (attempt_status_of next)"
  by (cases "next") auto

definition moved_run :: "run_status \<Rightarrow> string \<Rightarrow> int \<Rightarrow> int \<Rightarrow> task_run \<Rightarrow> task_run" where
  "moved_run next reason seq at r =
     r\<lparr>r_status := next, r_phase := terminal_phase next (r_phase r), r_blockedReason := reason,
       r_lastEventSeq := seq, r_completedAt := terminal_time next at, r_updatedAt := at\<rparr>"

text \<open>
  A transition out of an expected status happens, and returns the event it appended.
\<close>

lemma transitionRun_ok:
  assumes inv: "store_inv s" and run: "get_run s rid = Some r" and st: "r_status r \<in> set expected"
    and att: "att = None \<or> att = Some (r_attempt r)" and nonrun: "next \<noteq> Running"
    and fresh: "uuid \<notin> au_id ` set (db_audit s)"
  shows "\<exists>s'. transitionRun uuid at rid expected next ty data rs att s =
     Inr (Some \<lparr>e_runId = rid, e_seq = r_lastEventSeq r + 1, e_attemptId = attemptId rid (r_attempt r),
            e_type = ty, e_data = data, e_createdAt = at\<rparr>, s')"
proof -
  let ?seq = "r_lastEventSeq r + 1"
  let ?e = "\<lparr>e_runId = rid, e_seq = ?seq, e_attemptId = attemptId rid (r_attempt r), e_type = ty,
     e_data = data, e_createdAt = at\<rparr>"
  let ?G = "\<lambda>x. r_status x \<in> set expected \<and> (case att of None \<Rightarrow> True | Some n \<Rightarrow> r_attempt x = n)"
  let ?s1 = "s\<lparr>db_events := db_events s @ [?e]\<rparr>"
  let ?s2 = "set_run rid ?G (moved_run next rs ?seq at) ?s1"
  let ?s3 = "?s2\<lparr>db_checkpoints := upd (\<lambda>c. cp_runId c = rid \<and> cp_attempt c = r_attempt r)
      (\<lambda>c. c\<lparr>cp_active := False, cp_currentTool := '''', cp_lastEventSeq := max (cp_lastEventSeq c) ?seq,
             cp_updatedAt := at\<rparr>) (db_checkpoints ?s2)\<rparr>"
  have G: "?G r" using st att by auto
  have e: "insert_event ?e s = Inr ?s1" by (rule insert_event_ok [OF inv run]) simp_all
  have run1: "get_run ?s1 rid = Some r" using run by (simp add: get_run_def)
  have one: "run_changes rid ?G ?s1 = 1"
    by (rule run_changes_one [where P = ?G, OF _ run1]) (use G store_inv_distinct [OF inv] in simp_all)
  obtain a where a: "get_attempt s (attemptId rid (r_attempt r)) = Some a"
    using inv run by (auto simp: store_inv_def elim: coherent_current)
  have nonneg: "0 \<le> ?seq" using inv run by (auto simp: store_inv_def journal_ok_def dest!: get_run_SomeD)
  have "attempts_ok (db_attempts ?s3)" using inv by (simp add: store_inv_def coherent_def)
  moreover have "get_attempt ?s3 (attemptId rid (r_attempt r)) = Some a" using a by (simp add: get_attempt_def)
  moreover have "uuid \<notin> au_id ` set (db_audit ?s3)" using fresh by simp
  ultimately obtain s4 where s4: "projectAttempt uuid rid (r_attempt r) Trig_recovery (attempt_status_of next)
      ''terminal'' rs ?seq at ?s3 = Inr s4"
    using projectAttempt_ok [OF _ _ status_inactive [OF nonrun] nonneg] by blast
  have cps: "cp_moves rid (r_attempt r) (db_checkpoints s) (db_checkpoints s4)"
    by (simp add: project_keeps(3) [OF s4]) (auto intro: cp_moves_upd)
  have runs: "db_runs s4 = upd (\<lambda>x. r_id x = rid) (moved_run next rs ?seq at) (db_runs s)"
    using project_keeps(1) [OF s4] set_run_runs [OF inv run, of ?G ?s1] G by simp
  have ids: "r_id (moved_run next rs ?seq at x) = r_id x" for x by (simp add: moved_run_def)
  obtain s5 where s5: "finalizeAttemptProjectionCheckpoint rid (attemptId rid (r_attempt r))
      (r_attempt r) ?seq at s4 = Inr s5"
    using finalize_ok [OF inv run refl runs ids cps] by blast
  have nexp: "\<not> (case att of None \<Rightarrow> False | Some n \<Rightarrow> r_attempt r \<noteq> n)" using att by auto
  show ?thesis
    using run st nonrun nexp e one s4 s5
    by (simp add: transitionRun_def Let_def require_def and_then_def moved_run_def [abs_def])
qed

lemma transitionRun_effect:
  assumes inv: "store_inv s"
    and ok: "transitionRun uuid at rid expected next ty data rs att s = Inr (Some e, s')"
  obtains r where "get_run s rid = Some r" "r_status r \<in> set expected"
    "db_runs s' = upd (\<lambda>x. r_id x = rid) (moved_run next rs (r_lastEventSeq r + 1) at) (db_runs s)"
    "get_run s' rid = Some (moved_run next rs (r_lastEventSeq r + 1) at r)"
    "db_events s' = db_events s @ [e]" "e_seq e = r_lastEventSeq r + 1" "e_runId e = rid" "e_type e = ty"
    "db_attempts s' = projected_rows rid (r_attempt r) Trig_recovery (attempt_status_of next)
       (r_lastEventSeq r + 1) at (db_attempts s)"
    "db_leases s' = db_leases s" "db_candidates s' = db_candidates s" "db_decisions s' = db_decisions s"
    "db_continuations s' = db_continuations s"
proof -
  let ?G = "\<lambda>x. r_status x \<in> set expected \<and> (case att of None \<Rightarrow> True | Some n \<Rightarrow> r_attempt x = n)"

  let ?m = "\<lambda>r. moved_run next rs (r_lastEventSeq r + 1) at"
  from ok obtain r s1 s4 where r: "get_run s rid = Some r" and G: "?G r"
    and e: "e = \<lparr>e_runId = rid, e_seq = r_lastEventSeq r + 1, e_attemptId = attemptId rid (r_attempt r),
        e_type = ty, e_data = data, e_createdAt = at\<rparr>"
    and s1: "insert_event e s = Inr s1"
    and s4: "projectAttempt uuid rid (r_attempt r) Trig_recovery (attempt_status_of next)
        (if next = Running then ''recovery'' else ''terminal'') rs (r_lastEventSeq r + 1) at
        (let s2 = set_run rid ?G (?m r) s1
         in if next \<noteq> Running then
              s2\<lparr>db_checkpoints := upd (\<lambda>c. cp_runId c = rid \<and> cp_attempt c = r_attempt r)
                 (\<lambda>c. c\<lparr>cp_active := False, cp_currentTool := '''',
                     cp_lastEventSeq := max (cp_lastEventSeq c) (r_lastEventSeq r + 1), cp_updatedAt := at\<rparr>)
                 (db_checkpoints s2)\<rparr> else s2) = Inr s4" (is "projectAttempt _ _ _ _ _ _ _ _ _ ?s3 = _")
    and s5: "finalizeAttemptProjectionCheckpoint rid (attemptId rid (r_attempt r)) (r_attempt r)
        (r_lastEventSeq r + 1) at s4 = Inr s'"
    by (auto simp: transitionRun_def Let_def moved_run_def [abs_def] split: option.splits if_splits)
  have s3: "db_runs ?s3 = db_runs (set_run rid ?G (?m r) s1)" "db_events ?s3 = db_events s1"
    "db_attempts ?s3 = db_attempts s1" "db_leases ?s3 = db_leases s1" "db_candidates ?s3 = db_candidates s1"
    "db_decisions ?s3 = db_decisions s1" "db_continuations ?s3 = db_continuations s1"
    by (simp_all add: Let_def set_run_def)
  note s1' = insert_event_Inr [OF s1]
  obtain au where s4': "s4 = ?s3\<lparr>db_attempts := projected_rows rid (r_attempt r) Trig_recovery
      (attempt_status_of next) (r_lastEventSeq r + 1) at (db_attempts ?s3), db_audit := db_audit ?s3 @ [au]\<rparr>"
    using s4 by (rule projectAttempt_Inr)
  have runs: "db_runs s' = upd (\<lambda>x. r_id x = rid) (?m r) (db_runs s)"
    using finalize_keeps(1) [OF s5] project_keeps(1) [OF s4] s3(1) set_run_runs [OF inv r, of ?G s1 "?m r"] G
    by (simp add: s1')
  show ?thesis
  proof (rule that [OF r _ runs])
    show "r_status r \<in> set expected" using G by simp
    show "get_run s' rid = Some (?m r r)"
      using r get_run_SomeD [OF r] by (simp add: get_run_def runs find_key_upd_Some moved_run_def)
    show "db_attempts s' = projected_rows rid (r_attempt r) Trig_recovery (attempt_status_of next)
        (r_lastEventSeq r + 1) at (db_attempts s)"
      using finalize_keeps(2) [OF s5] s4' s3(3) by (simp add: s1')
  qed (use finalize_keeps [OF s5] project_keeps [OF s4] s3 in \<open>simp_all add: s1' e\<close>)
qed

section \<open>Runtime transitions\<close>

lemma validate_Inr:
  assumes "validate dbNow f s = Inr sc"
  obtains a l r where "get_attempt s (xf_attemptId f) = Some a" "a_version a = xf_expectedVersion f"
    "a_status a = A_running" "get_lease s (xf_attemptId f) = Some l" "l_token l = xf_leaseToken f"
    "l_fence l = xf_executionFence f" "l_attemptVersion l = a_version a" "l_releasedAt l = None"
    "dbNow < l_leaseUntil l" "get_run s (a_runId a) = Some r" "r_status r = Running" "r_attempt r = a_ordinal a"
    "xs_runId sc = a_runId a" "xs_ordinal sc = a_ordinal a" "xs_attemptId sc = xf_attemptId f"
  using assms by (auto simp: validate_def validateInput_def intro: that)

lemma appendEvent_ok:
  assumes inv: "store_inv s" and run: "get_run s rid = Some r"
  obtains e s' where "appendEvent rid ty d t s = Inr (e, s')" "e_seq e = r_lastEventSeq r + 1"
    "get_run s' rid = Some (r\<lparr>r_lastEventSeq := r_lastEventSeq r + 1, r_updatedAt := t\<rparr>)" "db_audit s' = db_audit s"
proof -
  let ?e = "\<lparr>e_runId = rid, e_seq = r_lastEventSeq r + 1, e_attemptId = attemptId rid (r_attempt r),
     e_type = ty, e_data = d, e_createdAt = t\<rparr>"
  let ?s' = "set_run rid (\<lambda>_. True) (\<lambda>x. x\<lparr>r_lastEventSeq := r_lastEventSeq r + 1, r_updatedAt := t\<rparr>)
     (s\<lparr>db_events := db_events s @ [?e]\<rparr>)"
  have "insert_event ?e s = Inr (s\<lparr>db_events := db_events s @ [?e]\<rparr>)"
    by (rule insert_event_ok [OF inv run]) simp_all
  then have "appendEvent rid ty d t s = Inr (?e, ?s')"
    using run by (simp add: appendEvent_def fetch_def and_then_def Let_def)
  moreover have "get_run ?s' rid = Some (r\<lparr>r_lastEventSeq := r_lastEventSeq r + 1, r_updatedAt := t\<rparr>)"
    using run get_run_SomeD [OF run] by (simp add: get_run_def set_run_def find_key_upd_Some)
  ultimately show ?thesis using that [of ?e ?s'] by simp
qed

lemma append_rejections_ok:
  assumes "store_inv s" and "get_run s rid = Some r"
  shows "\<exists>es s' r'. append_rejections rid t ds s = Inr (es, s') \<and> get_run s' rid = Some r'
     \<and> r_status r' = r_status r \<and> r_attempt r' = r_attempt r \<and> db_audit s' = db_audit s
     \<and> r_lastEventSeq r' = r_lastEventSeq r + int (length ds)"
  using assms
proof (induction ds arbitrary: s r)
  case Nil
  then show ?case by simp
next
  case (Cons d ds)
  obtain e s1 where e: "appendEvent rid ''message.rejected'' d t s = Inr (e, s1)"
    and r1: "get_run s1 rid = Some (r\<lparr>r_lastEventSeq := r_lastEventSeq r + 1, r_updatedAt := t\<rparr>)"
    and au: "db_audit s1 = db_audit s"
    using Cons.prems by (rule appendEvent_ok)
  from Cons.IH [OF appendEvent_inv [OF Cons.prems(1) e] r1] e au show ?case
    by (auto simp: and_then_def)
qed

lemma runtime_never_running: "fst (RUNTIME_TRANSITIONS k) \<noteq> Running"
  by (cases k) auto

lemma transitionRuntime_ok:
  assumes inv: "store_inv s" and cmd: "validateRuntimeCommand c = Inr n" and f: "validate dbNow f s = Inr sc"
    and fresh: "uuid \<notin> au_id ` set (db_audit s)"
  shows "\<exists>out s'. transitionRuntime uuid t dbNow c f s = Inr ([out], s')
     \<and> to_runId out = xs_runId sc \<and> to_sourceAttemptId out = xf_attemptId f
     \<and> to_toStatus out = fst (RUNTIME_TRANSITIONS (rt_kind n))
     \<and> (\<exists>r'. get_run s' (xs_runId sc) = Some r' \<and> r_status r' = fst (RUNTIME_TRANSITIONS (rt_kind n)))"
proof -
  obtain a r where "get_attempt s (xf_attemptId f) = Some a"
    and r: "get_run s (a_runId a) = Some r" "r_status r = Running" "r_attempt r = a_ordinal a"
    and sc: "xs_runId sc = a_runId a" "xs_ordinal sc = a_ordinal a" "xs_attemptId sc = xf_attemptId f"
    using validate_Inr [OF f] by metis
  obtain st ty where spec: "RUNTIME_TRANSITIONS (rt_kind n) = (st, ty)" by fastforce
  have st: "st \<noteq> Running" using runtime_never_running [of "rt_kind n"] spec by simp
  let ?pre = "if rt_kind n = RT_block then append_rejections (xs_runId sc) t (rt_preceding n) s else Inr ([], s)"
  obtain es s1 r1 where pre: "?pre = Inr (es, s1)" and r1: "get_run s1 (xs_runId sc) = Some r1"
    "r_status r1 = Running" "r_attempt r1 = a_ordinal a" and au: "db_audit s1 = db_audit s" and inv1: "store_inv s1"
  proof (cases "rt_kind n = RT_block")
    case True
    then show ?thesis
      using append_rejections_ok [OF inv r(1), of t "rt_preceding n"] append_rejections_inv [OF inv] r sc that
      by fastforce
  next
    case False
    then show ?thesis using r sc inv by (intro that [of "[]" s r]) simp_all
  qed
  obtain s2 where s2: "transitionRun uuid t (xs_runId sc) [Running] st ty (rt_data n) (rt_reason n)
      (Some (xs_ordinal sc)) s1 = Inr (Some \<lparr>e_runId = xs_runId sc, e_seq = r_lastEventSeq r1 + 1,
        e_attemptId = attemptId (xs_runId sc) (r_attempt r1), e_type = ty, e_data = rt_data n, e_createdAt = t\<rparr>, s2)"
    using transitionRun_ok [OF inv1 r1(1), of "[Running]" "Some (xs_ordinal sc)" st uuid t ty "rt_data n" "rt_reason n"]
      r1 sc st fresh au by auto
  have "\<exists>r'. get_run s2 (xs_runId sc) = Some r' \<and> r_status r' = st"
    using inv1 s2 by (rule transitionRun_effect) (auto simp: moved_run_def)
  moreover have "transitionRuntime uuid t dbNow c f s = Inr ([terminalOutcome sc st
      \<lparr>e_runId = xs_runId sc, e_seq = r_lastEventSeq r1 + 1, e_attemptId = attemptId (xs_runId sc) (r_attempt r1),
       e_type = ty, e_data = rt_data n, e_createdAt = t\<rparr> es], s2)"
    using cmd f spec pre s2 by (simp add: transitionRuntime_def and_then_def fetch_def)
  ultimately show ?thesis
    using spec sc by (auto simp: terminalOutcome_def same_attempt_outcome_def)
qed

text \<open>A transition that succeeds held the fence.\<close>

lemma transitionRuntime_fenced:
  assumes "transitionRuntime uuid t dbNow c f s = Inr res"
  shows "fence_of s (xf_attemptId f) = xf_executionFence f"
    and "\<exists>l. get_lease s (xf_attemptId f) = Some l \<and> l_token l = xf_leaseToken f \<and> l_releasedAt l = None
           \<and> dbNow < l_leaseUntil l"
proof -
  from assms obtain sc where "validate dbNow f s = Inr sc" by (auto simp: transitionRuntime_def)
  then show "fence_of s (xf_attemptId f) = xf_executionFence f"
    "\<exists>l. get_lease s (xf_attemptId f) = Some l \<and> l_token l = xf_leaseToken f \<and> l_releasedAt l = None
       \<and> dbNow < l_leaseUntil l"
    by (auto elim!: validate_Inr simp: fence_of_def)
qed

section \<open>Bulk interruption\<close>

lemma interrupt_one_ok:
  assumes inv: "store_inv s" and run: "get_run s rid = Some r" "r_status r = Running"
    and fresh: "uuid \<notin> au_id ` set (db_audit s)"
  shows "\<exists>s' x. interrupt_one uuid t rid (r_attempt r) s = Inr s' \<and> db_audit s' = db_audit s @ [x] \<and> au_id x = uuid"
proof -
  let ?seq = "r_lastEventSeq r + 1"
  let ?e = "\<lparr>e_runId = rid, e_seq = ?seq, e_attemptId = attemptId rid (r_attempt r),
     e_type = ''restart.interruption'', e_data = JObj [(''reason'', JStr ''service_restart'')], e_createdAt = t\<rparr>"
  let ?f = "\<lambda>x. x\<lparr>r_status := Interrupted,
      r_blockedReason := ''Service restarted before the run reached a terminal state'',
      r_lastEventSeq := ?seq, r_updatedAt := t\<rparr>"
  let ?s1 = "s\<lparr>db_events := db_events s @ [?e]\<rparr>"
  let ?s3 = "park_checkpoint rid t (set_run rid (\<lambda>x. r_status x = Running) ?f ?s1)"
  have e: "insert_event ?e s = Inr ?s1" by (rule insert_event_ok [OF inv run(1)]) simp_all
  obtain a where a: "get_attempt s (attemptId rid (r_attempt r)) = Some a"
    using inv run(1) by (auto simp: store_inv_def elim: coherent_current)
  have nonneg: "0 \<le> ?seq" using inv run(1) by (auto simp: store_inv_def journal_ok_def dest!: get_run_SomeD)
  have audit: "db_audit ?s3 = db_audit s" by (simp add: park_checkpoint_def)
  have "attempts_ok (db_attempts ?s3)" using inv by (simp add: store_inv_def coherent_def)
  moreover have "get_attempt ?s3 (attemptId rid (r_attempt r)) = Some a" using a by (simp add: get_attempt_def)
  ultimately obtain s4 where s4: "projectAttempt uuid rid (r_attempt r) Trig_recovery A_interrupted
      ''recovery'' ''service_restart'' ?seq t ?s3 = Inr s4"
    using projectAttempt_ok [of ?s3 rid "r_attempt r" a A_interrupted ?seq uuid Trig_recovery "''recovery''"
        "''service_restart''" t] nonneg fresh audit by auto
  have runs: "db_runs s4 = upd (\<lambda>x. r_id x = rid) ?f (db_runs s)"
    using project_keeps(1) [OF s4] set_run_runs [OF inv run(1), of "\<lambda>x. r_status x = Running" ?s1] run(2) by simp
  have ids: "r_id (?f x) = r_id x" for x by simp
  have cps: "cp_moves rid (r_attempt r) (db_checkpoints s) (db_checkpoints s4)"
    using park_checkpoint_moves [of rid "r_attempt r" "set_run rid (\<lambda>x. r_status x = Running) ?f ?s1" t]
    by (simp add: project_keeps(3) [OF s4])
  obtain s5 where s5: "finalizeAttemptProjectionCheckpoint rid (attemptId rid (r_attempt r)) (r_attempt r)
      ?seq t s4 = Inr s5"
    using finalize_ok [OF inv run(1) refl runs ids cps] by blast
  obtain x where "db_audit s4 = db_audit ?s3 @ [x]" "au_id x = uuid"
    using s4 by (auto simp: projectAttempt_def Let_def statement_defs split: option.splits if_splits)
  with s5 finalize_keeps(4) [OF s5] audit run e s4 show ?thesis
    by (simp add: interrupt_one_def Let_def fetch_def and_then_def)
qed

lemma interrupt_one_runs:
  assumes inv: "store_inv s" and r: "get_run s rid = Some r" "r_status r = Running" "r_attempt r = n"
    and run: "interrupt_one uuid t rid n s = Inr s'"
  shows "\<exists>f. db_runs s' = upd (\<lambda>x. r_id x = rid) f (db_runs s) \<and> (\<forall>x. r_status (f x) = Interrupted
     \<and> r_id (f x) = r_id x \<and> r_attempt (f x) = r_attempt x)"
proof -
  let ?f = "\<lambda>x. x\<lparr>r_status := Interrupted,
      r_blockedReason := ''Service restarted before the run reached a terminal state'',
      r_lastEventSeq := r_lastEventSeq r + 1, r_updatedAt := t\<rparr>"
  from run r obtain e s1 s4 au where s1: "insert_event e s = Inr s1"
    and s4: "projectAttempt uuid rid n Trig_recovery A_interrupted ''recovery'' ''service_restart''
       (r_lastEventSeq r + 1) t (park_checkpoint rid t (set_run rid (\<lambda>x. r_status x = Running) ?f s1)) = Inr s4"
    and s5: "finalizeAttemptProjectionCheckpoint rid (attemptId rid n) n (r_lastEventSeq r + 1) t s4 = Inr s'"
    by (auto simp: interrupt_one_def Let_def)
  have "db_runs s' = upd (\<lambda>x. r_id x = rid) ?f (db_runs s)"
    using project_keeps(1) [OF s4] finalize_keeps(1) [OF s5]
    by (simp add: set_run_runs [OF inv r(1)] r insert_event_Inr [OF s1])
  then show ?thesis by (intro exI [of _ ?f]) simp
qed

text \<open>
  The listed runs are interrupted one after the other; the audit identifiers are taken
  from the supply, each once.
\<close>

lemma interrupt_all_ok:
  assumes "store_inv s" and "distinct (map fst xs)"
    and "\<forall>(rid, n) \<in> set xs. \<exists>r. get_run s rid = Some r \<and> r_status r = Running \<and> r_attempt r = n"
    and "inj uuid" and "\<forall>j. i \<le> j \<longrightarrow> uuid j \<notin> au_id ` set (db_audit s)"
  shows "\<exists>s'. interrupt_all uuid t i xs s = Inr s'
     \<and> (\<forall>r \<in> set (db_runs s'). r_status r = Running \<longrightarrow> r \<in> set (db_runs s) \<and> r_id r \<notin> fst ` set xs)"
  using assms
proof (induction xs arbitrary: i s)
  case Nil
  then show ?case by simp
next
  case (Cons x xs)
  obtain rid n where x: "x = (rid, n)" by (cases x)
  from Cons.prems(3) obtain r where r: "get_run s rid = Some r" "r_status r = Running" "r_attempt r = n"
    by (auto simp: x)
  obtain s1 au where s1: "interrupt_one (uuid i) t rid n s = Inr s1"
    and audit: "db_audit s1 = db_audit s @ [au]" "au_id au = uuid i"
    using interrupt_one_ok [OF Cons.prems(1) r(1,2), of "uuid i" t] Cons.prems(5) r(3) by auto
  note one = interrupt_one_inv [OF Cons.prems(1) r s1]
  obtain f where f: "db_runs s1 = upd (\<lambda>x. r_id x = rid) f (db_runs s)" "\<And>x. r_status (f x) = Interrupted"
    using interrupt_one_runs [OF Cons.prems(1) r s1] by blast
  have "get_run s1 (fst y) = get_run s (fst y)" if "y \<in> set xs" for y
    using that Cons.prems(2) x by (intro one(2)) force
  with Cons.prems(2,3) have "\<forall>(rid, n) \<in> set xs. \<exists>r. get_run s1 rid = Some r \<and> r_status r = Running \<and> r_attempt r = n"
    by fastforce
  moreover have "\<forall>j. Suc i \<le> j \<longrightarrow> uuid j \<notin> au_id ` set (db_audit s1)"
    using Cons.prems(4,5) audit by (auto simp: inj_eq)
  ultimately obtain s' where s': "interrupt_all uuid t (Suc i) xs s1 = Inr s'"
    "\<forall>r \<in> set (db_runs s'). r_status r = Running \<longrightarrow> r \<in> set (db_runs s1) \<and> r_id r \<notin> fst ` set xs"
    using Cons.IH [OF one(1) _ _ Cons.prems(4), of "Suc i"] Cons.prems(2) by auto
  have "r \<in> set (db_runs s) \<and> r_id r \<noteq> rid" if "r \<in> set (db_runs s1)" "r_status r = Running" for r
    using that f(2) by (auto simp: f(1) set_upd split: if_splits)
  with s' s1 show ?case by (auto simp: x and_then_def)
qed

lemma markInterrupted_ok:
  assumes inv: "store_inv s" and u: "inj uuid" "\<forall>j. uuid j \<notin> au_id ` set (db_audit s)"
  shows "\<exists>s'. markInterrupted uuid t s = Inr s' \<and> (\<forall>r \<in> set (db_runs s'). r_status r \<noteq> Running)"
proof -
  let ?xs = "map (\<lambda>r. (r_id r, r_attempt r)) (filter (\<lambda>r. r_status r = Running) (db_runs s))"
  have "distinct (map fst ?xs)"
    using distinct_map_filter [OF store_inv_distinct [OF inv], of "\<lambda>r. r_status r = Running"]
    by (simp add: comp_def)
  then obtain s1 where s1: "interrupt_all uuid t 0 ?xs s = Inr s1"
    "\<forall>r \<in> set (db_runs s1). r_status r = Running \<longrightarrow> r \<in> set (db_runs s) \<and> r_id r \<notin> fst ` set ?xs"
    using interrupt_all_ok [OF inv, of ?xs uuid 0 t] u get_run_mem [OF store_inv_distinct [OF inv]] by auto
  then have "r_status r \<noteq> Running" if "r \<in> set (db_runs s1)" for r
    using that by (auto simp: image_iff)
  then have "\<forall>r \<in> set (db_runs (refresh_waiting t s1)). r_status r \<noteq> Running"
    by (auto simp: refresh_waiting_def set_upd)
  with s1(1) show ?thesis by (simp add: markInterrupted_def and_then_def)
qed

text \<open>The Attempt of a run at its current ordinal, found by the join of the lifecycle query.\<close>

lemma getAttemptForRun_current:
  assumes inv: "store_inv s" and r: "r \<in> set (db_runs s)"
  obtains a where "getAttemptForRun s (r_id r) (r_attempt r) = Some a"
    "a_id a = attemptId (r_id r) (r_attempt r)" "a_active a = isActiveAttemptStatus (a_status a)"
    "status_agrees (r_status r) (a_status a)"
proof -
  have coh: "coherent s" using inv by (simp add: store_inv_def)
  have run: "get_run s (r_id r) = Some r" using r store_inv_distinct [OF inv] by (simp add: get_run_mem)
  obtain a where a: "a \<in> set (db_attempts s)" "a_runId a = r_id r" "a_ordinal a = r_attempt r"
    "status_agrees (r_status r) (a_status a)"
    using coh run by (rule coherent_current)
  obtain b where b: "getAttemptForRun s (r_id r) (r_attempt r) = Some b"
    using a(1-3) by (cases "getAttemptForRun s (r_id r) (r_attempt r)")
      (auto simp: getAttemptForRun_def dest: find_NoneD)
  then have "b = a" using attempt_unique [OF coh _ a(1)] a(2,3)
    by (auto simp: getAttemptForRun_def dest!: find_SomeD)
  with b a coh coherent_active [OF coh a(1)] that show ?thesis
    by (auto simp: coherent_def attempt_placed_def)
qed

lemma interruptible_ok:
  assumes "store_inv s" and "set rs \<subseteq> set (db_runs s)"
    and "\<forall>r \<in> set rs. \<forall>a. getAttemptForRun s (r_id r) (r_attempt r) = Some a \<longrightarrow> a_status a = A_running"
  shows "\<exists>scs. interruptible s rs = Inr scs \<and> map ss_runId scs = map r_id rs"
  using assms(2,3)
proof (induction rs)
  case Nil
  then show ?case by simp
next
  case (Cons r rs)
  then have r: "r \<in> set (db_runs s)" by simp
  obtain a where a: "getAttemptForRun s (r_id r) (r_attempt r) = Some a"
    "a_id a = attemptId (r_id r) (r_attempt r)" "a_active a = isActiveAttemptStatus (a_status a)"
    "status_agrees (r_status r) (a_status a)"
    using assms(1) r by (rule getAttemptForRun_current)
  have st: "a_status a = A_running" using Cons.prems(2) a(1) by auto
  have ne: "a_id a \<noteq> ''''" using a(2) by (simp add: attemptId_def)
  obtain scs where "interruptible s rs = Inr scs" "map ss_runId scs = map r_id rs" using Cons by auto
  with a st ne show ?case by (simp add: fetch_def require_def and_then_def)
qed

lemma interruptible_settling:
  assumes "r \<in> set rs" and "getAttemptForRun s (r_id r) (r_attempt r) = Some a" and "a_status a \<noteq> A_running"
  shows "\<exists>e. interruptible s rs = Inl e"
  using assms(1)
proof (induction rs)
  case (Cons x rs)
  show ?case
  proof (cases "interruptible s (x # rs)")
    case (Inr scs)
    with Cons assms(2,3) show ?thesis by auto
  qed auto
qed simp

definition startup_command :: jsval where
  "startup_command = JObj [(''kind'', JStr ''startup_interrupt_active'')]"

definition startup_authority :: jsval where
  "startup_authority =
     JObj [(''kind'', JStr ''lifecycle_interrupt''), (''component'', JStr ''execution_lifecycle_service''),
           (''phase'', JStr ''startup'')]"

lemma startup_validates:
  "validateSystemCommand startup_command = Inr SC_startup_interrupt_active"
  "validateSystemAuthority startup_authority = Inr SA_lifecycle_startup"
  by (simp_all add: validateSystemCommand_def validateSystemAuthority_def startup_command_def
      startup_authority_def asRecord_def js_get_def assertExactKeys_def require_def)

lemma startup_runs:
  "transitionSystem uuids t startup_command startup_authority s = interrupt_active uuids t s"
  by (simp add: transitionSystem_def startup_validates and_then_def require_def execute_system_def)

end
