(* ===== verification/Continuations.thy ===== *)
theory Continuations
  imports Transition_Progress
begin

text \<open>
  The continuation queue of \<open>adapters/persistence-sqlite/src/store.ts\<close>: a blocked run is
  continued by a queued row that a worker claims under a lease, which moves the run to its
  next Attempt. Expired and abandoned leases return the row to the queue and block the
  run again; safe crash recovery queues rows for interrupted runs.
\<close>

section \<open>Scheduling views\<close>

definition wake_times :: "int \<Rightarrow> db \<Rightarrow> int list" where
  "wake_times timestamp s =
     List.map_filter (\<lambda>n. if n_status n = Co_running then n_leaseUntil n else None) (db_continuations s)
     @ map (\<lambda>n. if timestamp < n_notBefore n then n_notBefore n else timestamp + 1000)
         (filter (\<lambda>n. n_status n = Co_queued) (db_continuations s))"

definition nextContinuationLeaseExpiry :: "int \<Rightarrow> db \<Rightarrow> int option" where
  "nextContinuationLeaseExpiry timestamp s =
     (case wake_times timestamp s of [] \<Rightarrow> None | w # ws \<Rightarrow> Some (fold min ws w))"

definition ownsContinuationLease :: "string \<Rightarrow> string \<Rightarrow> int \<Rightarrow> db \<Rightarrow> bool" where
  "ownsContinuationLease cid owner timestamp s =
     list_ex (\<lambda>n. n_id n = cid \<and> n_status n = Co_running \<and> n_leaseOwner n = owner
                \<and> (case n_leaseUntil n of None \<Rightarrow> False | Some u \<Rightarrow> timestamp < u)) (db_continuations s)"

definition listContinuations :: "db \<Rightarrow> string \<Rightarrow> continuation list" where
  "listContinuations s runId = sort_key n_ordinal (filter (\<lambda>n. n_runId n = runId) (db_continuations s))"

definition next_ordinal :: "db \<Rightarrow> string \<Rightarrow> int" where
  "next_ordinal s runId =
     fold max (map n_ordinal (filter (\<lambda>n. n_runId n = runId) (db_continuations s))) 0 + 1"

definition listSupervisorContinuationsNeedingReconcile :: "db \<Rightarrow> (string \<times> string) list" where
  "listSupervisorContinuationsNeedingReconcile s =
     map (\<lambda>d. (d_runId d, d_id d))
       (sort_key d_createdAt
         (filter (\<lambda>d. d_action d = Act_start_continuation \<and> d_status d = Dec_executed
                    \<and> list_ex (\<lambda>r. r_id r = d_runId d \<and> r_status r = Blocked \<and> r_attempt r = d_attempt d) (db_runs s)
                    \<and> \<not> list_ex (\<lambda>n. n_runId n = d_runId d \<and> co_active n) (db_continuations s)
                    \<and> \<not> list_ex (\<lambda>e. e_runId e = d_runId d \<and> e_type e = ''continuation.exhausted''
                                     \<and> d_createdAt d \<le> e_createdAt e) (db_events s))
           (db_decisions s)))"

section \<open>Queue, claim, renew, update, cancel\<close>

text \<open>A row as \<open>INSERT INTO run_continuations\<close> fills it.\<close>

definition queued_row :: "string \<Rightarrow> string \<Rightarrow> int \<Rightarrow> string \<Rightarrow> int \<Rightarrow> int \<Rightarrow> continuation" where
  "queued_row cid runId ordinal reason notBefore timestamp =
     \<lparr>n_id = cid, n_runId = runId, n_ordinal = ordinal, n_sourceAttemptId = None,
      n_scheduledAttemptId = None, n_status = Co_queued, n_reason = reason, n_error = '''',
      n_notBefore = notBefore, n_createdAt = timestamp, n_startedAt = None, n_completedAt = None,
      n_leaseOwner = '''', n_leaseUntil = None, n_heartbeatAt = None\<rparr>"

definition insert_continuation :: "continuation \<Rightarrow> db \<Rightarrow> store_error + db" where
  "insert_continuation n s =
     require (has_run s (n_runId n)) (Sql_constraint ''run_continuations.run_id'')
       (put_continuations (db_continuations s @ [n]) s)"

definition queueContinuation ::
  "string \<Rightarrow> int \<Rightarrow> string \<Rightarrow> string \<Rightarrow> int \<Rightarrow> db \<Rightarrow> store_error + continuation \<times> db" where
  "queueContinuation uuid timestamp runId reason notBefore s =
     require (\<not> list_ex (\<lambda>n. n_runId n = runId \<and> co_active n) (db_continuations s))
       (Thrown ''Run already has an active continuation'')
    (let continuation = queued_row uuid runId (next_ordinal s runId) reason (max 0 notBefore) timestamp
     in and_then (insert_continuation continuation s) (\<lambda>s1. Inr (continuation, s1)))"

definition claimable :: "string \<Rightarrow> int \<Rightarrow> db \<Rightarrow> continuation option" where
  "claimable runId timestamp s =
     find (\<lambda>n. n_status n = Co_queued \<and> n_notBefore n \<le> timestamp) (listContinuations s runId)"

definition claimContinuation ::
  "string \<Rightarrow> int \<Rightarrow> string \<Rightarrow> string \<Rightarrow> int \<Rightarrow> db
   \<Rightarrow> store_error + (continuation \<times> task_run \<times> run_event) option \<times> db" where
  "claimContinuation uuid timestamp runId owner leaseMs s =
     (case claimable runId timestamp s of
        None \<Rightarrow> Inr (None, s)
      | Some c \<Rightarrow>
         (case get_run s runId of
            None \<Rightarrow> Inr (None, s)
          | Some run \<Rightarrow>
             if r_status run \<noteq> Blocked then Inr (None, s)
             else if list_ex (\<lambda>r. r_sessionId r = r_sessionId run \<and> r_id r \<noteq> runId \<and> r_status r = Running) (db_runs s)
             then Inr (None, s)
             else
               let leaseUntil = timestamp + leaseMs;
                   due = (\<lambda>n. n_id n = n_id c \<and> n_status n = Co_queued \<and> n_notBefore n \<le> timestamp)
               in and_then (put_continuations
                     (upd due (\<lambda>n. n\<lparr>n_status := Co_running, n_error := '''',
                                 n_startedAt := coalesce (n_startedAt n) timestamp, n_completedAt := None,
                                 n_leaseOwner := owner, n_leaseUntil := Some leaseUntil,
                                 n_heartbeatAt := Some timestamp\<rparr>) (db_continuations s)) s) (\<lambda>s1.
                  if cnt due (db_continuations s) \<noteq> 1 then Inr (None, s1)
                  else
                    let attempt = r_attempt run + 1;
                        seq = r_lastEventSeq run + 1;
                        aid = attemptId runId attempt;
                        event = \<lparr>e_runId = runId, e_seq = seq, e_attemptId = aid,
                                 e_type = ''continuation.started'',
                                 e_data = JObj [(''continuationId'', JStr (n_id c)),
                                                (''ordinal'', JNum (JInt (n_ordinal c))),
                                                (''attempt'', JNum (JInt attempt)), (''leaseOwner'', JStr owner),
                                                (''leaseUntil'', JNum (JInt leaseUntil))],
                                 e_createdAt = timestamp\<rparr>
                    in and_then (insert_event event s1) (\<lambda>s2.
                       require (run_changes runId (\<lambda>r. r_status r = Blocked) s2 = 1)
                         (Thrown ''Continuation claim lost its Run compare-and-set race'')
                      (let s3 = set_run runId (\<lambda>r. r_status r = Blocked)
                             (\<lambda>r. r\<lparr>r_status := Running,
                                    r_phase := (if r_phase r = Ph_blocked then Ph_implement else r_phase r),
                                    r_blockedReason := '''', r_completedAt := None, r_attempt := attempt,
                                    r_resumedAt := Some timestamp, r_updatedAt := timestamp,
                                    r_lastEventSeq := seq\<rparr>) s2;
                           s4 = s3\<lparr>db_continuations := upd (\<lambda>n. n_id n = n_id c)
                             (\<lambda>n. n\<lparr>n_sourceAttemptId := Some (attemptId runId (attempt - 1)),
                                    n_scheduledAttemptId := Some aid\<rparr>) (db_continuations s3)\<rparr>
                       in and_then (projectAttempt uuid runId attempt Trig_continuation A_running
                              ''continuation'' '''' seq timestamp s4) (\<lambda>s5.
                          fetch (find (\<lambda>n. n_id n = n_id c) (listContinuations s5 runId))
                            (Type_error ''continuation is undefined'') (\<lambda>c'.
                          fetch (get_run s5 runId) (Type_error ''run is undefined'') (\<lambda>run'.
                          Inr (Some (c', run', event), s5)))))))))"

definition renewContinuationLease :: "int \<Rightarrow> string \<Rightarrow> string \<Rightarrow> int \<Rightarrow> db \<Rightarrow> bool \<times> db" where
  "renewContinuationLease timestamp cid owner leaseMs s =
     (let held = (\<lambda>n. n_id n = cid \<and> n_status n = Co_running \<and> n_leaseOwner n = owner
                    \<and> (case n_leaseUntil n of None \<Rightarrow> False | Some u \<Rightarrow> timestamp < u))
      in (cnt held (db_continuations s) = 1,
          s\<lparr>db_continuations := upd held
             (\<lambda>n. n\<lparr>n_leaseUntil := Some (timestamp + leaseMs), n_heartbeatAt := Some timestamp\<rparr>)
             (db_continuations s)\<rparr>))"

definition continuation_over :: "continuation_status \<Rightarrow> bool" where
  "continuation_over st = (st \<in> {Co_completed, Co_blocked, Co_failed, Co_cancelled})"

definition updateContinuation ::
  "int \<Rightarrow> string \<Rightarrow> continuation_status \<Rightarrow> string \<Rightarrow> string option \<Rightarrow> db \<Rightarrow> store_error + bool \<times> db" where
  "updateContinuation timestamp cid status err owner s =
     (let held = (\<lambda>n. n_id n = cid \<and> (case owner of None \<Rightarrow> True | Some w \<Rightarrow> n_leaseOwner n = w))
      in and_then (put_continuations (upd held
            (\<lambda>n. n\<lparr>n_status := status, n_error := err,
                   n_startedAt := (if status = Co_running then coalesce (n_startedAt n) timestamp else n_startedAt n),
                   n_completedAt := (if continuation_over status then Some timestamp else n_completedAt n),
                   n_leaseOwner := (if status = Co_running then n_leaseOwner n else ''''),
                   n_leaseUntil := (if status = Co_running then n_leaseUntil n else None),
                   n_heartbeatAt := (if status = Co_running then n_heartbeatAt n else None)\<rparr>)
            (db_continuations s)) s) (\<lambda>s1. Inr (cnt held (db_continuations s) = 1, s1)))"

definition cancelQueuedContinuations :: "int \<Rightarrow> string \<Rightarrow> string \<Rightarrow> db \<Rightarrow> db" where
  "cancelQueuedContinuations timestamp runId reason s =
     s\<lparr>db_continuations := upd (\<lambda>n. n_runId n = runId \<and> n_status n = Co_queued)
        (\<lambda>n. n\<lparr>n_status := Co_cancelled, n_error := reason, n_completedAt := Some timestamp\<rparr>)
        (db_continuations s)\<rparr>"

section \<open>Returning leases to the queue\<close>

definition requeued :: "string \<Rightarrow> continuation \<Rightarrow> continuation" where
  "requeued err n =
     n\<lparr>n_status := Co_queued, n_error := err, n_startedAt := None, n_completedAt := None,
       n_leaseOwner := '''', n_leaseUntil := None, n_heartbeatAt := None\<rparr>"

text \<open>
  The repair the three release operations share: block the run when it is running,
  interrupted or blocked, park its checkpoint, and project its Attempt as blocked.
\<close>

definition block_for_continuation ::
  "string \<Rightarrow> int \<Rightarrow> string \<Rightarrow> int \<Rightarrow> int \<Rightarrow> string \<Rightarrow> db \<Rightarrow> store_error + db" where
  "block_for_continuation uuid timestamp runId ordinal lastEventSeq reason s =
     (let s1 = set_run runId (\<lambda>r. r_status r \<in> {Running, Interrupted, Blocked})
            (\<lambda>r. r\<lparr>r_status := Blocked, r_phase := Ph_blocked, r_blockedReason := reason,
                   r_completedAt := None, r_updatedAt := timestamp\<rparr>) s;
          s2 = park_checkpoint runId timestamp s1
      in projectAttempt uuid runId ordinal Trig_recovery A_blocked ''recovery'' reason lastEventSeq timestamp s2)"

definition run_of :: "db \<Rightarrow> continuation \<Rightarrow> task_run option" where
  "run_of s n = get_run s (n_runId n)"

definition lease_expired :: "int \<Rightarrow> continuation \<Rightarrow> bool" where
  "lease_expired timestamp n =
     (n_status n = Co_running \<and> (case n_leaseUntil n of None \<Rightarrow> True | Some u \<Rightarrow> u \<le> timestamp))"

text \<open>The rows of the recovery query: due queued rows and expired running rows, with their run.\<close>

definition recovery_rows :: "int \<Rightarrow> db \<Rightarrow> (continuation \<times> task_run) list" where
  "recovery_rows timestamp s =
     List.map_filter (\<lambda>n. map_option (Pair n) (run_of s n))
       (sort_key n_createdAt
         (filter (\<lambda>n. n_status n = Co_queued \<and> n_notBefore n \<le> timestamp \<or> lease_expired timestamp n)
           (db_continuations s)))"

fun recover_rows :: "(nat \<Rightarrow> string) \<Rightarrow> int \<Rightarrow> nat \<Rightarrow> (continuation \<times> task_run) list \<Rightarrow> db \<Rightarrow> store_error + db" where
  "recover_rows uuids timestamp i [] s = Inr s"
| "recover_rows uuids timestamp i ((n, r) # rest) s =
     (if n_status n = Co_queued then recover_rows uuids timestamp i rest s
      else and_then (put_continuations
             (upd (\<lambda>x. n_id x = n_id n) (requeued ''Recovered after lease expiry'') (db_continuations s)) s) (\<lambda>s1.
           and_then (block_for_continuation (uuids i) timestamp (n_runId n) (r_attempt r) (r_lastEventSeq r)
             ''Continuation recovered after service restart'' s1)
             (recover_rows uuids timestamp (Suc i) rest)))"

definition recoverContinuationsAfterRestart ::
  "(nat \<Rightarrow> string) \<Rightarrow> int \<Rightarrow> db \<Rightarrow> store_error + (string \<times> string \<times> int) list \<times> db" where
  "recoverContinuationsAfterRestart uuids timestamp s =
     (let active = recovery_rows timestamp s
      in and_then (recover_rows uuids timestamp 0 active s) (\<lambda>s1.
         Inr (map (\<lambda>(n, _). (n_id n, n_runId n, n_ordinal n)) active, s1)))"

definition release_one ::
  "string \<Rightarrow> int \<Rightarrow> string \<Rightarrow> string \<Rightarrow> continuation \<Rightarrow> task_run \<Rightarrow> db \<Rightarrow> store_error + db" where
  "release_one uuid timestamp owner reason n r s =
     and_then (put_continuations
       (upd (\<lambda>x. n_id x = n_id n \<and> n_status x = Co_running \<and> n_leaseOwner x = owner) (requeued reason)
         (db_continuations s)) s)
       (block_for_continuation uuid timestamp (n_runId n) (r_attempt r) (r_lastEventSeq r) reason)"

fun release_rows ::
  "(nat \<Rightarrow> string) \<Rightarrow> int \<Rightarrow> string \<Rightarrow> string \<Rightarrow> nat \<Rightarrow> (continuation \<times> task_run) list \<Rightarrow> db \<Rightarrow> store_error + db" where
  "release_rows uuids timestamp owner reason i [] s = Inr s"
| "release_rows uuids timestamp owner reason i ((n, r) # rest) s =
     and_then (release_one (uuids i) timestamp owner reason n r s)
       (release_rows uuids timestamp owner reason (Suc i) rest)"

definition releaseContinuationLeases ::
  "(nat \<Rightarrow> string) \<Rightarrow> int \<Rightarrow> string \<Rightarrow> string \<Rightarrow> db \<Rightarrow> store_error + (string \<times> string \<times> int) list \<times> db" where
  "releaseContinuationLeases uuids timestamp owner reason s =
     (let active = List.map_filter (\<lambda>n. map_option (Pair n) (run_of s n))
            (sort_key n_createdAt
              (filter (\<lambda>n. n_status n = Co_running \<and> n_leaseOwner n = owner) (db_continuations s)))
      in and_then (release_rows uuids timestamp owner reason 0 active s) (\<lambda>s1.
         Inr (map (\<lambda>(n, _). (n_id n, n_runId n, n_ordinal n)) active, s1)))"

definition releaseContinuationLease ::
  "string \<Rightarrow> int \<Rightarrow> string \<Rightarrow> string \<Rightarrow> string \<Rightarrow> db \<Rightarrow> store_error + (string \<times> string \<times> int) option \<times> db" where
  "releaseContinuationLease uuid timestamp cid owner reason s =
     (let held = (\<lambda>n. n_id n = cid \<and> n_status n = Co_running \<and> n_leaseOwner n = owner)
      in case find held (db_continuations s) of
           None \<Rightarrow> Inr (None, s)
         | Some n \<Rightarrow>
             (case run_of s n of
                None \<Rightarrow> Inr (None, s)
              | Some r \<Rightarrow>
                  and_then (put_continuations (upd held (requeued reason) (db_continuations s)) s) (\<lambda>s1.
                  if cnt held (db_continuations s) \<noteq> 1 then Inr (None, s1)
                  else and_then (block_for_continuation uuid timestamp (n_runId n) (r_attempt r)
                         (r_lastEventSeq r) reason s1) (\<lambda>s2.
                       Inr (Some (n_id n, n_runId n, n_ordinal n), s2)))))"

section \<open>Restart reconciliation\<close>

definition terminal_event_of :: "db \<Rightarrow> supervisor_decision \<Rightarrow> bool" where
  "terminal_event_of s d =
     list_ex (\<lambda>e. e_runId e = d_runId d \<and> e_type e \<in> {''run.completed'', ''run.blocked''}
                \<and> json_extract (e_data e) ''supervisionDecisionId'' = Some (JStr (d_id d))) (db_events s)"

definition reconcileSupervisorDecisionStatuses :: "int \<Rightarrow> db \<Rightarrow> (nat \<times> nat) \<times> db" where
  "reconcileSupervisorDecisionStatuses now s =
     ((cnt (\<lambda>d. d_status d = Dec_proposed \<and> terminal_event_of s d) (db_decisions s),
       cnt (\<lambda>d. d_status d = Dec_proposed \<and> \<not> terminal_event_of s d) (db_decisions s)),
      s\<lparr>db_decisions := upd (\<lambda>d. d_status d = Dec_proposed)
         (\<lambda>d. if terminal_event_of s d
              then d\<lparr>d_status := Dec_executed, d_executedAt := coalesce (d_executedAt d) now\<rparr>
              else d\<lparr>d_status := Dec_superseded,
                     d_error := ''Service restarted before decision execution completed''\<rparr>)
         (db_decisions s)\<rparr>)"

text \<open>The newest \<open>restart.interruption\<close> event of a run.\<close>

definition interruptions :: "db \<Rightarrow> string \<Rightarrow> run_event list" where
  "interruptions s runId =
     filter (\<lambda>e. e_runId e = runId \<and> e_type e = ''restart.interruption'') (db_events s)"

definition latest_interruption :: "db \<Rightarrow> string \<Rightarrow> run_event option" where
  "latest_interruption s runId =
     (let es = interruptions s runId
      in find (\<lambda>e. list_all (\<lambda>e'. e_seq e' \<le> e_seq e) es) es)"

definition external_contract :: "task_run \<Rightarrow> bool" where
  "external_contract r =
     (case r_contract r of None \<Rightarrow> False
      | Some k \<Rightarrow> (case k_executionPolicy k of None \<Rightarrow> False
          | Some p \<Rightarrow> p_mode p = External_action \<or> p_sideEffectRisk p = Risk_external_high))"

definition safe_to_recover :: "int \<Rightarrow> db \<Rightarrow> task_run \<Rightarrow> bool" where
  "safe_to_recover maxRecoveries s r =
     (let rid = r_id r
      in r_status r = Interrupted
         \<and> \<not> external_contract r
         \<and> \<not> list_ex (\<lambda>p. ap_runId p = rid \<and> ap_actionType p = Ap_execute_external_action) (db_approvals s)
         \<and> \<not> list_ex (\<lambda>n. n_runId n = rid \<and> co_active n) (db_continuations s)
         \<and> \<not> list_ex (\<lambda>p. op_runId p = rid \<and> op_status p = ''outcome_unknown'') (db_operations s)
         \<and> \<not> list_ex (\<lambda>c. ci_runId c = rid \<and> ci_status c = Ctl_outcome_unknown) (db_controls s)
         \<and> \<not> list_ex (\<lambda>c. cr_taskRunId c = rid \<and> cr_state c = Cmd_outcome_unknown) (db_commands s)
         \<and> \<not> list_ex (\<lambda>a. ta_runId a = rid \<and> ta_status a \<in> {''running'', ''outcome_unknown''}) (db_toolAttempts s)
         \<and> \<not> list_ex (\<lambda>u. u_runId u = rid \<and> u_status u = In_pending) (db_inputs s)
         \<and> \<not> list_ex (\<lambda>p. ap_runId p = rid \<and> ap_status p = Ap_pending) (db_approvals s)
         \<and> int (cnt (\<lambda>e. e_runId e = rid \<and> e_type e = ''continuation.queued''
                       \<and> json_extract (e_data e) ''reason'' = Some (JStr ''safe_crash_recovery'')) (db_events s))
           < maxRecoveries)"

definition crash_candidates :: "int \<Rightarrow> db \<Rightarrow> (task_run \<times> run_event) list" where
  "crash_candidates maxRecoveries s =
     sort_key (\<lambda>(r, e). e_createdAt e)
       (sort_key (\<lambda>(r, e). r_id r)
         (List.map_filter (\<lambda>r. map_option (Pair r) (latest_interruption s (r_id r)))
           (filter (safe_to_recover maxRecoveries s) (db_runs s))))"

definition crash_reason :: "int \<Rightarrow> string" where
  "crash_reason interruptionSeq =
     ''Core Generation crash recovery was proven safe.'' @ [CHR 0x0A]
     @ ''[crash-recovery:'' @ show_int interruptionSeq @ '']''"

definition queue_crash_recovery ::
  "string \<Rightarrow> string \<Rightarrow> int \<Rightarrow> task_run \<Rightarrow> run_event \<Rightarrow> db \<Rightarrow> store_error + (string \<times> string \<times> int) \<times> db" where
  "queue_crash_recovery cid uuid timestamp run interruption s =
     (let rid = r_id run;
          ordinal = next_ordinal s rid;
          reason = crash_reason (e_seq interruption);
          seq = r_lastEventSeq run + 1
      in and_then (insert_continuation (queued_row cid rid ordinal reason 0 timestamp) s) (\<lambda>s1.
         and_then (insert_event
            \<lparr>e_runId = rid, e_seq = seq, e_attemptId = attemptId rid (r_attempt run),
             e_type = ''continuation.queued'',
             e_data = JObj [(''continuationId'', JStr cid), (''ordinal'', JNum (JInt ordinal)),
                            (''reason'', JStr ''safe_crash_recovery''),
                            (''interruptionSeq'', JNum (JInt (e_seq interruption)))],
             e_createdAt = timestamp\<rparr> s1) (\<lambda>s2.
         let s3 = set_run rid (\<lambda>r. r_status r = Interrupted)
               (\<lambda>r. r\<lparr>r_status := Blocked, r_phase := Ph_blocked, r_blockedReason := reason,
                      r_completedAt := None, r_lastEventSeq := seq, r_updatedAt := timestamp\<rparr>) s2;
             s4 = park_checkpoint rid timestamp s3
         in and_then (projectAttempt uuid rid (r_attempt run) Trig_recovery A_blocked ''recovery'' reason
                seq timestamp s4) (\<lambda>s5.
            and_then (finalizeAttemptProjectionCheckpoint rid (attemptId rid (r_attempt run)) (r_attempt run)
                seq timestamp s5) (\<lambda>s6.
            Inr ((cid, rid, ordinal), s6))))))"

fun queue_crash_recoveries ::
  "(nat \<Rightarrow> string) \<Rightarrow> (nat \<Rightarrow> string) \<Rightarrow> int \<Rightarrow> nat \<Rightarrow> (task_run \<times> run_event) list \<Rightarrow> db
   \<Rightarrow> store_error + (string \<times> string \<times> int) list \<times> db" where
  "queue_crash_recoveries cids uuids timestamp i [] s = Inr ([], s)"
| "queue_crash_recoveries cids uuids timestamp i ((r, e) # rest) s =
     and_then (queue_crash_recovery (cids i) (uuids i) timestamp r e s) (\<lambda>(x, s1).
     and_then (queue_crash_recoveries cids uuids timestamp (Suc i) rest s1) (\<lambda>(xs, s2).
     Inr (x # xs, s2)))"

definition queueSafeCrashRecoveryContinuations ::
  "(nat \<Rightarrow> string) \<Rightarrow> (nat \<Rightarrow> string) \<Rightarrow> int \<Rightarrow> int \<Rightarrow> db \<Rightarrow> store_error + (string \<times> string \<times> int) list \<times> db" where
  "queueSafeCrashRecoveryContinuations cids uuids timestamp maxRecoveries s =
     require (safe_integer maxRecoveries \<and> 0 < maxRecoveries)
       (Type_error ''maxRecoveries must be a positive safe integer'')
       (queue_crash_recoveries cids uuids timestamp 0 (crash_candidates maxRecoveries s) s)"

section \<open>The invariant is kept\<close>

lemma store_inv_continuations [simp]: "store_inv (s\<lparr>db_continuations := x\<rparr>) = store_inv s"
  by (rule store_inv_cong) simp_all

lemma put_continuations_Inr:
  "put_continuations ns s = Inr s' \<longleftrightarrow> continuations_ok ns \<and> s' = s\<lparr>db_continuations := ns\<rparr>"
  by (auto simp: put_continuations_def)

lemma queueContinuation_inv:
  "store_inv s \<Longrightarrow> queueContinuation uuid t rid rs nb s = Inr (c, s') \<Longrightarrow> store_inv s'"
  by (auto simp: queueContinuation_def insert_continuation_def put_continuations_Inr Let_def)

lemma updateContinuation_inv:
  "store_inv s \<Longrightarrow> updateContinuation t cid st err ow s = Inr (b, s') \<Longrightarrow> store_inv s'"
  by (auto simp: updateContinuation_def put_continuations_Inr Let_def)

text \<open>
  Blocking the run of a returned lease keeps the invariant when the run is running,
  interrupted or blocked.
\<close>

lemma block_for_continuation_inv:
  assumes inv: "store_inv s" and r: "get_run s rid = Some r" "r_status r \<in> {Running, Interrupted, Blocked}"
    and ok: "block_for_continuation uuid t rid (r_attempt r) ev rs s = Inr s'"
  shows "store_inv s'" and "\<And>x. x \<noteq> rid \<Longrightarrow> get_run s' x = get_run s x"
    and "db_continuations s' = db_continuations s"
proof -
  let ?P = "\<lambda>x. r_status x \<in> {Running, Interrupted, Blocked}"
  let ?f = "\<lambda>x. x\<lparr>r_status := Blocked, r_phase := Ph_blocked, r_blockedReason := rs, r_completedAt := None,
      r_updatedAt := t\<rparr>"
  let ?s2 = "park_checkpoint rid t (set_run rid ?P ?f s)"
  have ok': "projectAttempt uuid rid (r_attempt r) Trig_recovery A_blocked ''recovery'' rs ev t ?s2 = Inr s'"
    using ok by (simp add: block_for_continuation_def Let_def)
  obtain au where s': "s' = ?s2\<lparr>db_attempts := projected_rows rid (r_attempt r) Trig_recovery A_blocked ev t (db_attempts ?s2),
      db_audit := db_audit ?s2 @ [au]\<rparr>"
    and okA: "attempts_ok (projected_rows rid (r_attempt r) Trig_recovery A_blocked ev t (db_attempts ?s2))"
    using ok' by (rule projectAttempt_Inr)
  have inv': "coherent s" "journal_ok s" "checkpoints_ok s" using inv by (simp_all add: store_inv_def)
  have rid: "r \<in> set (db_runs s)" "r_id r = rid" using r by (auto dest: get_run_SomeD)
  have only: "x = r" if "x \<in> set (db_runs s)" "r_id x = rid" for x
    using that r store_inv_distinct [OF inv] by (auto simp: get_run_def dest: find_key_unique)
  let ?F = "\<lambda>x. if r_id x = rid then ?f x else x"
  have runs: "db_runs s' = upd (\<lambda>x. r_id x = rid) ?f (db_runs s)"
    using set_run_runs [OF inv r(1), where ?s1.0 = s and P = ?P and f = ?f] r(2) by (simp add: s')
  then have maps: "db_runs s' = map ?F (db_runs s)" by (simp add: upd_def)
  have "coherent s'"
    by (rule coherent_project [OF inv'(1) r(1) runs]) (use rid okA in \<open>simp_all add: s'\<close>)
  moreover have "journal_ok s'"
    by (rule journal_no_event [OF inv'(2) maps]) (simp_all add: s')
  moreover have "checkpoints_ok s'"
    by (rule checkpoints_step [where F = ?F and rid = rid and n = "r_attempt r", OF inv'(3) maps _ _ rid])
      (use park_checkpoint_moves [of rid "r_attempt r" "set_run rid ?P ?f s" t] in \<open>simp_all add: s'\<close>)
  ultimately show "store_inv s'" by (simp add: store_inv_def)
  show "get_run s' x = get_run s x" if "x \<noteq> rid" for x
    unfolding get_run_def runs by (rule find_upd_other) (use that in auto)
  show "db_continuations s' = db_continuations s" by (simp add: s' park_checkpoint_def set_run_def)
qed

text \<open>Claiming moves the run to its next Attempt.\<close>

definition claimed_run :: "int \<Rightarrow> task_run \<Rightarrow> task_run \<Rightarrow> task_run" where
  "claimed_run timestamp run r =
     r\<lparr>r_status := Running, r_phase := (if r_phase r = Ph_blocked then Ph_implement else r_phase r),
       r_blockedReason := '''', r_completedAt := None, r_attempt := r_attempt run + 1,
       r_resumedAt := Some timestamp, r_updatedAt := timestamp, r_lastEventSeq := r_lastEventSeq run + 1\<rparr>"

definition claimed_row :: "int \<Rightarrow> string \<Rightarrow> int \<Rightarrow> continuation \<Rightarrow> continuation" where
  "claimed_row timestamp owner leaseMs n =
     n\<lparr>n_status := Co_running, n_error := '''', n_startedAt := coalesce (n_startedAt n) timestamp,
       n_completedAt := None, n_leaseOwner := owner, n_leaseUntil := Some (timestamp + leaseMs),
       n_heartbeatAt := Some timestamp\<rparr>"

lemma claim_Inr:
  assumes "claimContinuation uuid t rid ow ms s = Inr (Some (c', run', ev), s')"
  obtains c run s1 s2 where "claimable rid t s = Some c" "get_run s rid = Some run" "r_status run = Blocked"
    "\<not> list_ex (\<lambda>r. r_sessionId r = r_sessionId run \<and> r_id r \<noteq> rid \<and> r_status r = Running) (db_runs s)"
    "continuations_ok (db_continuations s1)"
    "s1 = s\<lparr>db_continuations := upd (\<lambda>n. n_id n = n_id c \<and> n_status n = Co_queued \<and> n_notBefore n \<le> t)
        (claimed_row t ow ms) (db_continuations s)\<rparr>"
    "e_runId ev = rid" "e_seq ev = r_lastEventSeq run + 1" "insert_event ev s1 = Inr s2"
    "projectAttempt uuid rid (r_attempt run + 1) Trig_continuation A_running ''continuation'' ''''
       (r_lastEventSeq run + 1) t
       ((set_run rid (\<lambda>r. r_status r = Blocked) (claimed_run t run) s2)\<lparr>db_continuations :=
          upd (\<lambda>n. n_id n = n_id c) (\<lambda>n. n\<lparr>n_sourceAttemptId := Some (attemptId rid (r_attempt run)),
             n_scheduledAttemptId := Some (attemptId rid (r_attempt run + 1))\<rparr>) (db_continuations s2)\<rparr>) = Inr s'"
    "find (\<lambda>n. n_id n = n_id c) (listContinuations s' rid) = Some c'" "get_run s' rid = Some run'"
  using assms
  unfolding claimContinuation_def claimed_row_def [abs_def] claimed_run_def [abs_def] Let_def
  by (auto simp: put_continuations_Inr set_run_def split: option.splits if_splits intro: that)

lemma claim_None_same:
  "claimContinuation uuid t rid ow ms s = Inr (None, s') \<Longrightarrow> \<exists>x. s' = s\<lparr>db_continuations := x\<rparr>"
  unfolding claimContinuation_def Let_def
  by (auto simp: put_continuations_Inr split: option.splits if_splits intro: exI [of _ "db_continuations s"])

lemma claimContinuation_inv:
  assumes inv: "store_inv s" and ok: "claimContinuation uuid t rid ow ms s = Inr (res, s')"
  shows "store_inv s'"
proof (cases res)
  case None
  with claim_None_same ok inv show ?thesis by fastforce
next
  case (Some x)
  obtain c' run' ev where "x = (c', run', ev)" by (cases x)
  with Some ok have "claimContinuation uuid t rid ow ms s = Inr (Some (c', run', ev), s')" by simp
  then obtain c run s1 s2 where "claimable rid t s = Some c"
    and run: "get_run s rid = Some run" "r_status run = Blocked"
    and s1: "s1 = s\<lparr>db_continuations := upd (\<lambda>n. n_id n = n_id c \<and> n_status n = Co_queued \<and> n_notBefore n \<le> t)
        (claimed_row t ow ms) (db_continuations s)\<rparr>"
    and ev: "e_runId ev = rid" "e_seq ev = r_lastEventSeq run + 1" and s2: "insert_event ev s1 = Inr s2"
    and p: "projectAttempt uuid rid (r_attempt run + 1) Trig_continuation A_running ''continuation'' ''''
       (r_lastEventSeq run + 1) t
       ((set_run rid (\<lambda>r. r_status r = Blocked) (claimed_run t run) s2)\<lparr>db_continuations :=
          upd (\<lambda>n. n_id n = n_id c) (\<lambda>n. n\<lparr>n_sourceAttemptId := Some (attemptId rid (r_attempt run)),
             n_scheduledAttemptId := Some (attemptId rid (r_attempt run + 1))\<rparr>) (db_continuations s2)\<rparr>) = Inr s'"
    (is "projectAttempt _ _ _ _ _ _ _ _ _ ?s4 = _")
    by (rule claim_Inr)
  obtain au where s': "s' = ?s4\<lparr>db_attempts := projected_rows rid (r_attempt run + 1) Trig_continuation A_running
        (r_lastEventSeq run + 1) t (db_attempts ?s4), db_audit := db_audit ?s4 @ [au]\<rparr>"
    and okA: "attempts_ok (projected_rows rid (r_attempt run + 1) Trig_continuation A_running
        (r_lastEventSeq run + 1) t (db_attempts ?s4))"
    using p by (rule projectAttempt_Inr)
  have rid: "r_id run = rid" using run by (auto dest: get_run_SomeD)
  have runs: "db_runs s' = upd (\<lambda>x. r_id x = rid) (claimed_run t run) (db_runs s)"
    using set_run_runs [OF inv run(1), where P = "\<lambda>r. r_status r = Blocked" and ?s1.0 = s2] run(2)
    by (simp add: s' insert_event_Inr [OF s2] s1)
  show ?thesis
    by (rule store_inv_next_attempt [where new = "[ev]", OF inv run(1) runs])
      (use rid ev okA in \<open>simp_all add: claimed_run_def s' insert_event_Inr [OF s2] s1\<close>)
qed

text \<open>The continuation rows whose lease a release returns: running rows, at most one per run.\<close>

definition leases_recoverable :: "db \<Rightarrow> bool" where
  "leases_recoverable s =
     (\<forall>n \<in> set (db_continuations s). n_status n = Co_running \<longrightarrow>
        (\<forall>r. get_run s (n_runId n) = Some r \<longrightarrow> r_status r \<in> {Running, Interrupted, Blocked}))"

lemma store_inv_put_continuations:
  "store_inv s \<Longrightarrow> put_continuations ns s = Inr s' \<Longrightarrow> store_inv s' \<and> (\<forall>x. get_run s' x = get_run s x)"
  by (auto simp: put_continuations_Inr get_run_def)

lemma recover_rows_inv:
  assumes "store_inv s" and "distinct (map (\<lambda>(n, r). n_runId n) (filter (\<lambda>(n, r). n_status n \<noteq> Co_queued) xs))"
    and "\<forall>(n, r) \<in> set xs. n_status n \<noteq> Co_queued \<longrightarrow>
           get_run s (n_runId n) = Some r \<and> r_status r \<in> {Running, Interrupted, Blocked}"
    and "recover_rows uuids t i xs s = Inr s'"
  shows "store_inv s'"
  using assms
proof (induction xs arbitrary: i s)
  case Nil
  then show ?case by simp
next
  case (Cons x xs)
  obtain n r where x: "x = (n, r)" by (cases x)
  show ?case
  proof (cases "n_status n = Co_queued")
    case True
    with Cons x show ?thesis by auto
  next
    case False
    with Cons.prems(4) x obtain s1 s2 where
      s1: "put_continuations (upd (\<lambda>y. n_id y = n_id n) (requeued ''Recovered after lease expiry'') (db_continuations s)) s = Inr s1"
      and s2: "block_for_continuation (uuids i) t (n_runId n) (r_attempt r) (r_lastEventSeq r)
         ''Continuation recovered after service restart'' s1 = Inr s2"
      and rest: "recover_rows uuids t (Suc i) xs s2 = Inr s'"
      by auto
    from store_inv_put_continuations [OF Cons.prems(1) s1] have i1: "store_inv s1" "\<And>y. get_run s1 y = get_run s y" by auto
    have r: "get_run s1 (n_runId n) = Some r" "r_status r \<in> {Running, Interrupted, Blocked}"
      using Cons.prems(3) False x i1(2) by auto
    note b = block_for_continuation_inv [OF i1(1) r s2]
    have "n_runId n \<notin> (\<lambda>(n, r). n_runId n) ` set (filter (\<lambda>(n, r). n_status n \<noteq> Co_queued) xs)"
      using Cons.prems(2) False x by (simp add: image_iff)
    then have other: "get_run s2 (n_runId m) = get_run s (n_runId m)" if "(m, q) \<in> set xs" "n_status m \<noteq> Co_queued" for m q
      using that b(2) [of "n_runId m"] i1(2) by (force simp: image_iff)
    show ?thesis
    proof (rule Cons.IH [OF b(1) _ _ rest])
      show "distinct (map (\<lambda>(n, r). n_runId n) (filter (\<lambda>(n, r). n_status n \<noteq> Co_queued) xs))"
        using Cons.prems(2) by (simp split: if_splits)
      show "\<forall>(n, r)\<in>set xs. n_status n \<noteq> Co_queued \<longrightarrow>
          get_run s2 (n_runId n) = Some r \<and> r_status r \<in> {Running, Interrupted, Blocked}"
        using Cons.prems(3) other by fastforce
    qed
  qed
qed

lemma distinct_map_sort: "distinct (map f (sort_key k xs)) = distinct (map f xs)"
  by (simp add: distinct_map)

lemma running_rows_distinct:
  "continuations_ok ns \<Longrightarrow> distinct (map n_runId (filter (\<lambda>n. n_status n = Co_running \<and> Q n) ns))"
proof -
  assume "continuations_ok ns"
  then have "distinct (map n_runId (filter (\<lambda>n. n_status n = Co_running \<and> Q n) (filter co_active ns)))"
    using distinct_map_filter [of n_runId "filter co_active ns" "\<lambda>n. n_status n = Co_running \<and> Q n"]
    by (simp only: continuations_ok_def)
  moreover have "filter (\<lambda>n. n_status n = Co_running \<and> Q n) (filter co_active ns) =
      filter (\<lambda>n. n_status n = Co_running \<and> Q n) ns"
    by (auto simp: co_active_def intro!: filter_cong)
  ultimately show ?thesis by simp
qed

lemma with_run_pairs:
  "List.map_filter (\<lambda>x. map_option (Pair x) (f x)) xs = map (\<lambda>x. (x, the (f x))) (filter (\<lambda>x. f x \<noteq> None) xs)"
  by (induction xs) auto

lemma with_run_mem:
  "(n, r) \<in> set (List.map_filter (\<lambda>n. map_option (Pair n) (run_of s n)) ns) \<longleftrightarrow>
   n \<in> set ns \<and> get_run s (n_runId n) = Some r"
  unfolding with_run_pairs by (force simp: run_of_def)

lemma leases_recoverableD:
  "leases_recoverable s \<Longrightarrow> n \<in> set (db_continuations s) \<Longrightarrow> n_status n = Co_running \<Longrightarrow>
   get_run s (n_runId n) = Some r \<Longrightarrow> r_status r \<in> {Running, Interrupted, Blocked}"
  unfolding leases_recoverable_def by metis

lemma recovery_rows_distinct:
  assumes "continuations_ok (db_continuations s)"
  shows "distinct (map (\<lambda>(n, r). n_runId n) (filter (\<lambda>(n, r). n_status n \<noteq> Co_queued) (recovery_rows t s)))"
proof -
  let ?ns = "filter (\<lambda>n. n_status n = Co_running \<and> lease_expired t n \<and> run_of s n \<noteq> None) (db_continuations s)"
  have "filter (\<lambda>n. n_status n \<noteq> Co_queued) (filter (\<lambda>n. run_of s n \<noteq> None)
      (filter (\<lambda>n. n_status n = Co_queued \<and> n_notBefore n \<le> t \<or> lease_expired t n) (db_continuations s))) = ?ns"
    by (auto simp: lease_expired_def intro!: filter_cong)
  then have "map (\<lambda>(n, r). n_runId n) (filter (\<lambda>(n, r). n_status n \<noteq> Co_queued) (recovery_rows t s)) =
      map n_runId (sort_key n_createdAt ?ns)"
    unfolding recovery_rows_def with_run_pairs
    by (simp add: filter_map comp_def split_def filter_sort del: filter_filter)
  then show ?thesis using running_rows_distinct [OF assms] by (simp add: distinct_map_sort)
qed

lemma recoverContinuationsAfterRestart_inv:
  assumes inv: "store_inv s" and cont: "continuations_ok (db_continuations s)" and rec: "leases_recoverable s"
    and ok: "recoverContinuationsAfterRestart uuids t s = Inr (res, s')"
  shows "store_inv s'"
proof -
  from ok obtain s1 where s1: "recover_rows uuids t 0 (recovery_rows t s) s = Inr s'"
    by (auto simp: recoverContinuationsAfterRestart_def Let_def)
  have "\<forall>(n, r) \<in> set (recovery_rows t s). n_status n \<noteq> Co_queued \<longrightarrow>
      get_run s (n_runId n) = Some r \<and> r_status r \<in> {Running, Interrupted, Blocked}"
  proof (intro ballI, clarify)
    fix n r assume "(n, r) \<in> set (recovery_rows t s)" "n_status n \<noteq> Co_queued"
    then have n: "n \<in> set (db_continuations s)" "n_status n = Co_running" "get_run s (n_runId n) = Some r"
      by (auto simp: recovery_rows_def with_run_mem lease_expired_def)
    with leases_recoverableD [OF rec n]
    show "get_run s (n_runId n) = Some r \<and> r_status r \<in> {Running, Interrupted, Blocked}" by blast
  qed
  then show ?thesis by (rule recover_rows_inv [OF inv recovery_rows_distinct [OF cont] _ s1])
qed

lemma release_one_inv:
  assumes inv: "store_inv s" and r: "get_run s (n_runId n) = Some r" "r_status r \<in> {Running, Interrupted, Blocked}"
    and ok: "release_one uuid t ow rs n r s = Inr s'"
  shows "store_inv s'" and "\<And>x. x \<noteq> n_runId n \<Longrightarrow> get_run s' x = get_run s x"
proof -
  from ok obtain ns s1 where s1: "put_continuations ns s = Inr s1"
    and s2: "block_for_continuation uuid t (n_runId n) (r_attempt r) (r_lastEventSeq r) rs s1 = Inr s'"
    by (auto simp: release_one_def)
  from store_inv_put_continuations [OF inv s1] have i1: "store_inv s1" "\<And>y. get_run s1 y = get_run s y" by auto
  note b = block_for_continuation_inv [OF i1(1) _ r(2) s2, unfolded i1(2), OF r(1)]
  show "store_inv s'" by (rule b(1))
  show "get_run s' x = get_run s x" if "x \<noteq> n_runId n" for x using b(2) [OF that] .
qed

lemma release_rows_inv:
  assumes "store_inv s" and "distinct (map (\<lambda>(n, r). n_runId n) xs)"
    and "\<forall>(n, r) \<in> set xs. get_run s (n_runId n) = Some r \<and> r_status r \<in> {Running, Interrupted, Blocked}"
    and "release_rows uuids t ow rs i xs s = Inr s'"
  shows "store_inv s'"
  using assms
proof (induction xs arbitrary: i s)
  case Nil
  then show ?case by simp
next
  case (Cons x xs)
  obtain n r where x: "x = (n, r)" by (cases x)
  from Cons.prems(4) x obtain s1 where s1: "release_one (uuids i) t ow rs n r s = Inr s1"
    and rest: "release_rows uuids t ow rs (Suc i) xs s1 = Inr s'" by auto
  have r: "get_run s (n_runId n) = Some r" "r_status r \<in> {Running, Interrupted, Blocked}"
    using Cons.prems(3) x by auto
  note one = release_one_inv [OF Cons.prems(1) r s1]
  have "n_runId n \<notin> (\<lambda>(n, r). n_runId n) ` set xs" using Cons.prems(2) x by simp
  then have other: "get_run s1 (n_runId m) = get_run s (n_runId m)" if "(m, q) \<in> set xs" for m q
    using that one(2) [of "n_runId m"] by (force simp: image_iff)
  show ?case
  proof (rule Cons.IH [OF one(1) _ _ rest])
    show "distinct (map (\<lambda>(n, r). n_runId n) xs)" using Cons.prems(2) by simp
    show "\<forall>(n, r)\<in>set xs. get_run s1 (n_runId n) = Some r \<and> r_status r \<in> {Running, Interrupted, Blocked}"
      using Cons.prems(3) other by fastforce
  qed
qed

lemma releaseContinuationLeases_inv:
  assumes inv: "store_inv s" and cont: "continuations_ok (db_continuations s)" and rec: "leases_recoverable s"
    and ok: "releaseContinuationLeases uuids t ow rs s = Inr (res, s')"
  shows "store_inv s'"
proof -
  let ?xs = "List.map_filter (\<lambda>n. map_option (Pair n) (run_of s n))
      (sort_key n_createdAt (filter (\<lambda>n. n_status n = Co_running \<and> n_leaseOwner n = ow) (db_continuations s)))"
  from ok have s1: "release_rows uuids t ow rs 0 ?xs s = Inr s'"
    by (auto simp: releaseContinuationLeases_def Let_def)
  have "map (\<lambda>(n, r). n_runId n) ?xs = map n_runId (sort_key n_createdAt
      (filter (\<lambda>n. n_status n = Co_running \<and> n_leaseOwner n = ow \<and> run_of s n \<noteq> None) (db_continuations s)))"
    unfolding with_run_pairs by (simp add: comp_def filter_sort conj_ac)
  then have dist: "distinct (map (\<lambda>(n, r). n_runId n) ?xs)"
    using running_rows_distinct [OF cont] by (simp add: distinct_map_sort)
  have "\<forall>(n, r) \<in> set ?xs. get_run s (n_runId n) = Some r \<and> r_status r \<in> {Running, Interrupted, Blocked}"
  proof (intro ballI, clarify)
    fix n r assume "(n, r) \<in> set ?xs"
    then have n: "n \<in> set (db_continuations s)" "n_status n = Co_running" "get_run s (n_runId n) = Some r"
      by (auto simp: with_run_mem)
    with leases_recoverableD [OF rec n]
    show "get_run s (n_runId n) = Some r \<and> r_status r \<in> {Running, Interrupted, Blocked}" by blast
  qed
  then show ?thesis by (rule release_rows_inv [OF inv dist _ s1])
qed

lemma releaseContinuationLease_inv:
  assumes inv: "store_inv s" and rec: "leases_recoverable s"
    and ok: "releaseContinuationLease uuid t cid ow rs s = Inr (res, s')"
  shows "store_inv s'"
proof (cases "find (\<lambda>n. n_id n = cid \<and> n_status n = Co_running \<and> n_leaseOwner n = ow) (db_continuations s)")
  case None
  with ok inv show ?thesis by (auto simp: releaseContinuationLease_def)
next
  case (Some n)
  then have n: "n \<in> set (db_continuations s)" "n_status n = Co_running" by (auto dest: find_SomeD)
  show ?thesis
  proof (cases "get_run s (n_runId n)")
    case None
    with Some ok inv show ?thesis by (auto simp: releaseContinuationLease_def run_of_def)
  next
    case (Some r)
    with \<open>find _ _ = Some n\<close> ok obtain ns s1 where s1: "put_continuations ns s = Inr s1"
      and s2: "s' = s1 \<or> block_for_continuation uuid t (n_runId n) (r_attempt r) (r_lastEventSeq r) rs s1 = Inr s'"
      by (auto simp: releaseContinuationLease_def run_of_def Let_def split: if_splits)
    from store_inv_put_continuations [OF inv s1] have i1: "store_inv s1" "get_run s1 (n_runId n) = Some r"
      using Some by auto
    with s2 leases_recoverableD [OF rec n Some] block_for_continuation_inv(1) show ?thesis by blast
  qed
qed

lemma queue_crash_recovery_inv:
  assumes inv: "store_inv s" and r: "get_run s (r_id r) = Some r" "r_status r = Interrupted"
    and ok: "queue_crash_recovery cid uuid t r e s = Inr (res, s')"
  shows "store_inv s'" and "\<And>x. x \<noteq> r_id r \<Longrightarrow> get_run s' x = get_run s x"
proof -
  let ?rs = "crash_reason (e_seq e)"
  let ?ev = "\<lparr>e_runId = r_id r, e_seq = r_lastEventSeq r + 1, e_attemptId = attemptId (r_id r) (r_attempt r),
      e_type = ''continuation.queued'',
      e_data = JObj [(''continuationId'', JStr cid), (''ordinal'', JNum (JInt (next_ordinal s (r_id r)))),
                     (''reason'', JStr ''safe_crash_recovery''), (''interruptionSeq'', JNum (JInt (e_seq e)))],
      e_createdAt = t\<rparr>"
  let ?f = "\<lambda>x. x\<lparr>r_status := Blocked, r_phase := Ph_blocked, r_blockedReason := ?rs, r_completedAt := None,
      r_lastEventSeq := r_lastEventSeq r + 1, r_updatedAt := t\<rparr>"
  let ?s4 = "\<lambda>s2. park_checkpoint (r_id r) t (set_run (r_id r) (\<lambda>x. r_status x = Interrupted) ?f s2)"
  from ok obtain n s1 s2 s5 where s1: "insert_continuation n s = Inr s1"
    and s2: "insert_event ?ev s1 = Inr s2"
    and s5: "projectAttempt uuid (r_id r) (r_attempt r) Trig_recovery A_blocked ''recovery'' ?rs
       (r_lastEventSeq r + 1) t (?s4 s2) = Inr s5"
    and s6: "finalizeAttemptProjectionCheckpoint (r_id r) (attemptId (r_id r) (r_attempt r)) (r_attempt r)
       (r_lastEventSeq r + 1) t s5 = Inr s'"
    unfolding queue_crash_recovery_def Let_def by (simp only: and_then_Inr) auto
  from s1 obtain ns where s1': "s1 = s\<lparr>db_continuations := ns\<rparr>"
    by (auto simp: insert_continuation_def put_continuations_Inr)
  have cps: "cp_moves (r_id r) (r_attempt r) (db_checkpoints s) (db_checkpoints (?s4 s2))"
    using park_checkpoint_moves [of "r_id r" "r_attempt r" "set_run (r_id r) (\<lambda>x. r_status x = Interrupted) ?f s2" t]
    by (simp add: insert_event_Inr [OF s2] s1')
  have runs: "db_runs (?s4 s2) = upd (\<lambda>x. r_id x = r_id r) ?f (db_runs s)"
    using r(2) by (simp add: set_run_runs [OF inv r(1)] insert_event_Inr [OF s2] s1')
  show "store_inv s'"
    by (rule project_finalize_inv [where e = ?ev, OF inv r(1) runs _ _ _ _ _ _ _ _ cps s5 s6])
      (simp_all add: insert_event_Inr [OF s2] s1')
  have runs': "db_runs s' = upd (\<lambda>x. r_id x = r_id r) ?f (db_runs s)"
    using finalize_keeps(1) [OF s6] project_keeps(1) [OF s5] runs by simp
  show "get_run s' x = get_run s x" if "x \<noteq> r_id r" for x
    unfolding get_run_def runs' by (rule find_upd_other) (use that in auto)
qed

lemma queue_crash_recoveries_inv:
  assumes "store_inv s" and "distinct (map (\<lambda>(r, e). r_id r) xs)"
    and "\<forall>(r, e) \<in> set xs. get_run s (r_id r) = Some r \<and> r_status r = Interrupted"
    and "queue_crash_recoveries cids uuids t i xs s = Inr (res, s')"
  shows "store_inv s'"
  using assms
proof (induction xs arbitrary: i s res)
  case Nil
  then show ?case by simp
next
  case (Cons x xs)
  obtain r e where x: "x = (r, e)" by (cases x)
  from Cons.prems(4) x obtain y ys s1 where s1: "queue_crash_recovery (cids i) (uuids i) t r e s = Inr (y, s1)"
    and rest: "queue_crash_recoveries cids uuids t (Suc i) xs s1 = Inr (ys, s')" by auto
  have r: "get_run s (r_id r) = Some r" "r_status r = Interrupted" using Cons.prems(3) x by auto
  note one = queue_crash_recovery_inv [OF Cons.prems(1) r s1]
  have "r_id r \<notin> (\<lambda>(r, e). r_id r) ` set xs" using Cons.prems(2) x by simp
  then have other: "get_run s1 (r_id q) = get_run s (r_id q)" if "(q, d) \<in> set xs" for q d
    using that one(2) [of "r_id q"] by (force simp: image_iff)
  show ?case
  proof (rule Cons.IH [OF one(1) _ _ rest])
    show "distinct (map (\<lambda>(r, e). r_id r) xs)" using Cons.prems(2) by simp
    show "\<forall>(r, e)\<in>set xs. get_run s1 (r_id r) = Some r \<and> r_status r = Interrupted"
      using Cons.prems(3) other by fastforce
  qed
qed

lemma queueSafeCrashRecoveryContinuations_inv:
  assumes inv: "store_inv s" and ok: "queueSafeCrashRecoveryContinuations cids uuids t m s = Inr (res, s')"
  shows "store_inv s'"
proof -
  let ?ys = "List.map_filter (\<lambda>r. map_option (Pair r) (latest_interruption s (r_id r)))
      (filter (safe_to_recover m s) (db_runs s))"
  have ys: "?ys = map (\<lambda>r. (r, the (latest_interruption s (r_id r))))
      (filter (\<lambda>r. latest_interruption s (r_id r) \<noteq> None) (filter (safe_to_recover m s) (db_runs s)))"
    by (rule with_run_pairs)
  have "distinct (map r_id (filter (\<lambda>r. latest_interruption s (r_id r) \<noteq> None) (filter (safe_to_recover m s) (db_runs s))))"
    by (intro distinct_map_filter store_inv_distinct [OF inv])
  then have dist: "distinct (map (\<lambda>(r, e). r_id r) (crash_candidates m s))"
    unfolding crash_candidates_def distinct_map_sort ys by (simp add: comp_def)
  have "\<forall>(r, e) \<in> set (crash_candidates m s). get_run s (r_id r) = Some r \<and> r_status r = Interrupted"
    using get_run_mem [OF store_inv_distinct [OF inv]]
    unfolding crash_candidates_def set_sort ys by (auto simp: safe_to_recover_def Let_def)
  then show ?thesis
    using ok by (intro queue_crash_recoveries_inv [OF inv dist]) (auto simp: queueSafeCrashRecoveryContinuations_def)
qed

end
