(* ===== verification/Machine_Specs.thy ===== *)
theory Machine_Specs
  imports Prelude
begin

text \<open>
  The contracts several components share, each as a locale whose consequences are proved
  once: a machine whose commands roll back when they throw and keep an invariant when they
  return (\<open>invariant_machine\<close>), a resource whose fence never decreases and whose holders are
  accepted only at the current fence (\<open>fenced_resource\<close>), and a port that runs the caller's
  work only when an authority check passes (\<open>guarded_port\<close>).
\<close>

section \<open>Machines that keep an invariant\<close>

text \<open>One transaction: the state it leaves, which is the state it found when it throws.\<close>

definition after :: "'s \<Rightarrow> 'e + 'r \<times> 's \<Rightarrow> 's" where
  "after s res = (case res of Inl _ \<Rightarrow> s | Inr (_, s') \<Rightarrow> s')"

lemma after_simps [simp]:
  "after s (Inl e) = s"
  "after s (Inr (r, s')) = s'"
  by (simp_all add: after_def)

primrec run_all :: "('c \<Rightarrow> 's \<Rightarrow> 'e + 'r \<times> 's) \<Rightarrow> 'c list \<Rightarrow> 's \<Rightarrow> 's" where
  "run_all exec [] s = s"
| "run_all exec (c # cs) s = run_all exec cs (after s (exec c s))"

lemma run_all_append [simp]: "run_all exec (cs @ ds) s = run_all exec ds (run_all exec cs s)"
  by (induction cs arbitrary: s) simp_all

locale invariant_machine =
  fixes exec :: "'c \<Rightarrow> 's \<Rightarrow> 'e + 'r \<times> 's" and inv :: "'s \<Rightarrow> bool"
  assumes exec_inv: "inv s \<Longrightarrow> exec c s = Inr (r, s') \<Longrightarrow> inv s'"
begin

lemma after_inv: "inv s \<Longrightarrow> inv (after s (exec c s))"
  by (cases "exec c s") (auto dest: exec_inv)

lemma run_all_inv: "inv s \<Longrightarrow> inv (run_all exec cs s)"
  by (induction cs arbitrary: s) (auto intro: after_inv)

end

section \<open>Fenced resources\<close>

text \<open>
  \<open>accepted s k f\<close>: a holder that presents fence \<open>f\<close> for resource \<open>k\<close> is let through in \<open>s\<close>.
\<close>

locale fenced_resource =
  fixes step :: "'s \<Rightarrow> 's \<Rightarrow> bool" and fence :: "'s \<Rightarrow> 'k \<Rightarrow> int" and accepted :: "'s \<Rightarrow> 'k \<Rightarrow> int \<Rightarrow> bool"
  assumes fence_mono: "step s s' \<Longrightarrow> fence s k \<le> fence s' k"
    and accepted_current: "accepted s k f \<Longrightarrow> fence s k = f"
begin

lemma fence_mono_star: "step\<^sup>*\<^sup>* s s' \<Longrightarrow> fence s k \<le> fence s' k"
  by (induction rule: rtranclp_induct) (auto dest: fence_mono [where k = k])

lemma superseded_refused: "step\<^sup>*\<^sup>* s s' \<Longrightarrow> f < fence s k \<Longrightarrow> \<not> accepted s' k f"
  using fence_mono_star [of s s' k] accepted_current [of s' k f] by auto

lemma accepted_unique: "accepted s k f \<Longrightarrow> accepted s k g \<Longrightarrow> f = g"
  using accepted_current [of s k f] accepted_current [of s k g] by simp

end

section \<open>Guarded ports\<close>

locale guarded_port =
  fixes permitted :: "'c \<Rightarrow> 's \<Rightarrow> bool" and enter :: "'c \<Rightarrow> ('s \<Rightarrow> 'e + 'r \<times> 's) \<Rightarrow> 's \<Rightarrow> 'e + 'r \<times> 's"
  assumes enter_refused: "\<not> permitted c s \<Longrightarrow> \<exists>e. enter c work s = Inl e"
    and enter_runs: "enter c work s = Inr (r, s') \<Longrightarrow> work s = Inr (r, s')"
begin

lemma enter_Inr: "enter c work s = Inr (r, s') \<Longrightarrow> permitted c s \<and> work s = Inr (r, s')"
  using enter_refused [of c s work] enter_runs by auto

lemma enter_unpermitted_after: "\<not> permitted c s \<Longrightarrow> after s (enter c work s) = s"
  using enter_refused [of c s work] by auto

lemma enter_keeps:
  assumes "\<And>r s'. work s = Inr (r, s') \<Longrightarrow> I s'" and "I s"
  shows "I (after s (enter c work s))"
  using assms by (cases "enter c work s") (auto dest!: enter_runs)

end

end
