(* ===== verification/Runtime_Mutations.thy ===== *)
theory Runtime_Mutations
  imports Task_Run_Transitions Machine_Specs
begin

text \<open>
  What a running Attempt writes while it works: operations and tool attempts with the
  repetition guard, the run phase, the control inbox, event consumers, command receipts and
  Supervisor decisions of \<open>store.ts\<close>, and the fenced port of
  \<open>sqlite/attempt-runtime-mutation-repository.ts\<close>, which lets each of these writes
  through only for the holder of the execution lease. \<open>hash\<close> is \<open>canonicalHash\<close>,
  the SHA-256 of a canonical rendering of its argument; \<open>t\<close> is the clock reading of an
  operation and \<open>dbNow\<close> the database clock of its transaction.
\<close>

section \<open>Operations\<close>

definition getOperation :: "db \<Rightarrow> string \<Rightarrow> operation_row option" where
  "getOperation s oid = find (\<lambda>x. op_id x = oid) (db_operations s)"

text \<open>\<open>INSERT OR IGNORE\<close>: a duplicate key is skipped, a missing run is not.\<close>

definition claimOperation ::
  "(jsval \<Rightarrow> string) \<Rightarrow> int \<Rightarrow> string \<Rightarrow> string \<Rightarrow> int \<Rightarrow> string \<Rightarrow> jsval \<Rightarrow> db
   \<Rightarrow> store_error + (operation_row \<times> bool) \<times> db" where
  "claimOperation hash t oid runId attempt operationType payload s =
     (let row = \<lparr>op_id = oid, op_runId = runId, op_attempt = attempt,
                 op_attemptId = Some (attemptId runId attempt), op_type = operationType,
                 op_payloadHash = hash payload, op_payload = payload, op_status = ''running'',
                 op_stage = ''executing'', op_effects = [], op_result = None, op_error = '''',
                 op_createdAt = t, op_updatedAt = t, op_completedAt = None\<rparr>;
          claimed = (getOperation s oid = None)
      in require (claimed \<longrightarrow> has_run s runId) (Sql_constraint ''operations.run_id'')
        (let s1 = (if claimed then s\<lparr>db_operations := db_operations s @ [row]\<rparr> else s)
         in fetch (getOperation s1 oid) (Type_error ''receipt is undefined'') (\<lambda>receipt.
            require (op_type receipt = operationType \<and> op_payloadHash receipt = hash payload
                     \<and> op_runId receipt = runId)
              (Thrown ''Operation ID already exists with a different payload or scope'')
              (Inr ((receipt, claimed), s1)))))"

record operation_update =
  ou_status :: string
  ou_stage :: "string option"
  ou_effects :: "jsval list option"
  ou_result :: "jsval option"
  ou_error :: "string option"
  ou_expectedStatuses :: "string list option"

definition operation_over :: "string \<Rightarrow> bool" where
  "operation_over st = (st \<in> set [''succeeded'', ''failed'', ''cancelled'', ''outcome_unknown''])"

definition given :: "'a option \<Rightarrow> 'a \<Rightarrow> 'a" where
  "given x d = (case x of None \<Rightarrow> d | Some v \<Rightarrow> v)"

definition updateOperation ::
  "int \<Rightarrow> string \<Rightarrow> operation_update \<Rightarrow> db \<Rightarrow> store_error + operation_row \<times> db" where
  "updateOperation t oid update s =
     (let completedAt = (if operation_over (ou_status update) then Some t else None)
      in fetch (getOperation s oid) (Thrown ''Unknown operation'') (\<lambda>current.
         let expected = given (ou_expectedStatuses update)
               (if completedAt \<noteq> None then [''running''] else [op_status current]);
             P = (\<lambda>x. op_id x = oid \<and> op_status x \<in> set expected)
         in require (op_status current \<in> set expected) (Thrown ''Operation cannot transition'')
           (require (cnt P (db_operations s) = 1) (Thrown ''Operation transition lost its compare-and-set race'')
           (let s1 = s\<lparr>db_operations := upd P
                  (\<lambda>x. x\<lparr>op_status := ou_status update, op_stage := given (ou_stage update) (op_stage current),
                         op_effects := given (ou_effects update) (op_effects current),
                         op_result := (case ou_result update of None \<Rightarrow> op_result current | Some v \<Rightarrow> Some v),
                         op_error := given (ou_error update) (op_error current),
                         op_updatedAt := t, op_completedAt := completedAt\<rparr>) (db_operations s)\<rparr>
            in fetch (getOperation s1 oid) (Type_error ''operation is undefined'') (\<lambda>x. Inr (x, s1))))))"

section \<open>Tool attempts\<close>

datatype tool_guard = Guard_open | Guard_same_args nat | Guard_bash_repeat | Guard_same_args_failures nat
  | Guard_tool_failures nat

definition evaluateToolGuard :: "db \<Rightarrow> string \<Rightarrow> string \<Rightarrow> string \<Rightarrow> tool_guard" where
  "evaluateToolGuard s runId toolName argsHash =
     (let recent = take 50 (rev (filter (\<lambda>x. ta_runId x = runId \<and> ta_status x \<noteq> ''running'') (db_toolAttempts s)));
          same = (\<lambda>x. ta_toolName x = toolName \<and> ta_argsHash x = argsHash);
          sameArgs = length (takeWhile same recent);
          sameArgsFailures = length (takeWhile (\<lambda>x. same x \<and> ta_status x = ''failed'') recent);
          sameToolFailures = length (takeWhile (\<lambda>x. ta_toolName x = toolName \<and> ta_status x = ''failed'') recent)
      in if 5 \<le> sameArgs then Guard_same_args sameArgs
         else if toolName = ''bash'' \<and> 1 \<le> sameArgsFailures then Guard_bash_repeat
         else if 3 \<le> sameArgsFailures then Guard_same_args_failures sameArgsFailures
         else if 6 \<le> sameToolFailures then Guard_tool_failures sameToolFailures
         else Guard_open)"

definition tool_row :: "string \<Rightarrow> int \<Rightarrow> string \<Rightarrow> tool_attempt \<Rightarrow> bool" where
  "tool_row runId attempt toolCallId x =
     (ta_runId x = runId \<and> ta_attempt x = attempt \<and> ta_toolCallId x = toolCallId)"

record tool_receipt =
  tr_argsHash :: string
  tr_created :: bool
  tr_status :: string
  tr_guard :: tool_guard

definition recordToolAttempt ::
  "(jsval \<Rightarrow> string) \<Rightarrow> int \<Rightarrow> string \<Rightarrow> int \<Rightarrow> string \<Rightarrow> string \<Rightarrow> jsval \<Rightarrow> db
   \<Rightarrow> store_error + tool_receipt \<times> db" where
  "recordToolAttempt hash t runId attempt toolCallId toolName args s =
     (let argsHash = hash args;
          created = (find (tool_row runId attempt toolCallId) (db_toolAttempts s) = None);
          row = \<lparr>ta_runId = runId, ta_attempt = attempt, ta_toolCallId = toolCallId, ta_toolName = toolName,
                 ta_argsHash = argsHash, ta_status = ''running'', ta_error = '''', ta_createdAt = t,
                 ta_completedAt = None\<rparr>
      in require (created \<longrightarrow> has_run s runId) (Sql_constraint ''tool_attempts.run_id'')
        (let s1 = (if created then s\<lparr>db_toolAttempts := db_toolAttempts s @ [row]\<rparr> else s)
         in fetch (find (tool_row runId attempt toolCallId) (db_toolAttempts s1)) (Type_error ''row is undefined'') (\<lambda>x.
            require (ta_toolName x = toolName \<and> ta_argsHash x = argsHash)
              (Thrown ''Tool attempt already exists with different content'')
              (Inr (\<lparr>tr_argsHash = argsHash, tr_created = created, tr_status = ta_status x,
                     tr_guard = evaluateToolGuard s1 runId toolName argsHash\<rparr>, s1)))))"

definition completeToolAttempt ::
  "int \<Rightarrow> string \<Rightarrow> int \<Rightarrow> string \<Rightarrow> bool \<Rightarrow> string \<Rightarrow> db \<Rightarrow> bool \<times> db" where
  "completeToolAttempt t runId attempt toolCallId success err s =
     (let P = (\<lambda>x. tool_row runId attempt toolCallId x \<and> ta_status x = ''running'')
      in (cnt P (db_toolAttempts s) = 1,
          s\<lparr>db_toolAttempts := upd P
             (\<lambda>x. x\<lparr>ta_status := (if success then ''succeeded'' else ''failed''), ta_error := err,
                    ta_completedAt := Some t\<rparr>) (db_toolAttempts s)\<rparr>))"

section \<open>Run phase\<close>

fun phase_rank :: "run_phase \<Rightarrow> nat" where
  "phase_rank Ph_discover = 0"
| "phase_rank Ph_plan = 1"
| "phase_rank Ph_implement = 2"
| "phase_rank Ph_verify = 3"
| "phase_rank Ph_review = 4"
| "phase_rank _ = 99"

definition advanceRunPhase :: "int \<Rightarrow> string \<Rightarrow> run_phase \<Rightarrow> db \<Rightarrow> bool \<times> db" where
  "advanceRunPhase t runId phase s =
     (let P = (\<lambda>r. r_status r = Running \<and> phase_rank (r_phase r) < phase_rank phase)
      in (run_changes runId P s = 1,
          set_run runId P (\<lambda>r. r\<lparr>r_phase := phase, r_updatedAt := t\<rparr>) s))"

definition setRunPhase :: "int \<Rightarrow> string \<Rightarrow> run_phase \<Rightarrow> db \<Rightarrow> bool \<times> db" where
  "setRunPhase t runId phase s =
     (if phase \<in> {Ph_done, Ph_blocked, Ph_waiting_input} then (False, s)
      else advanceRunPhase t runId phase s)"

section \<open>Event consumers\<close>

definition consumer_row :: "string \<Rightarrow> string \<Rightarrow> event_consumer \<Rightarrow> bool" where
  "consumer_row runId consumerId x = (ec_runId x = runId \<and> ec_consumerId x = consumerId)"

definition getEventConsumer :: "db \<Rightarrow> string \<Rightarrow> string \<Rightarrow> event_consumer option" where
  "getEventConsumer s runId consumerId = find (consumer_row runId consumerId) (db_consumers s)"

definition claimEventConsumer ::
  "int \<Rightarrow> string \<Rightarrow> string \<Rightarrow> db \<Rightarrow> store_error + event_consumer \<times> db" where
  "claimEventConsumer t runId consumerId s =
     require (has_run s runId) (Thrown ''Unknown run'')
    (let s1 = (case getEventConsumer s runId consumerId of
           None \<Rightarrow> s\<lparr>db_consumers := db_consumers s @
             [\<lparr>ec_runId = runId, ec_consumerId = consumerId, ec_generation = 1, ec_ackedSeq = 0,
               ec_settledAckedSeq = None, ec_finalAckedSeq = None, ec_claimedAt = t, ec_updatedAt = t\<rparr>]\<rparr>
         | Some _ \<Rightarrow> s\<lparr>db_consumers := upd (consumer_row runId consumerId)
             (\<lambda>x. x\<lparr>ec_generation := ec_generation x + 1, ec_claimedAt := t, ec_updatedAt := t\<rparr>)
             (db_consumers s)\<rparr>)
     in fetch (getEventConsumer s1 runId consumerId) (Type_error ''cursor is undefined'') (\<lambda>c. Inr (c, s1)))"

datatype ack_result = Ack_missing | Ack_stale | Ack_invalid | Ack_accepted

text \<open>The largest sequence number in \<open>(acked, seq]\<close> of an event of one of the given types.\<close>

definition last_of_types :: "db \<Rightarrow> string \<Rightarrow> string list \<Rightarrow> int \<Rightarrow> int \<Rightarrow> int option" where
  "last_of_types s runId types acked seq =
     (case sort_key (\<lambda>e. - e_seq e) (filter (\<lambda>e. e_runId e = runId \<and> acked < e_seq e \<and> e_seq e \<le> seq
               \<and> e_type e \<in> set types) (db_events s)) of
        [] \<Rightarrow> None
      | e # _ \<Rightarrow> Some (e_seq e))"

definition acked_row :: "int \<Rightarrow> int option \<Rightarrow> int option \<Rightarrow> int \<Rightarrow> event_consumer \<Rightarrow> event_consumer" where
  "acked_row t settled final seq x =
     x\<lparr>ec_ackedSeq := seq,
       ec_settledAckedSeq := (case settled of None \<Rightarrow> ec_settledAckedSeq x | Some n \<Rightarrow> Some n),
       ec_finalAckedSeq := (case final of None \<Rightarrow> ec_finalAckedSeq x | Some n \<Rightarrow> Some n),
       ec_updatedAt := t\<rparr>"

definition ackEventConsumer :: "int \<Rightarrow> string \<Rightarrow> string \<Rightarrow> int \<Rightarrow> int \<Rightarrow> db \<Rightarrow> ack_result \<times> db" where
  "ackEventConsumer t runId consumerId generation seq s =
     (case get_run s runId of
        None \<Rightarrow> (Ack_missing, s)
      | Some run \<Rightarrow>
          (case getEventConsumer s runId consumerId of
             None \<Rightarrow> (Ack_stale, s)
           | Some cursor \<Rightarrow>
               if ec_generation cursor \<noteq> generation then (Ack_stale, s)
               else if \<not> safe_integer seq \<or> seq < ec_ackedSeq cursor \<or> r_lastEventSeq run < seq
               then (Ack_invalid, s)
               else
                 let settled = last_of_types s runId
                       [''run.completed'', ''run.blocked'', ''run.failed'', ''run.cancelled''] (ec_ackedSeq cursor) seq;
                     final = last_of_types s runId [''run.completed'', ''run.cancelled''] (ec_ackedSeq cursor) seq
                 in (Ack_accepted, s\<lparr>db_consumers := upd
                       (\<lambda>x. consumer_row runId consumerId x \<and> ec_generation x = generation)
                       (acked_row t settled final seq) (db_consumers s)\<rparr>)))"

section \<open>Control inbox\<close>

definition MAX_CONTROL_CONTENT_CHARS :: nat where
  "MAX_CONTROL_CONTENT_CHARS = 200000"

definition assertControlContent :: "string \<Rightarrow> store_error + 'a \<Rightarrow> store_error + 'a" where
  "assertControlContent content k =
     require (js_trim content \<noteq> '''') (Thrown ''Control content is required'')
    (require (length content \<le> MAX_CONTROL_CONTENT_CHARS) (Thrown ''Control content cannot exceed the limit'') k)"

definition getControlItem :: "db \<Rightarrow> string \<Rightarrow> control_item option" where
  "getControlItem s cid = find (\<lambda>c. ci_id c = cid) (db_controls s)"

definition listControlInbox :: "db \<Rightarrow> string \<Rightarrow> control_item list" where
  "listControlInbox s runId = sort_key ci_createdAt (filter (\<lambda>c. ci_runId c = runId) (db_controls s))"

datatype enqueue_result = Enq_duplicate control_item | Enq_inactive | Enq_full | Enq_accepted control_item

definition control_active :: "control_item \<Rightarrow> bool" where
  "control_active c = (ci_status c \<in> {Ctl_queued, Ctl_delivering})"

definition insert_control :: "control_item \<Rightarrow> db \<Rightarrow> store_error + db" where
  "insert_control c s =
     require (has_run s (ci_runId c) \<and> \<not> list_ex (\<lambda>x. ci_id x = ci_id c
                \<or> ci_runId x = ci_runId c \<and> ci_requestId x = ci_requestId c) (db_controls s))
       (Sql_constraint ''control_inbox'') (Inr (s\<lparr>db_controls := db_controls s @ [c]\<rparr>))"

definition enqueueControl ::
  "string \<Rightarrow> int \<Rightarrow> string \<Rightarrow> string \<Rightarrow> control_kind \<Rightarrow> string \<Rightarrow> int \<Rightarrow> db
   \<Rightarrow> store_error + enqueue_result \<times> db" where
  "enqueueControl uuid t runId requestId kind content capacity s =
     assertControlContent content
     (case find (\<lambda>c. ci_runId c = runId \<and> ci_requestId c = requestId) (db_controls s) of
        Some existing \<Rightarrow>
          fetch (getControlItem s (ci_id existing)) (Type_error ''item is undefined'') (\<lambda>c. Inr (Enq_duplicate c, s))
      | None \<Rightarrow>
          (case get_run s runId of
             None \<Rightarrow> Inr (Enq_inactive, s)
           | Some run \<Rightarrow>
               if r_status run \<noteq> Running then Inr (Enq_inactive, s)
               else if capacity \<le> int (cnt (\<lambda>c. ci_runId c = runId \<and> ci_attempt c = r_attempt run
                                              \<and> control_active c) (db_controls s))
               then Inr (Enq_full, s)
               else
                 let item = \<lparr>ci_id = uuid, ci_runId = runId, ci_requestId = requestId, ci_attempt = r_attempt run,
                             ci_kind = kind, ci_content = content, ci_status = Ctl_queued, ci_error = '''',
                             ci_createdAt = t, ci_claimedAt = None, ci_completedAt = None\<rparr>
                 in and_then (insert_control item s) (\<lambda>s1. Inr (Enq_accepted item, s1))))"

definition supersede_controls :: "int \<Rightarrow> string \<Rightarrow> int \<Rightarrow> db \<Rightarrow> db" where
  "supersede_controls t runId attempt s =
     s\<lparr>db_controls := upd (\<lambda>c. ci_runId c = runId \<and> ci_status c = Ctl_queued \<and> ci_attempt c \<noteq> attempt)
        (\<lambda>c. c\<lparr>ci_status := Ctl_superseded, ci_error := ''Run attempt advanced before delivery'',
               ci_completedAt := Some t\<rparr>) (db_controls s)\<rparr>"

definition claimControlItem :: "int \<Rightarrow> string \<Rightarrow> int \<Rightarrow> db \<Rightarrow> control_item option \<times> db" where
  "claimControlItem t runId attempt s =
     (let s1 = supersede_controls t runId attempt s
      in case find (\<lambda>c. ci_attempt c = attempt \<and> ci_status c = Ctl_queued) (listControlInbox s1 runId) of
           None \<Rightarrow> (None, s1)
         | Some row \<Rightarrow>
             let P = (\<lambda>c. ci_id c = ci_id row \<and> ci_status c = Ctl_queued);
                 s2 = s1\<lparr>db_controls := upd P (\<lambda>c. c\<lparr>ci_status := Ctl_delivering, ci_claimedAt := Some t\<rparr>)
                        (db_controls s1)\<rparr>
             in (if cnt P (db_controls s1) = 1 then getControlItem s2 (ci_id row) else None, s2))"

definition completeControlItem :: "int \<Rightarrow> string \<Rightarrow> control_status \<Rightarrow> string \<Rightarrow> db \<Rightarrow> bool \<times> db" where
  "completeControlItem t cid status err s =
     (let P = (\<lambda>c. ci_id c = cid \<and> ci_status c = Ctl_delivering)
      in (cnt P (db_controls s) = 1,
          s\<lparr>db_controls := upd P (\<lambda>c. c\<lparr>ci_status := status, ci_error := err, ci_completedAt := Some t\<rparr>)
             (db_controls s)\<rparr>))"

section \<open>Supervisor decisions\<close>

definition recordSupervisorDecision :: "supervisor_decision \<Rightarrow> db \<Rightarrow> store_error + supervisor_decision \<times> db" where
  "recordSupervisorDecision decision s =
     require (has_run s (d_runId decision) \<and> \<not> list_ex (\<lambda>d. d_id d = d_id decision) (db_decisions s))
       (Sql_constraint ''supervisor_decisions'')
       (Inr (decision, s\<lparr>db_decisions := db_decisions s @ [decision]\<rparr>))"

definition updateSupervisorDecision :: "int \<Rightarrow> string \<Rightarrow> decision_status \<Rightarrow> string \<Rightarrow> db \<Rightarrow> string option \<times> db" where
  "updateSupervisorDecision t did status err s =
     (let executedAt = (if status \<in> {Dec_executed, Dec_failed} then Some t else None);
          s1 = s\<lparr>db_decisions := upd (\<lambda>d. d_id d = did)
                (\<lambda>d. d\<lparr>d_status := status, d_error := err,
                       d_executedAt := (case executedAt of None \<Rightarrow> d_executedAt d | Some n \<Rightarrow> Some n)\<rparr>)
                (db_decisions s)\<rparr>
      in (map_option d_runId (find (\<lambda>d. d_id d = did) (db_decisions s1)), s1))"

section \<open>Command receipts\<close>

definition command_row :: "string \<Rightarrow> string \<Rightarrow> string \<Rightarrow> command_receipt \<Rightarrow> bool" where
  "command_row principalId taskRunId commandId c =
     (cr_principalId c = principalId \<and> cr_taskRunId c = taskRunId \<and> cr_commandId c = commandId)"

definition getTaskRunCommand :: "db \<Rightarrow> string \<Rightarrow> string \<Rightarrow> string \<Rightarrow> command_receipt option" where
  "getTaskRunCommand s principalId taskRunId commandId =
     find (command_row principalId taskRunId commandId) (db_commands s)"

record command_input =
  cm_principalId :: string
  cm_taskRunId :: string
  cm_commandId :: string
  cm_commandType :: string
  cm_canonicalPayload :: string
  cm_targetAttemptId :: "string option"
  cm_provenance :: "(string \<times> jsval) list"
  cm_requestId :: string

definition claimTaskRunCommand ::
  "(string \<Rightarrow> string) \<Rightarrow> int \<Rightarrow> command_input \<Rightarrow> db \<Rightarrow> store_error + (command_receipt \<times> bool) \<times> db" where
  "claimTaskRunCommand sha256 t input s =
     (let payloadHash = sha256 (cm_canonicalPayload input)
      in case getTaskRunCommand s (cm_principalId input) (cm_taskRunId input) (cm_commandId input) of
           Some existing \<Rightarrow>
             require (cr_payloadHash existing = payloadHash)
               (Thrown ''Command idempotency conflict: commandId is bound to a different canonical payload'')
               (Inr ((existing, False), s))
         | None \<Rightarrow>
             require (has_run s (cm_taskRunId input)) (Sql_constraint ''task_run_command_receipts.task_run_id'')
            (let row = \<lparr>cr_principalId = cm_principalId input, cr_taskRunId = cm_taskRunId input,
                        cr_commandId = cm_commandId input, cr_commandType = cm_commandType input,
                        cr_payloadHash = payloadHash, cr_payload = cm_canonicalPayload input,
                        cr_targetAttemptId = cm_targetAttemptId input, cr_state = Cmd_started, cr_result = [],
                        cr_error = [], cr_provenance = cm_provenance input, cr_requestId = cm_requestId input,
                        cr_createdAt = t, cr_updatedAt = t, cr_completedAt = None\<rparr>;
                 s1 = s\<lparr>db_commands := db_commands s @ [row]\<rparr>
             in fetch (getTaskRunCommand s1 (cm_principalId input) (cm_taskRunId input) (cm_commandId input))
                  (Type_error ''receipt is undefined'') (\<lambda>c. Inr ((c, True), s1))))"

definition settleTaskRunCommand ::
  "int \<Rightarrow> string \<Rightarrow> string \<Rightarrow> string \<Rightarrow> command_state \<Rightarrow> (string \<times> jsval) list \<Rightarrow> (string \<times> jsval) list \<Rightarrow> db
   \<Rightarrow> store_error + command_receipt \<times> db" where
  "settleTaskRunCommand t principalId taskRunId commandId state result err s =
     (let P = (\<lambda>c. command_row principalId taskRunId commandId c \<and> cr_state c = Cmd_started);
          s1 = s\<lparr>db_commands := upd P
                (\<lambda>c. c\<lparr>cr_state := state, cr_result := result, cr_error := err, cr_updatedAt := t,
                       cr_completedAt := Some t\<rparr>) (db_commands s)\<rparr>
      in fetch (getTaskRunCommand s1 principalId taskRunId commandId) (Thrown ''TaskRun command receipt not found'') (\<lambda>c.
         require (\<not> (cnt P (db_commands s) = 0 \<and> cr_state c = Cmd_started))
           (Thrown ''TaskRun command receipt could not be settled'') (Inr (c, s1))))"

section \<open>Startup recovery of in-flight work\<close>

definition receipt_bound :: "db \<Rightarrow> operation_row \<Rightarrow> bool" where
  "receipt_bound s x = (op_attemptId x \<noteq> None \<and> op_id x \<in> set (db_allowReceipts s))"

definition close_operations ::
  "int \<Rightarrow> (operation_row \<Rightarrow> bool) \<Rightarrow> string \<Rightarrow> string \<Rightarrow> string \<Rightarrow> db \<Rightarrow> nat \<times> db" where
  "close_operations t P status stage err s =
     (cnt P (db_operations s),
      s\<lparr>db_operations := upd P
         (\<lambda>x. x\<lparr>op_status := status, op_stage := stage, op_error := err, op_updatedAt := t,
                op_completedAt := Some t\<rparr>) (db_operations s)\<rparr>)"

definition malformed_capability :: "db \<Rightarrow> operation_row \<Rightarrow> bool" where
  "malformed_capability s x =
     (op_status x \<in> {''authorized'', ''running''} \<and> receipt_bound s x
      \<and> \<not> (op_status x = ''authorized'' \<and> op_stage x = ''authorization_committed''
          \<or> op_status x = ''running'' \<and> op_stage x = ''effect_started''))"

definition capability_running :: "db \<Rightarrow> operation_row \<Rightarrow> bool" where
  "capability_running s x = (op_status x = ''running'' \<and> op_stage x = ''effect_started'' \<and> receipt_bound s x)"

definition capability_authorized :: "db \<Rightarrow> operation_row \<Rightarrow> bool" where
  "capability_authorized s x =
     (op_status x = ''authorized'' \<and> op_stage x = ''authorization_committed'' \<and> receipt_bound s x)"

definition ordinary_running :: "db \<Rightarrow> operation_row \<Rightarrow> bool" where
  "ordinary_running s x = (op_status x = ''running'' \<and> \<not> receipt_bound s x)"

definition close_tool_attempts :: "int \<Rightarrow> db \<Rightarrow> nat \<times> db" where
  "close_tool_attempts t s =
     (cnt (\<lambda>x. ta_status x = ''running'') (db_toolAttempts s),
      s\<lparr>db_toolAttempts := upd (\<lambda>x. ta_status x = ''running'')
         (\<lambda>x. x\<lparr>ta_status := ''outcome_unknown'',
                ta_error := ''Service restarted before the tool outcome was durably recorded; side effects may have occurred'',
                ta_completedAt := Some t\<rparr>) (db_toolAttempts s)\<rparr>)"

definition close_deliveries :: "int \<Rightarrow> db \<Rightarrow> nat \<times> db" where
  "close_deliveries t s =
     (cnt (\<lambda>c. ci_status c = Ctl_delivering) (db_controls s),
      s\<lparr>db_controls := upd (\<lambda>c. ci_status c = Ctl_delivering)
         (\<lambda>c. c\<lparr>ci_status := Ctl_outcome_unknown,
                ci_error := ''Service restarted while Pi delivery outcome was unknown'',
                ci_completedAt := Some t\<rparr>) (db_controls s)\<rparr>)"

record recovery_counts =
  rc_operations :: nat
  rc_toolAttempts :: nat
  rc_controlInbox :: nat

definition runStartupRecovery :: "int \<Rightarrow> db \<Rightarrow> store_error + recovery_counts \<times> db" where
  "runStartupRecovery t s =
     require (\<not> list_ex (malformed_capability s) (db_operations s))
       (Thrown ''Capability operation has invalid restart state'')
    (let r1 = close_operations t (capability_running s) ''outcome_unknown'' ''outcome_unknown''
            ''Service restarted after capability effect began; outcome is unknown'' s;
         r2 = close_operations t (capability_authorized s) ''cancelled'' ''restart_before_effect''
            ''Service restarted before capability effect began; execution was cancelled'' (snd r1);
         r3 = close_operations t (ordinary_running s) ''outcome_unknown'' ''service_restart''
            ''Service restarted before operation outcome was recorded'' (snd r2);
         r4 = close_tool_attempts t (snd r3);
         r5 = close_deliveries t (snd r4)
     in Inr (\<lparr>rc_operations = fst r1 + fst r2 + fst r3, rc_toolAttempts = fst r4, rc_controlInbox = fst r5\<rparr>,
             snd r5))"

section \<open>The fenced port\<close>

definition withFence ::
  "int \<Rightarrow> execution_fence \<Rightarrow> (execution_scope \<Rightarrow> db \<Rightarrow> store_error + 'r \<times> db) \<Rightarrow> db \<Rightarrow> store_error + 'r \<times> db" where
  "withFence dbNow context work s = and_then (validate dbNow context s) (\<lambda>scope. work scope s)"

definition fenced_appendEvent ::
  "int \<Rightarrow> int \<Rightarrow> execution_fence \<Rightarrow> string \<Rightarrow> jsval \<Rightarrow> db \<Rightarrow> store_error + run_event \<times> db" where
  "fenced_appendEvent t dbNow context etype data =
     withFence dbNow context (\<lambda>scope. appendEvent (xs_runId scope) etype data t)"

definition fenced_setRunPhase :: "int \<Rightarrow> int \<Rightarrow> execution_fence \<Rightarrow> run_phase \<Rightarrow> db \<Rightarrow> store_error + bool \<times> db" where
  "fenced_setRunPhase t dbNow context phase =
     withFence dbNow context (\<lambda>scope s. Inr (setRunPhase t (xs_runId scope) phase s))"

definition fenced_advanceRunPhase :: "int \<Rightarrow> int \<Rightarrow> execution_fence \<Rightarrow> run_phase \<Rightarrow> db \<Rightarrow> store_error + bool \<times> db" where
  "fenced_advanceRunPhase t dbNow context phase =
     withFence dbNow context (\<lambda>scope s. Inr (advanceRunPhase t (xs_runId scope) phase s))"

text \<open>The checkpoint of a fenced write is always the one of the fenced run and Attempt.\<close>

definition fenced_upsertCheckpoint ::
  "int \<Rightarrow> execution_fence \<Rightarrow> run_checkpoint \<Rightarrow> db \<Rightarrow> store_error + run_checkpoint \<times> db" where
  "fenced_upsertCheckpoint dbNow context checkpoint =
     withFence dbNow context (\<lambda>scope.
       upsertCheckpoint (checkpoint\<lparr>cp_runId := xs_runId scope, cp_attempt := xs_ordinal scope\<rparr>))"

definition fenced_claimOperation ::
  "(jsval \<Rightarrow> string) \<Rightarrow> int \<Rightarrow> int \<Rightarrow> execution_fence \<Rightarrow> string \<Rightarrow> string \<Rightarrow> jsval \<Rightarrow> db
   \<Rightarrow> store_error + (operation_row \<times> bool) \<times> db" where
  "fenced_claimOperation hash t dbNow context oid operationType payload =
     withFence dbNow context (\<lambda>scope.
       claimOperation hash t oid (xs_runId scope) (xs_ordinal scope) operationType payload)"

definition fenced_updateOperation ::
  "int \<Rightarrow> int \<Rightarrow> execution_fence \<Rightarrow> string \<Rightarrow> operation_update \<Rightarrow> db \<Rightarrow> store_error + operation_row \<times> db" where
  "fenced_updateOperation t dbNow context oid update =
     withFence dbNow context (\<lambda>scope s.
       fetch (getOperation s oid) (Thrown ''Operation does not belong to fenced Attempt'') (\<lambda>x.
       require (op_runId x = xs_runId scope \<and> op_attempt x = xs_ordinal scope)
         (Thrown ''Operation does not belong to fenced Attempt'')
         (updateOperation t oid update s)))"

definition fenced_recordToolAttempt ::
  "(jsval \<Rightarrow> string) \<Rightarrow> int \<Rightarrow> int \<Rightarrow> execution_fence \<Rightarrow> string \<Rightarrow> string \<Rightarrow> jsval \<Rightarrow> db
   \<Rightarrow> store_error + tool_receipt \<times> db" where
  "fenced_recordToolAttempt hash t dbNow context toolCallId toolName args =
     withFence dbNow context (\<lambda>scope.
       recordToolAttempt hash t (xs_runId scope) (xs_ordinal scope) toolCallId toolName args)"

definition fenced_completeToolAttempt ::
  "int \<Rightarrow> int \<Rightarrow> execution_fence \<Rightarrow> string \<Rightarrow> bool \<Rightarrow> string \<Rightarrow> db \<Rightarrow> store_error + bool \<times> db" where
  "fenced_completeToolAttempt t dbNow context toolCallId success err =
     withFence dbNow context (\<lambda>scope s.
       Inr (completeToolAttempt t (xs_runId scope) (xs_ordinal scope) toolCallId success err s))"

fun control_kind_name :: "control_kind \<Rightarrow> string" where
  "control_kind_name Steer = ''steer''"
| "control_kind_name Follow_up = ''follow_up''"

definition fenced_completeControlDelivery ::
  "int \<Rightarrow> int \<Rightarrow> execution_fence \<Rightarrow> string \<Rightarrow> bool \<Rightarrow> string \<Rightarrow> db \<Rightarrow> store_error + run_event \<times> db" where
  "fenced_completeControlDelivery t dbNow context itemId delivered err =
     withFence dbNow context (\<lambda>scope s.
       fetch (find (\<lambda>c. ci_id c = itemId \<and> ci_runId c = xs_runId scope) (db_controls s))
         (Thrown ''Control item does not belong to fenced Attempt'') (\<lambda>item.
       require (ci_attempt item = xs_ordinal scope \<and> ci_status item = Ctl_delivering)
         (Thrown ''Control item does not belong to fenced Attempt'')
      (let (changed, s1) = completeControlItem t itemId (if delivered then Ctl_delivered else Ctl_rejected) err s
       in require changed (Thrown ''Control item changed during fenced completion'')
         (appendEvent (xs_runId scope) (if delivered then ''control.delivered'' else ''control.rejected'')
            (JObj ([(''controlId'', JStr itemId), (''requestId'', JStr (ci_requestId item)),
                    (''attempt'', JNum (JInt (xs_ordinal scope))), (''kind'', JStr (control_kind_name (ci_kind item)))]
                   @ (if delivered then [] else [(''reason'', JStr err)]))) t s1))))"

text \<open>The spread \<open>{ decisionId, ...data }\<close>: later entries win, the first position stays.\<close>

definition spread_onto :: "(string \<times> jsval) list \<Rightarrow> (string \<times> jsval) list \<Rightarrow> (string \<times> jsval) list" where
  "spread_onto base extra =
     fold (\<lambda>(k, v) kvs. if k \<in> set (map fst kvs) then map (\<lambda>(k', v'). (k', if k' = k then v else v')) kvs
                        else kvs @ [(k, v)]) extra base"

definition fenced_completeSupervisorDecision ::
  "int \<Rightarrow> int \<Rightarrow> int \<Rightarrow> execution_fence \<Rightarrow> string \<Rightarrow> decision_status \<Rightarrow> string \<Rightarrow> (string \<times> jsval) list \<Rightarrow> db
   \<Rightarrow> store_error + run_event \<times> db" where
  "fenced_completeSupervisorDecision executedAt t dbNow context decisionId status err data =
     withFence dbNow context (\<lambda>scope s.
       fetch (find (\<lambda>d. d_id d = decisionId \<and> d_runId d = xs_runId scope \<and> d_attempt d = xs_ordinal scope)
                (db_decisions s)) (Thrown ''Supervisor decision does not belong to fenced Attempt'') (\<lambda>decision.
       require (d_status decision = Dec_proposed)
         (Thrown ''Supervisor decision does not belong to fenced Attempt'')
      (let P = (\<lambda>d. d_id d = decisionId \<and> d_status d = Dec_proposed)
       in require (cnt P (db_decisions s) = 1) (Thrown ''Supervisor decision changed during fenced completion'')
         (appendEvent (xs_runId scope) ''supervisor.decision''
            (JObj (spread_onto [(''decisionId'', JStr decisionId)] data)) t
            (s\<lparr>db_decisions := upd P (\<lambda>d. d\<lparr>d_status := status, d_error := err, d_executedAt := Some executedAt\<rparr>)
               (db_decisions s)\<rparr>)))))"

text \<open>The last row of a table that satisfies \<open>P\<close> (\<open>ORDER BY rowid DESC LIMIT 1\<close>).\<close>

fun upd_first :: "('r \<Rightarrow> bool) \<Rightarrow> ('r \<Rightarrow> 'r) \<Rightarrow> 'r list \<Rightarrow> 'r list" where
  "upd_first P f [] = []"
| "upd_first P f (x # xs) = (if P x then f x # xs else x # upd_first P f xs)"

definition upd_last :: "('r \<Rightarrow> bool) \<Rightarrow> ('r \<Rightarrow> 'r) \<Rightarrow> 'r list \<Rightarrow> 'r list" where
  "upd_last P f xs = rev (upd_first P f (rev xs))"

text \<open>
  What the fenced port adds to a new request inside the same transaction: the Attempt and
  its audit row carry the sequence number of the waiting event, and the tool attempt that
  asked is complete.
\<close>

definition waiting_hook :: "int \<Rightarrow> string \<Rightarrow> string \<Rightarrow> int \<Rightarrow> string \<Rightarrow> int \<Rightarrow> db \<Rightarrow> store_error + db" where
  "waiting_hook t aid runId ordinal toolCallId seq s =
     and_then (put_attempts (upd (\<lambda>a. a_id a = aid \<and> a_ordinal a = ordinal \<and> a_status a = A_waiting_input)
        (\<lambda>a. a\<lparr>a_eventSequence := seq\<rparr>) (db_attempts s)) s) (\<lambda>s1.
     Inr (snd (completeToolAttempt t runId ordinal toolCallId True ''''
       (s1\<lparr>db_audit := upd_last (\<lambda>x. au_attemptId x = aid \<and> au_scenario x = ''input'')
            (\<lambda>x. x\<lparr>au_eventSequence := seq\<rparr>) (db_audit s1)\<rparr>))))"

definition fenced_requestUserInput ::
  "string \<Rightarrow> string \<Rightarrow> int \<Rightarrow> int \<Rightarrow> execution_fence \<Rightarrow> string \<Rightarrow> user_input_field list \<Rightarrow> string \<Rightarrow> db
   \<Rightarrow> store_error + (user_input_request \<times> run_event) \<times> db" where
  "fenced_requestUserInput uuid auditUuid t dbNow context prompt flds toolCallId =
     withFence dbNow context (\<lambda>scope s.
       let rid = xs_runId scope; ord = xs_ordinal scope; aid = xf_attemptId context
       in require (list_ex (\<lambda>x. tool_row rid ord toolCallId x \<and> ta_status x = ''running'') (db_toolAttempts s))
            (Thrown ''Tool attempt is not running for fenced Attempt'')
         (and_then (requestUserInput uuid auditUuid t rid prompt flds s) (\<lambda>(request, s1).
          require (pending_input s rid = None)
            (Thrown ''Store requestUserInput did not produce the expected fenced waiting event'')
         (fetch (get_run s1 rid) (Type_error ''run is undefined'') (\<lambda>run.
          and_then (waiting_hook t aid rid ord toolCallId (r_lastEventSeq run) s1) (\<lambda>s2.
          fetch (find (\<lambda>e. e_runId e = rid \<and> e_seq e = r_lastEventSeq run) (db_events s2))
            (Thrown ''Store requestUserInput did not produce the expected fenced waiting event'') (\<lambda>event.
          require (e_type event = ''run.waiting_for_input'' \<and> e_attemptId event = aid)
            (Thrown ''Store requestUserInput did not produce the expected fenced waiting event'')
         (require (json_extract (e_data event) ''requestId'' = Some (JStr (u_id request)))
            (Thrown ''Store waiting event request identity mismatch'')
            (Inr ((request, event), s2))))))))))"

section \<open>The port lets only the lease holder through\<close>

definition holds_lease :: "int \<times> execution_fence \<Rightarrow> db \<Rightarrow> bool" where
  "holds_lease ctx s = ok (validate (fst ctx) (snd ctx) s)"

definition enter_fence ::
  "int \<times> execution_fence \<Rightarrow> (db \<Rightarrow> store_error + 'r \<times> db) \<Rightarrow> db \<Rightarrow> store_error + 'r \<times> db" where
  "enter_fence ctx work s = withFence (fst ctx) (snd ctx) (\<lambda>_. work) s"

interpretation fence_port: guarded_port holds_lease enter_fence
proof
  fix ctx s and work :: "db \<Rightarrow> store_error + 'r \<times> db"
  assume "\<not> holds_lease ctx s"
  then show "\<exists>e. enter_fence ctx work s = Inl e"
    by (cases "validate (fst ctx) (snd ctx) s") (auto simp: holds_lease_def enter_fence_def withFence_def and_then_def)
next
  fix ctx s and work :: "db \<Rightarrow> store_error + 'r \<times> db" and r s'
  assume "enter_fence ctx work s = Inr (r, s')"
  then show "work s = Inr (r, s')" by (auto simp: enter_fence_def withFence_def)
qed

lemma withFence_Inr:
  "withFence dbNow ctx work s = Inr (r, s') \<longleftrightarrow>
   (\<exists>scope. validate dbNow ctx s = Inr scope \<and> work scope s = Inr (r, s'))"
  by (auto simp: withFence_def)

text \<open>The scope a fence resolves to names the running run and its current Attempt.\<close>

lemma validate_scope:
  assumes "validate dbNow ctx s = Inr scope"
  obtains a r l where "get_attempt s (xf_attemptId ctx) = Some a" "a_active a" "a_status a = A_running"
    "a_version a = xf_expectedVersion ctx" "xs_runId scope = a_runId a" "xs_ordinal scope = a_ordinal a"
    "get_run s (xs_runId scope) = Some r" "r_status r = Running" "r_attempt r = xs_ordinal scope"
    "get_lease s (xf_attemptId ctx) = Some l" "l_token l = xf_leaseToken ctx" "l_fence l = xf_executionFence ctx"
    "l_releasedAt l = None" "dbNow < l_leaseUntil l"
  using assms by (auto simp: validate_def validateInput_def intro: that)

section \<open>Invariant preservation\<close>

text \<open>An operation that leaves runs, Attempts, events, checkpoints and leases alone.\<close>

definition quiet :: "db \<Rightarrow> db \<Rightarrow> bool" where
  "quiet s' s = (same_core s' s \<and> db_leases s' = db_leases s)"

lemma quiet_inv: "quiet s' s \<Longrightarrow> store_inv s \<Longrightarrow> store_inv s'"
  using same_core_inv by (auto simp: quiet_def)

lemma claimOperation_quiet: "claimOperation hash t oid rid n ty pl s = Inr (x, s') \<Longrightarrow> quiet s' s"
  by (auto simp: claimOperation_def Let_def quiet_def same_core_def split: if_splits)

lemma updateOperation_quiet: "updateOperation t oid u s = Inr (x, s') \<Longrightarrow> quiet s' s"
  by (auto simp: updateOperation_def Let_def quiet_def same_core_def)

lemma recordToolAttempt_quiet: "recordToolAttempt hash t rid n tc nm args s = Inr (x, s') \<Longrightarrow> quiet s' s"
  by (auto simp: recordToolAttempt_def Let_def quiet_def same_core_def split: if_splits)

lemma completeToolAttempt_quiet: "quiet (snd (completeToolAttempt t rid n tc b err s)) s"
  by (simp add: completeToolAttempt_def Let_def quiet_def same_core_def)

lemma claimEventConsumer_quiet: "claimEventConsumer t rid cid s = Inr (x, s') \<Longrightarrow> quiet s' s"
  by (auto simp: claimEventConsumer_def Let_def quiet_def same_core_def split: option.splits)

lemma ackEventConsumer_quiet: "quiet (snd (ackEventConsumer t rid cid g n s)) s"
  by (simp add: ackEventConsumer_def Let_def quiet_def same_core_def split: option.split)

lemma enqueueControl_quiet: "enqueueControl uuid t rid q k c n s = Inr (x, s') \<Longrightarrow> quiet s' s"
  by (auto simp: enqueueControl_def assertControlContent_def insert_control_def Let_def quiet_def same_core_def
      split: option.splits if_splits)

lemma claimControlItem_quiet: "quiet (snd (claimControlItem t rid n s)) s"
  by (simp add: claimControlItem_def supersede_controls_def Let_def quiet_def same_core_def split: option.split)

lemma completeControlItem_quiet: "quiet (snd (completeControlItem t cid st err s)) s"
  by (simp add: completeControlItem_def Let_def quiet_def same_core_def)

lemma recordSupervisorDecision_quiet: "recordSupervisorDecision d s = Inr (x, s') \<Longrightarrow> quiet s' s"
  by (auto simp: recordSupervisorDecision_def quiet_def same_core_def)

lemma updateSupervisorDecision_quiet: "quiet (snd (updateSupervisorDecision t did st err s)) s"
  by (simp add: updateSupervisorDecision_def Let_def quiet_def same_core_def)

lemma claimTaskRunCommand_quiet: "claimTaskRunCommand sha t input s = Inr (x, s') \<Longrightarrow> quiet s' s"
  by (auto simp: claimTaskRunCommand_def Let_def quiet_def same_core_def split: option.splits)

lemma settleTaskRunCommand_quiet: "settleTaskRunCommand t p r c st res err s = Inr (x, s') \<Longrightarrow> quiet s' s"
  by (auto simp: settleTaskRunCommand_def Let_def quiet_def same_core_def)

lemma runStartupRecovery_quiet: "runStartupRecovery t s = Inr (x, s') \<Longrightarrow> quiet s' s"
  by (auto simp: runStartupRecovery_def close_operations_def close_tool_attempts_def close_deliveries_def Let_def
      quiet_def same_core_def)

lemmas runtime_quiet =
  claimOperation_quiet updateOperation_quiet recordToolAttempt_quiet claimEventConsumer_quiet
  enqueueControl_quiet recordSupervisorDecision_quiet claimTaskRunCommand_quiet settleTaskRunCommand_quiet
  runStartupRecovery_quiet

lemma advanceRunPhase_inv: "store_inv s \<Longrightarrow> store_inv (snd (advanceRunPhase t rid ph s))"
  by (simp add: advanceRunPhase_def Let_def set_run_def) (rule store_inv_upd_runs, simp_all)

lemma setRunPhase_inv: "store_inv s \<Longrightarrow> store_inv (snd (setRunPhase t rid ph s))"
  by (simp add: setRunPhase_def advanceRunPhase_inv)

text \<open>A change of \<open>event_sequence\<close> only.\<close>

lemma store_inv_event_sequence:
  assumes inv: "store_inv s" and ok: "attempts_ok (db_attempts s')"
    and atts: "db_attempts s' = upd P (\<lambda>a. a\<lparr>a_eventSequence := n\<rparr>) (db_attempts s)"
    and same: "db_runs s' = db_runs s" "db_events s' = db_events s" "db_checkpoints s' = db_checkpoints s"
  shows "store_inv s'"
proof -
  from inv have "coherent s" "journal_ok s" "checkpoints_ok s" by (simp_all add: store_inv_def)
  moreover from this(1) have "coherent s'"
    by (rule coherent_same_attempt [where F = id and G = "\<lambda>a. if P a then a\<lparr>a_eventSequence := n\<rparr> else a"])
      (use ok atts same in \<open>auto simp: upd_def\<close>)
  ultimately show ?thesis using same
    by (simp add: store_inv_def journal_ok_def journal_def checkpoints_ok_def has_run_def)
qed

lemma waiting_hook_inv:
  assumes "store_inv s" and "waiting_hook t aid rid n tc seq s = Inr s'"
  shows "store_inv s'"
proof -
  let ?P = "\<lambda>a. a_id a = aid \<and> a_ordinal a = n \<and> a_status a = A_waiting_input"
  from assms(2) have "db_attempts s' = upd ?P (\<lambda>a. a\<lparr>a_eventSequence := seq\<rparr>) (db_attempts s)"
    "attempts_ok (db_attempts s')" "db_runs s' = db_runs s" "db_events s' = db_events s"
    "db_checkpoints s' = db_checkpoints s"
    by (auto simp: waiting_hook_def put_attempts_def completeToolAttempt_def Let_def)
  with assms(1) show ?thesis by (intro store_inv_event_sequence [where s = s and s' = s' and P = ?P])
qed

lemma fenced_requestUserInput_inv:
  assumes "store_inv s" and "fenced_requestUserInput uuid au t dbNow ctx prompt flds tc s = Inr (x, s')"
  shows "store_inv s'"
  using assms
  by (auto simp: fenced_requestUserInput_def withFence_Inr Let_def dest!: waiting_hook_inv [rotated]
      dest: requestUserInput_inv)

lemma fenced_upsertCheckpoint_inv:
  assumes "store_inv s" and "fenced_upsertCheckpoint dbNow ctx c s = Inr (x, s')"
  shows "store_inv s'"
proof -
  from assms(2) obtain scope where v: "validate dbNow ctx s = Inr scope"
    and up: "upsertCheckpoint (c\<lparr>cp_runId := xs_runId scope, cp_attempt := xs_ordinal scope\<rparr>) s = Inr (x, s')"
    by (auto simp: fenced_upsertCheckpoint_def withFence_Inr)
  from v obtain r where "get_run s (xs_runId scope) = Some r" "r_attempt r = xs_ordinal scope"
    by (rule validate_scope)
  with upsertCheckpoint_inv [OF assms(1) up] show ?thesis by simp
qed

lemma fenced_completeControlDelivery_inv:
  assumes "store_inv s" and "fenced_completeControlDelivery t dbNow ctx i b err s = Inr (x, s')"
  shows "store_inv s'"
proof -
  from assms(2) obtain rid ty dt b' where
    "appendEvent rid ty dt t (snd (completeControlItem t i b' err s)) = Inr (x, s')"
    by (auto simp: fenced_completeControlDelivery_def withFence_Inr case_prod_beta)
  then show ?thesis
    using appendEvent_inv quiet_inv [OF completeControlItem_quiet assms(1)] by blast
qed

lemma fenced_completeSupervisorDecision_inv:
  assumes inv: "store_inv s" and run: "fenced_completeSupervisorDecision at t dbNow ctx i st err data s = Inr (x, s')"
  shows "store_inv s'"
proof -
  let ?f = "\<lambda>ds. upd (\<lambda>d. d_id d = i \<and> d_status d = Dec_proposed)
              (\<lambda>d. d\<lparr>d_status := st, d_error := err, d_executedAt := Some at\<rparr>) ds"
  from run obtain rid ty dt where "appendEvent rid ty dt t (s\<lparr>db_decisions := ?f (db_decisions s)\<rparr>) = Inr (x, s')"
    by (auto simp: fenced_completeSupervisorDecision_def withFence_Inr Let_def)
  moreover have "store_inv (s\<lparr>db_decisions := ?f (db_decisions s)\<rparr>)"
    using inv by (rule store_inv_cong [THEN iffD2, rotated -1]) simp_all
  ultimately show ?thesis using appendEvent_inv by blast
qed

section \<open>Behaviour\<close>

lemma cnt_zero: "(\<And>x. x \<in> set xs \<Longrightarrow> \<not> P x) \<Longrightarrow> cnt P xs = 0"
  by (auto simp: cnt_def filter_empty_conv)

text \<open>What startup recovery leaves: nothing in flight.\<close>

definition operation_settled :: "db \<Rightarrow> operation_row \<Rightarrow> bool" where
  "operation_settled s x =
     (op_status x \<noteq> ''running'' \<and> \<not> (op_status x = ''authorized'' \<and> receipt_bound s x))"

definition settled_work :: "db \<Rightarrow> bool" where
  "settled_work s =
     ((\<forall>x \<in> set (db_operations s). operation_settled s x)
      \<and> (\<forall>x \<in> set (db_toolAttempts s). ta_status x \<noteq> ''running'')
      \<and> (\<forall>c \<in> set (db_controls s). ci_status c \<noteq> Ctl_delivering))"

lemma close_operations_rows:
  assumes "x \<in> set (db_operations (snd (close_operations t P st sg e s0)))"
    and "st \<noteq> ''running''" and "st \<noteq> ''authorized''"
  shows "operation_settled s x \<or> (x \<in> set (db_operations s0) \<and> \<not> P x)"
  using assms by (auto simp: close_operations_def set_upd operation_settled_def)

lemma close_operations_rest [simp]:
  "db_allowReceipts (snd (close_operations t P st sg e s)) = db_allowReceipts s"
  by (simp add: close_operations_def)

lemma close_rest [simp]:
  "db_allowReceipts (snd (close_tool_attempts t s)) = db_allowReceipts s"
  "db_allowReceipts (snd (close_deliveries t s)) = db_allowReceipts s"
  "db_operations (snd (close_tool_attempts t s)) = db_operations s"
  "db_operations (snd (close_deliveries t s)) = db_operations s"
  "db_toolAttempts (snd (close_deliveries t s)) = db_toolAttempts s"
  by (simp_all add: close_tool_attempts_def close_deliveries_def)

lemma close_tool_attempts_done: "x \<in> set (db_toolAttempts (snd (close_tool_attempts t s))) \<Longrightarrow> ta_status x \<noteq> ''running''"
  by (auto simp: close_tool_attempts_def set_upd)

lemma close_deliveries_done: "c \<in> set (db_controls (snd (close_deliveries t s))) \<Longrightarrow> ci_status c \<noteq> Ctl_delivering"
  by (auto simp: close_deliveries_def set_upd)

lemma runStartupRecovery_settles:
  assumes "runStartupRecovery t s = Inr (n, s')"
  shows "settled_work s'"
proof -
  obtain g1 g2 g3 e1 e2 e3 s1 s2 s3 where
    s1: "s1 = snd (close_operations t (capability_running s) ''outcome_unknown'' g1 e1 s)"
    and s2: "s2 = snd (close_operations t (capability_authorized s) ''cancelled'' g2 e2 s1)"
    and s3: "s3 = snd (close_operations t (ordinary_running s) ''outcome_unknown'' g3 e3 s2)"
    and s': "s' = snd (close_deliveries t (snd (close_tool_attempts t s3)))"
    using assms unfolding runStartupRecovery_def Let_def require_Inr sum.inject prod.inject by metis
  have wf: "\<not> malformed_capability s x" if "x \<in> set (db_operations s)" for x
    using assms that unfolding runStartupRecovery_def require_Inr list_ex_iff by blast
  have "operation_settled s x" if x: "x \<in> set (db_operations s3)" for x
  proof (rule ccontr)
    assume no: "\<not> operation_settled s x"
    have 1: "x \<in> set (db_operations s2)" "\<not> ordinary_running s x"
      using close_operations_rows [OF x [unfolded s3], of s] no by simp_all
    have 2: "x \<in> set (db_operations s1)" "\<not> capability_authorized s x"
      using close_operations_rows [OF 1(1) [unfolded s2], of s] no by simp_all
    have 3: "x \<in> set (db_operations s)" "\<not> capability_running s x"
      using close_operations_rows [OF 2(1) [unfolded s1], of s] no by simp_all
    with 1 2 wf [OF 3(1)] no show False
      by (auto simp: operation_settled_def malformed_capability_def capability_running_def capability_authorized_def
          ordinary_running_def)
  qed
  moreover have "operation_settled s' = operation_settled s"
    by (simp add: operation_settled_def receipt_bound_def fun_eq_iff s' s3 s2 s1)
  ultimately show ?thesis
    by (auto simp: settled_work_def s' dest: close_tool_attempts_done close_deliveries_done)
qed

lemma runStartupRecovery_nothing:
  assumes "settled_work s"
  shows "runStartupRecovery t s = Inr (\<lparr>rc_operations = 0, rc_toolAttempts = 0, rc_controlInbox = 0\<rparr>, s)"
proof -
  have no: "\<not> capability_running s x \<and> \<not> capability_authorized s x \<and> \<not> ordinary_running s x \<and> \<not> malformed_capability s x"
    if "x \<in> set (db_operations s)" for x
    using assms that by (auto simp: settled_work_def operation_settled_def malformed_capability_def
        capability_running_def capability_authorized_def ordinary_running_def)
  have "\<not> list_ex (malformed_capability s) (db_operations s)" using no by (auto simp: list_ex_iff)
  moreover have "cnt (capability_running s) (db_operations s) = 0" "cnt (capability_authorized s) (db_operations s) = 0"
    "cnt (ordinary_running s) (db_operations s) = 0" using no by (auto intro: cnt_zero)
  moreover have "upd (capability_running s) f (db_operations s) = db_operations s"
    "upd (capability_authorized s) f (db_operations s) = db_operations s"
    "upd (ordinary_running s) f (db_operations s) = db_operations s" for f
    using no by (auto intro: upd_none)
  moreover have "cnt (\<lambda>x. ta_status x = ''running'') (db_toolAttempts s) = 0"
    "upd (\<lambda>x. ta_status x = ''running'') f (db_toolAttempts s) = db_toolAttempts s" for f
    using assms by (auto simp: settled_work_def intro: cnt_zero upd_none)
  moreover have "cnt (\<lambda>c. ci_status c = Ctl_delivering) (db_controls s) = 0"
    "upd (\<lambda>c. ci_status c = Ctl_delivering) f (db_controls s) = db_controls s" for f
    using assms by (auto simp: settled_work_def intro: cnt_zero upd_none)
  ultimately show ?thesis
    by (simp add: runStartupRecovery_def close_operations_def close_tool_attempts_def close_deliveries_def require_def)
qed

text \<open>A claimed operation is the row every later claim of its id returns.\<close>

lemma claimOperation_stored:
  assumes "claimOperation hash t oid rid n ty pl s = Inr ((row, c), s')"
  shows "getOperation s' oid = Some row" "op_payloadHash row = hash pl" "op_type row = ty" "op_runId row = rid"
  using assms by (auto simp: claimOperation_def Let_def)

lemma claimOperation_again:
  assumes "claimOperation hash t oid rid n ty pl s = Inr ((row, c), s')"
  shows "claimOperation hash t' oid rid n' ty pl s' = Inr ((row, False), s')"
  using claimOperation_stored [OF assms] by (simp add: claimOperation_def require_def fetch_def)

lemma claimOperation_conflict:
  assumes "claimOperation hash t oid rid n ty pl s = Inr ((row, c), s')"
    and "hash pl' \<noteq> hash pl \<or> ty' \<noteq> ty \<or> rid' \<noteq> rid"
  shows "claimOperation hash t' oid rid' n' ty' pl' s'
    = Inl (Thrown ''Operation ID already exists with a different payload or scope'')"
  using claimOperation_stored [OF assms(1)] assms(2) by (auto simp: claimOperation_def require_def fetch_def)

text \<open>A recorded outcome is final: no default update records another one.\<close>

lemma updateOperation_outcome_final:
  assumes "getOperation s oid = Some x" and "op_status x \<noteq> ''running''"
    and "operation_over (ou_status u)" and "ou_expectedStatuses u = None"
  shows "updateOperation t oid u s = Inl (Thrown ''Operation cannot transition'')"
  using assms by (simp add: updateOperation_def Let_def given_def fetch_def require_def)

text \<open>The guard stops a call whose last five finished attempts were the same call.\<close>

lemma takeWhile_take_prefix:
  assumes "k \<le> length xs" and "\<forall>x \<in> set (take k xs). P x"
  shows "k \<le> length (takeWhile P xs)"
  using assms
proof (induction k arbitrary: xs)
  case (Suc k)
  then show ?case by (cases xs) auto
qed simp

lemma evaluateToolGuard_repeats:
  assumes finished: "finished = rev (filter (\<lambda>x. ta_runId x = rid \<and> ta_status x \<noteq> ''running'') (db_toolAttempts s))"
    and "5 \<le> length finished" and "\<forall>x \<in> set (take 5 finished). ta_toolName x = nm \<and> ta_argsHash x = h"
  shows "evaluateToolGuard s rid nm h \<noteq> Guard_open"
proof -
  have "5 \<le> length (takeWhile (\<lambda>x. ta_toolName x = nm \<and> ta_argsHash x = h) (take 50 finished))"
    using assms(2,3) by (intro takeWhile_take_prefix) simp_all
  then show ?thesis unfolding evaluateToolGuard_def Let_def finished by simp
qed

text \<open>Cursors of event consumers move forward and never past the journal.\<close>

lemma ack_accepted:
  assumes "ackEventConsumer t rid cid g n s = (Ack_accepted, s')"
  obtains r c settled final where "get_run s rid = Some r" "getEventConsumer s rid cid = Some c" "ec_generation c = g"
    "ec_ackedSeq c \<le> n" "n \<le> r_lastEventSeq r"
    "s' = s\<lparr>db_consumers := upd (\<lambda>x. consumer_row rid cid x \<and> ec_generation x = g) (acked_row t settled final n)
        (db_consumers s)\<rparr>"
proof -
  obtain r where r: "get_run s rid = Some r" using assms by (auto simp: ackEventConsumer_def split: option.splits)
  obtain c where c: "getEventConsumer s rid cid = Some c"
    using assms r by (auto simp: ackEventConsumer_def split: option.splits)
  have "ec_generation c = g" "\<not> (\<not> safe_integer n \<or> n < ec_ackedSeq c \<or> r_lastEventSeq r < n)"
    using assms r c by (simp_all add: ackEventConsumer_def split: if_splits)
  moreover from this assms r c obtain settled final where
    "s' = s\<lparr>db_consumers := upd (\<lambda>x. consumer_row rid cid x \<and> ec_generation x = g) (acked_row t settled final n)
        (db_consumers s)\<rparr>" by (auto simp: ackEventConsumer_def Let_def)
  ultimately show ?thesis using r c that by auto
qed

lemma find_consumer_upd:
  assumes "find (consumer_row rid cid) xs = Some c" and "Q c" and "\<And>x. consumer_row rid cid (f x) = consumer_row rid cid x"
  shows "find (consumer_row rid cid) (upd (\<lambda>x. consumer_row rid cid x \<and> Q x) f xs) = Some (f c)"
  using assms by (induction xs) (auto split: if_splits)

lemma acked_row_fields [simp]:
  "consumer_row rid cid (acked_row t a b n x) = consumer_row rid cid x"
  "ec_ackedSeq (acked_row t a b n x) = n"
  "ec_generation (acked_row t a b n x) = ec_generation x"
  by (simp_all add: acked_row_def consumer_row_def)

lemma ackEventConsumer_forward:
  assumes "ackEventConsumer t rid cid g n s = (Ack_accepted, s')"
  shows "\<exists>c c' r. getEventConsumer s rid cid = Some c \<and> getEventConsumer s' rid cid = Some c'
     \<and> ec_ackedSeq c \<le> n \<and> ec_ackedSeq c' = n \<and> ec_generation c' = g
     \<and> get_run s rid = Some r \<and> n \<le> r_lastEventSeq r"
  using assms
proof (rule ack_accepted)
  fix r c settled final
  assume c: "getEventConsumer s rid cid = Some c" and g: "ec_generation c = g" and
    rest: "get_run s rid = Some r" "ec_ackedSeq c \<le> n" "n \<le> r_lastEventSeq r" and
    s': "s' = s\<lparr>db_consumers := upd (\<lambda>x. consumer_row rid cid x \<and> ec_generation x = g) (acked_row t settled final n)
        (db_consumers s)\<rparr>"
  have "getEventConsumer s' rid cid = Some (acked_row t settled final n c)"
    using find_consumer_upd [OF c [unfolded getEventConsumer_def], where Q = "\<lambda>x. ec_generation x = g"] g
    by (simp add: s' getEventConsumer_def)
  with c g rest show ?thesis by auto
qed

lemma ackEventConsumer_stale:
  assumes "getEventConsumer s rid cid = Some c" and "ec_generation c \<noteq> g" and "get_run s rid = Some r"
  shows "ackEventConsumer t rid cid g n s = (Ack_stale, s)"
  using assms by (simp add: ackEventConsumer_def)

end
