(* ===== verification/Store_Machine.thy ===== *)
theory Store_Machine
  imports Attempt_Settlement Continuations Runtime_Mutations
begin

text \<open>
  The control plane as one machine: every modelled operation that changes the store is a
  command, a command that throws leaves the store as it was, and a history is a list of
  commands. The machine is an instance of the interfaces of \<open>Machine_Specs\<close>: it keeps
  the store invariant and never lowers the fence of an execution lease. The three
  operations that return a continuation lease are not commands; what they need to keep the
  invariant is stated where they are modelled.
\<close>

section \<open>Leases under the statements\<close>

lemma leases_statements:
  "insert_event e s = Inr s' \<Longrightarrow> db_leases s' = db_leases s"
  "put_attempts as s = Inr s' \<Longrightarrow> db_leases s' = db_leases s"
  "put_inputs us s = Inr s' \<Longrightarrow> db_leases s' = db_leases s"
  "put_continuations ns s = Inr s' \<Longrightarrow> db_leases s' = db_leases s"
  "insert_audit x s = Inr s' \<Longrightarrow> db_leases s' = db_leases s"
  "insert_run r s = Inr s' \<Longrightarrow> db_leases s' = db_leases s"
  by (auto simp: statement_defs)

lemma leases_repository:
  "append_event_at rid ty data aid seq t s = Inr s' \<Longrightarrow> db_leases s' = db_leases s"
  "cas_attempt aid v b st g err s = Inr s' \<Longrightarrow> db_leases s' = db_leases s"
  "cas_run rid rst n f err s = Inr s' \<Longrightarrow> db_leases s' = db_leases s"
  "recordTerminalAudit uuid a st rs v ev t s = Inr s' \<Longrightarrow> db_leases s' = db_leases s"
  by (auto simp: append_event_at_def cas_attempt_def cas_run_def recordTerminalAudit_def Let_def set_run_def
      dest: leases_statements)

lemmas leases_dest = leases_statements leases_repository project_keeps(4) finalize_keeps(5)

lemma leases_writes [simp]:
  "db_leases (set_run rid P f s) = db_leases s"
  "db_leases (park_checkpoint rid t s) = db_leases s"
  "db_leases (refresh_waiting t s) = db_leases s"
  "db_leases (set_candidate Q g s) = db_leases s"
  "db_leases (set_decision R h s) = db_leases s"
  "db_leases (deliver_message sid m t s) = db_leases s"
  "db_leases (reject_candidates aid t s) = db_leases s"
  "db_leases (supersede_decisions rid n rs t s) = db_leases s"
  "db_leases (insert_or_ignore_candidate c s) = db_leases s"
  by (simp_all add: set_run_def park_checkpoint_def refresh_waiting_def set_candidate_def set_decision_def
      deliver_message_def reject_candidates_def supersede_decisions_def insert_or_ignore_candidate_def)

section \<open>Leases under the operations\<close>

lemma appendEvent_leases: "appendEvent rid ty data t s = Inr (e, s') \<Longrightarrow> db_leases s' = db_leases s"
  by (auto simp: appendEvent_def Let_def dest!: leases_dest)

lemma createRun_leases: "createRun uuid au t sid goal req k s = Inr (r, s') \<Longrightarrow> db_leases s' = db_leases s"
  by (auto simp: createRun_def Let_def dest!: leases_dest)

lemma transitionRun_leases:
  assumes "transitionRun uuid t rid ex nx ty data rs att s = Inr (e, s')"
  shows "db_leases s' = db_leases s"
proof (cases e)
  case None
  with assms show ?thesis
    by (auto simp: transitionRun_def Let_def split: option.splits if_splits)
next
  case (Some ev)
  with assms show ?thesis
    by (auto simp: transitionRun_def Let_def split: option.splits if_splits dest!: leases_dest)
qed

lemma interrupt_one_leases: "interrupt_one uuid t rid n s = Inr s' \<Longrightarrow> db_leases s' = db_leases s"
  by (auto simp: interrupt_one_def Let_def dest!: leases_dest)

lemma interrupt_all_leases: "interrupt_all uuid t i xs s = Inr s' \<Longrightarrow> db_leases s' = db_leases s"
  by (induction uuid t i xs s rule: interrupt_all.induct) (auto dest!: interrupt_one_leases)

lemma markInterrupted_leases: "markInterrupted uuid t s = Inr s' \<Longrightarrow> db_leases s' = db_leases s"
  by (auto simp: markInterrupted_def dest!: interrupt_all_leases)

lemma resumeRun_leases: "resumeRun uuid t rid s = Inr (r, s') \<Longrightarrow> db_leases s' = db_leases s"
  by (auto simp: resumeRun_def Let_def dest!: leases_dest)

lemma requestUserInput_leases:
  "requestUserInput uuid au t rid prompt flds s = Inr (u, s') \<Longrightarrow> db_leases s' = db_leases s"
  by (auto simp: requestUserInput_def Let_def split: option.splits dest!: leases_dest)

lemma submitUserInput_leases: "submitUserInput t qid resp s = Inr (u, s') \<Longrightarrow> db_leases s' = db_leases s"
  by (auto simp: submitUserInput_def Let_def dest!: leases_dest)

lemma upsertCheckpoint_leases: "upsertCheckpoint c s = Inr (c', s') \<Longrightarrow> db_leases s' = db_leases s"
  by (auto simp: upsertCheckpoint_def Let_def split: option.splits if_splits)

lemmas leases_lifecycle =
  appendEvent_leases createRun_leases transitionRun_leases markInterrupted_leases resumeRun_leases
  requestUserInput_leases submitUserInput_leases upsertCheckpoint_leases

lemma append_rejections_leases: "append_rejections rid t ds s = Inr (es, s') \<Longrightarrow> db_leases s' = db_leases s"
  by (induction ds arbitrary: s es) (auto dest!: appendEvent_leases)

lemma transitionRuntime_leases:
  "transitionRuntime uuid t dbNow cmd f s = Inr (out, s') \<Longrightarrow> db_leases s' = db_leases s"
  by (auto simp: transitionRuntime_def Let_def split: if_splits prod.splits
      dest!: append_rejections_leases transitionRun_leases)

lemma transitionResume_leases:
  "transitionResume uuid t c a sc s = Inr (out, s') \<Longrightarrow> db_leases s' = db_leases s"
  by (auto simp: transitionResume_def dest!: resume_allowed_Inr dest: resumeRun_leases)

lemma execute_system_leases: "execute_system uuids t c a s = Inr (out, s') \<Longrightarrow> db_leases s' = db_leases s"
  by (cases c)
    (auto simp: execute_system_def interrupt_active_def transitionAdmissionFailure_def transitionExternalApproval_def
      transitionResumePreparationFailure_def Let_def
      dest!: markInterrupted_leases transitionRun_leases transitionResume_leases)

lemma transitionSystem_leases: "transitionSystem uuids t c a s = Inr (out, s') \<Longrightarrow> db_leases s' = db_leases s"
  by (auto simp: transitionSystem_def dest: execute_system_leases)

lemma queueContinuation_leases: "queueContinuation uuid t rid rs nb s = Inr (c, s') \<Longrightarrow> db_leases s' = db_leases s"
  by (auto simp: queueContinuation_def insert_continuation_def Let_def dest!: leases_dest)

lemma updateContinuation_leases: "updateContinuation t cid st err ow s = Inr (b, s') \<Longrightarrow> db_leases s' = db_leases s"
  by (auto simp: updateContinuation_def Let_def dest!: leases_dest)

lemma claimContinuation_leases:
  assumes "claimContinuation uuid t rid ow ms s = Inr (res, s')"
  shows "db_leases s' = db_leases s"
proof (cases res)
  case None
  with assms show ?thesis
    by (auto simp: claimContinuation_def Let_def split: option.splits if_splits dest!: leases_dest)
next
  case (Some x)
  then obtain c' run' ev where "res = Some (c', run', ev)" by (cases x) auto
  with assms show ?thesis by (auto elim!: claim_Inr dest!: leases_dest)
qed

lemma block_for_continuation_leases:
  "block_for_continuation uuid t rid n ev rs s = Inr s' \<Longrightarrow> db_leases s' = db_leases s"
  by (auto simp: block_for_continuation_def Let_def dest!: leases_dest)

lemma queue_crash_recovery_leases:
  "queue_crash_recovery cid uuid t r e s = Inr (x, s') \<Longrightarrow> db_leases s' = db_leases s"
  by (auto simp: queue_crash_recovery_def insert_continuation_def Let_def dest!: leases_dest)

lemma queue_crash_recoveries_leases:
  "queue_crash_recoveries cids uuids t i xs s = Inr (ys, s') \<Longrightarrow> db_leases s' = db_leases s"
  by (induction cids uuids t i xs s arbitrary: ys s' rule: queue_crash_recoveries.induct)
    (auto dest!: queue_crash_recovery_leases)

lemma queueSafeCrashRecoveryContinuations_leases:
  "queueSafeCrashRecoveryContinuations cids uuids t m s = Inr (ys, s') \<Longrightarrow> db_leases s' = db_leases s"
  by (auto simp: queueSafeCrashRecoveryContinuations_def dest: queue_crash_recoveries_leases)

section \<open>Fences under the operations\<close>

text \<open>The fence column of the lease table.\<close>

definition fence_table :: "db \<Rightarrow> (string \<times> int) list" where
  "fence_table s = map (\<lambda>l. (l_attemptId l, l_fence l)) (db_leases s)"

lemma fence_table_leases: "db_leases s' = db_leases s \<Longrightarrow> fence_table s' = fence_table s"
  by (simp add: fence_table_def)

lemma fence_of_table: "fence_of s aid = (case map_of (fence_table s) aid of None \<Rightarrow> 0 | Some f \<Rightarrow> f)"
proof -
  have "map_option l_fence (find (\<lambda>l. l_attemptId l = aid) ls)
      = map_of (map (\<lambda>l. (l_attemptId l, l_fence l)) ls) aid" for ls
    by (induction ls) auto
  from this [of "db_leases s"] show ?thesis
    by (auto simp: fence_of_def fence_table_def get_lease_def split: option.splits)
qed

text \<open>An update that leaves the fence and the key of every row alone.\<close>

lemma fence_table_set_lease:
  assumes "\<And>l. l_fence (f l) = l_fence l \<and> l_attemptId (f l) = l_attemptId l"
  shows "fence_table (set_lease aid P f s) = fence_table s"
  using assms by (simp add: set_lease_def fence_table_def upd_def)

lemma fence_table_sides:
  "fence_table (settle_side input a c r s) = fence_table s"
  "recover_side ri a s = Inr s' \<Longrightarrow> fence_table s' = fence_table s"
  "fence_table (cancel_side rs t a s) = fence_table s"
  "readjudicate_side ra c r s = Inr s' \<Longrightarrow> fence_table s' = fence_table s"
proof -
  have keep: "fence_table (set_candidate Q g x) = fence_table x" "fence_table (set_decision R h x) = fence_table x"
    "fence_table (deliver_message sid m t x) = fence_table x" "fence_table (reject_candidates aid t x) = fence_table x"
    "fence_table (supersede_decisions rid n rs t x) = fence_table x" for Q g x R h sid m t aid rid n rs
    by (simp_all add: fence_table_def)
  show "fence_table (settle_side input a c r s) = fence_table s"
    by (simp add: settle_side_def Let_def keep fence_table_set_lease)
  show "recover_side ri a s = Inr s' \<Longrightarrow> fence_table s' = fence_table s"
    by (auto simp: recover_side_def Let_def keep fence_table_set_lease)
  show "fence_table (cancel_side rs t a s) = fence_table s"
    by (simp add: cancel_side_def keep fence_table_set_lease)
  show "readjudicate_side ra c r s = Inr s' \<Longrightarrow> fence_table s' = fence_table s"
    by (auto simp: readjudicate_side_def Let_def keep)
qed

lemmas fence_dest = leases_dest [THEN fence_table_leases]

lemma settle_writes_fences: "settle_writes uuid input a c r d s = Inr (x, s') \<Longrightarrow> fence_table s' = fence_table s"
  by (auto simp: settle_writes_def Let_def fence_table_sides split: if_splits dest!: fence_dest)

lemma settleAttempt_fences: "settleAttempt uuid input s = Inr (x, s') \<Longrightarrow> fence_table s' = fence_table s"
  by (cases x) (metis settle_Inr settle_writes_fences)

lemma readjudicate_fences: "reAdjudicateBlockedCandidate uuid input s = Inr (x, s') \<Longrightarrow> fence_table s' = fence_table s"
  by (auto simp: reAdjudicateBlockedCandidate_def readjudicate_writes_def Let_def
      dest!: fence_dest fence_table_sides(4))

lemma recover_fences: "recoverInterruptedAttempt uuid input s = Inr (x, s') \<Longrightarrow> fence_table s' = fence_table s"
  by (auto simp: recoverInterruptedAttempt_def recover_writes_def assertAttemptTransition_def Let_def split: if_splits
      dest!: fence_dest fence_table_sides(2))

lemma cancel_fences: "cancelAttempt uuid aid rs t s = Inr (x, s') \<Longrightarrow> fence_table s' = fence_table s"
  by (auto simp: cancelAttempt_def cancel_writes_def assertAttemptTransition_def fence_table_sides Let_def
      split: if_splits dest!: fence_dest)

lemma record_fences:
  "recordCandidateResult sha uuid cid aid v tok fc resp t s = Inr (x, s') \<Longrightarrow> fence_table s' = fence_table s"
  by (auto simp: recordCandidateResult_def assertAttemptTransition_def Let_def split: option.splits
      dest!: fence_dest) (simp add: fence_table_def)

lemma renew_fences: "renewExecutionLease aid ow tok fc ms t s = Inr (x, s') \<Longrightarrow> fence_table s' = fence_table s"
  by (auto simp: renewExecutionLease_def Let_def fence_table_set_lease)

lemma release_fences: "fence_table (snd (releaseExecutionLease aid ow tok fc t s)) = fence_table s"
  by (simp add: releaseExecutionLease_def fence_table_set_lease)

lemma quiet_fences: "quiet s' s \<Longrightarrow> fence_table s' = fence_table s"
  by (rule fence_table_leases) (simp add: quiet_def)

lemma phase_leases [simp]:
  "db_leases (snd (advanceRunPhase t rid ph s)) = db_leases s"
  "db_leases (snd (setRunPhase t rid ph s)) = db_leases s"
  unfolding setRunPhase_def advanceRunPhase_def Let_def by (simp_all only: snd_conv leases_writes split: if_split) simp

lemma waiting_hook_leases: "waiting_hook t aid rid n tc seq s = Inr s' \<Longrightarrow> db_leases s' = db_leases s"
  using completeToolAttempt_quiet by (auto simp: waiting_hook_def quiet_def dest!: leases_dest)

lemma fenced_requestUserInput_leases:
  "fenced_requestUserInput uuid au t dbNow ctx prompt flds tc s = Inr (x, s') \<Longrightarrow> db_leases s' = db_leases s"
  by (auto simp: fenced_requestUserInput_def withFence_Inr Let_def
      dest!: waiting_hook_leases requestUserInput_leases)

lemma fenced_completeControlDelivery_leases:
  "fenced_completeControlDelivery t dbNow ctx i b err s = Inr (x, s') \<Longrightarrow> db_leases s' = db_leases s"
  using completeControlItem_quiet
  by (auto simp: fenced_completeControlDelivery_def withFence_Inr case_prod_beta quiet_def dest!: appendEvent_leases)

lemma fenced_completeSupervisorDecision_leases:
  "fenced_completeSupervisorDecision at t dbNow ctx i st err data s = Inr (x, s') \<Longrightarrow> db_leases s' = db_leases s"
  by (auto simp: fenced_completeSupervisorDecision_def withFence_Inr Let_def dest!: appendEvent_leases)

section \<open>Commands\<close>

text \<open>The result of an operation without the value it returns.\<close>

definition forget :: "'e + 'r \<times> 's \<Rightarrow> 'e + unit \<times> 's" where
  "forget res = (case res of Inl e \<Rightarrow> Inl e | Inr (_, s') \<Rightarrow> Inr ((), s'))"

lemma forget_Inr: "forget res = Inr (u, s') \<longleftrightarrow> (\<exists>r. res = Inr (r, s'))"
  by (auto simp: forget_def split: sum.splits)

text \<open>Run lifecycle, user input and transitions.\<close>

datatype lifecycle_command =
    C_createRun string string int string string string "contract option"
  | C_appendEvent string string jsval int
  | C_transitionRun string int string "run_status list" run_status string jsval string "int option"
  | C_markInterrupted "nat \<Rightarrow> string" int
  | C_resumeRun string int string
  | C_requestUserInput string string int string string "user_input_field list"
  | C_submitUserInput int string "(string \<times> string) list"
  | C_transitionRuntime string int int jsval execution_fence
  | C_transitionSystem "nat \<Rightarrow> string" int jsval jsval

fun exec_lifecycle :: "lifecycle_command \<Rightarrow> db \<Rightarrow> store_error + unit \<times> db" where
  "exec_lifecycle (C_createRun uuid au t sid goal req k) s = forget (createRun uuid au t sid goal req k s)"
| "exec_lifecycle (C_appendEvent rid ty data t) s = forget (appendEvent rid ty data t s)"
| "exec_lifecycle (C_transitionRun uuid t rid ex nx ty data rs att) s =
     forget (transitionRun uuid t rid ex nx ty data rs att s)"
| "exec_lifecycle (C_markInterrupted uuids t) s = and_then (markInterrupted uuids t s) (\<lambda>s'. Inr ((), s'))"
| "exec_lifecycle (C_resumeRun uuid t rid) s = forget (resumeRun uuid t rid s)"
| "exec_lifecycle (C_requestUserInput uuid au t rid prompt flds) s =
     forget (requestUserInput uuid au t rid prompt flds s)"
| "exec_lifecycle (C_submitUserInput t qid resp) s = forget (submitUserInput t qid resp s)"
| "exec_lifecycle (C_transitionRuntime uuid t dbNow cmd f) s = forget (transitionRuntime uuid t dbNow cmd f s)"
| "exec_lifecycle (C_transitionSystem uuids t c a) s = forget (transitionSystem uuids t c a s)"

text \<open>Execution leases, candidates and settlement.\<close>

datatype attempt_command =
    C_acquire string string int string int int
  | C_renew string string string int int int
  | C_release string string string int int
  | C_record "string \<Rightarrow> string" string string string int string int string int
  | C_settle string settle_input
  | C_readjudicate string readjudicate_input
  | C_recover string recover_input
  | C_cancel string string string int

fun exec_attempt :: "attempt_command \<Rightarrow> db \<Rightarrow> store_error + unit \<times> db" where
  "exec_attempt (C_acquire uuid aid v ow ms t) s = forget (acquireExecutionLease uuid aid v ow ms t s)"
| "exec_attempt (C_renew aid ow tok fc ms t) s = forget (renewExecutionLease aid ow tok fc ms t s)"
| "exec_attempt (C_release aid ow tok fc t) s = Inr ((), snd (releaseExecutionLease aid ow tok fc t s))"
| "exec_attempt (C_record sha uuid cid aid v tok fc resp t) s =
     forget (recordCandidateResult sha uuid cid aid v tok fc resp t s)"
| "exec_attempt (C_settle uuid input) s = forget (settleAttempt uuid input s)"
| "exec_attempt (C_readjudicate uuid input) s = forget (reAdjudicateBlockedCandidate uuid input s)"
| "exec_attempt (C_recover uuid input) s = forget (recoverInterruptedAttempt uuid input s)"
| "exec_attempt (C_cancel uuid aid rs t) s = forget (cancelAttempt uuid aid rs t s)"

text \<open>Continuations and crash recovery.\<close>

datatype continuation_command =
    C_queueContinuation string int string string int
  | C_claimContinuation string int string string int
  | C_renewContinuation int string string int
  | C_updateContinuation int string continuation_status string "string option"
  | C_cancelContinuations int string string
  | C_reconcileDecisions int
  | C_queueCrashRecovery "nat \<Rightarrow> string" "nat \<Rightarrow> string" int int

fun exec_continuation :: "continuation_command \<Rightarrow> db \<Rightarrow> store_error + unit \<times> db" where
  "exec_continuation (C_queueContinuation uuid t rid rs nb) s = forget (queueContinuation uuid t rid rs nb s)"
| "exec_continuation (C_claimContinuation uuid t rid ow ms) s = forget (claimContinuation uuid t rid ow ms s)"
| "exec_continuation (C_renewContinuation t cid ow ms) s = Inr ((), snd (renewContinuationLease t cid ow ms s))"
| "exec_continuation (C_updateContinuation t cid st err ow) s = forget (updateContinuation t cid st err ow s)"
| "exec_continuation (C_cancelContinuations t rid rs) s = Inr ((), cancelQueuedContinuations t rid rs s)"
| "exec_continuation (C_reconcileDecisions t) s = Inr ((), snd (reconcileSupervisorDecisionStatuses t s))"
| "exec_continuation (C_queueCrashRecovery cids uuids t m) s =
     forget (queueSafeCrashRecoveryContinuations cids uuids t m s)"

text \<open>Operations, tools, consumers, control items, decisions and command receipts.\<close>

datatype work_command =
    C_claimOperation "jsval \<Rightarrow> string" int string string int string jsval
  | C_updateOperation int string operation_update
  | C_recordTool "jsval \<Rightarrow> string" int string int string string jsval
  | C_completeTool int string int string bool string
  | C_setPhase int string run_phase
  | C_claimConsumer int string string
  | C_ackConsumer int string string int int
  | C_enqueueControl string int string string control_kind string int
  | C_claimControl int string int
  | C_completeControl int string control_status string
  | C_recordDecision supervisor_decision
  | C_updateDecision int string decision_status string
  | C_claimCommand "string \<Rightarrow> string" int command_input
  | C_settleCommand int string string string command_state "(string \<times> jsval) list" "(string \<times> jsval) list"
  | C_startupRecovery int

fun exec_work :: "work_command \<Rightarrow> db \<Rightarrow> store_error + unit \<times> db" where
  "exec_work (C_claimOperation hash t oid rid n ty pl) s = forget (claimOperation hash t oid rid n ty pl s)"
| "exec_work (C_updateOperation t oid u) s = forget (updateOperation t oid u s)"
| "exec_work (C_recordTool hash t rid n tc nm args) s = forget (recordToolAttempt hash t rid n tc nm args s)"
| "exec_work (C_completeTool t rid n tc b err) s = Inr ((), snd (completeToolAttempt t rid n tc b err s))"
| "exec_work (C_setPhase t rid ph) s = Inr ((), snd (setRunPhase t rid ph s))"
| "exec_work (C_claimConsumer t rid cid) s = forget (claimEventConsumer t rid cid s)"
| "exec_work (C_ackConsumer t rid cid g n) s = Inr ((), snd (ackEventConsumer t rid cid g n s))"
| "exec_work (C_enqueueControl uuid t rid q k c n) s = forget (enqueueControl uuid t rid q k c n s)"
| "exec_work (C_claimControl t rid n) s = Inr ((), snd (claimControlItem t rid n s))"
| "exec_work (C_completeControl t cid st err) s = Inr ((), snd (completeControlItem t cid st err s))"
| "exec_work (C_recordDecision d) s = forget (recordSupervisorDecision d s)"
| "exec_work (C_updateDecision t did st err) s = Inr ((), snd (updateSupervisorDecision t did st err s))"
| "exec_work (C_claimCommand sha t input) s = forget (claimTaskRunCommand sha t input s)"
| "exec_work (C_settleCommand t p r c st res err) s = forget (settleTaskRunCommand t p r c st res err s)"
| "exec_work (C_startupRecovery t) s = forget (runStartupRecovery t s)"

text \<open>The writes of a runtime that presents an execution fence.\<close>

datatype fenced_command =
    C_fencedEvent int int execution_fence string jsval
  | C_fencedPhase int int execution_fence run_phase
  | C_fencedCheckpoint int execution_fence run_checkpoint
  | C_fencedClaim "jsval \<Rightarrow> string" int int execution_fence string string jsval
  | C_fencedUpdate int int execution_fence string operation_update
  | C_fencedTool "jsval \<Rightarrow> string" int int execution_fence string string jsval
  | C_fencedToolDone int int execution_fence string bool string
  | C_fencedDelivery int int execution_fence string bool string
  | C_fencedDecision int int int execution_fence string decision_status string "(string \<times> jsval) list"
  | C_fencedInput string string int int execution_fence string "user_input_field list" string

fun exec_fenced :: "fenced_command \<Rightarrow> db \<Rightarrow> store_error + unit \<times> db" where
  "exec_fenced (C_fencedEvent t dbNow ctx ty data) s = forget (fenced_appendEvent t dbNow ctx ty data s)"
| "exec_fenced (C_fencedPhase t dbNow ctx ph) s = forget (fenced_setRunPhase t dbNow ctx ph s)"
| "exec_fenced (C_fencedCheckpoint dbNow ctx c) s = forget (fenced_upsertCheckpoint dbNow ctx c s)"
| "exec_fenced (C_fencedClaim hash t dbNow ctx oid ty pl) s = forget (fenced_claimOperation hash t dbNow ctx oid ty pl s)"
| "exec_fenced (C_fencedUpdate t dbNow ctx oid u) s = forget (fenced_updateOperation t dbNow ctx oid u s)"
| "exec_fenced (C_fencedTool hash t dbNow ctx tc nm args) s = forget (fenced_recordToolAttempt hash t dbNow ctx tc nm args s)"
| "exec_fenced (C_fencedToolDone t dbNow ctx tc b err) s = forget (fenced_completeToolAttempt t dbNow ctx tc b err s)"
| "exec_fenced (C_fencedDelivery t dbNow ctx i b err) s = forget (fenced_completeControlDelivery t dbNow ctx i b err s)"
| "exec_fenced (C_fencedDecision at t dbNow ctx i st err data) s =
     forget (fenced_completeSupervisorDecision at t dbNow ctx i st err data s)"
| "exec_fenced (C_fencedInput uuid au t dbNow ctx prompt flds tc) s =
     forget (fenced_requestUserInput uuid au t dbNow ctx prompt flds tc s)"

datatype store_command =
    Lifecycle lifecycle_command
  | Attempts attempt_command
  | Continuation continuation_command
  | Work work_command
  | Fenced fenced_command

fun exec_command :: "store_command \<Rightarrow> db \<Rightarrow> store_error + unit \<times> db" where
  "exec_command (Lifecycle c) s = exec_lifecycle c s"
| "exec_command (Attempts c) s = exec_attempt c s"
| "exec_command (Continuation c) s = exec_continuation c s"
| "exec_command (Work c) s = exec_work c s"
| "exec_command (Fenced c) s = exec_fenced c s"

section \<open>The machine keeps the invariant and the fences\<close>

definition safe_step :: "db \<Rightarrow> db \<Rightarrow> bool" where
  "safe_step s s' = ((store_inv s \<longrightarrow> store_inv s') \<and> (\<forall>aid. fence_of s aid \<le> fence_of s' aid))"

lemma safe_stepI: "(store_inv s \<Longrightarrow> store_inv s') \<Longrightarrow> fence_table s' = fence_table s \<Longrightarrow> safe_step s s'"
  by (simp add: safe_step_def fence_of_table)

lemma safe_step_leases: "(store_inv s \<Longrightarrow> store_inv s') \<Longrightarrow> db_leases s' = db_leases s \<Longrightarrow> safe_step s s'"
  by (rule safe_stepI) (auto intro: fence_table_leases)

lemma safe_step_quiet: "quiet s' s \<Longrightarrow> safe_step s s'"
  by (rule safe_stepI) (auto intro: quiet_inv quiet_fences)

lemma exec_lifecycle_safe: "exec_lifecycle c s = Inr (u, s') \<Longrightarrow> safe_step s s'"
  by (cases c; rule safe_step_leases)
    (auto simp: forget_Inr
      dest: createRun_inv appendEvent_inv transitionRun_inv markInterrupted_inv resumeRun_inv requestUserInput_inv
        submitUserInput_inv transitionRuntime_inv transitionSystem_inv leases_lifecycle transitionRuntime_leases
        transitionSystem_leases)

lemma exec_attempt_safe: "exec_attempt c s = Inr (u, s') \<Longrightarrow> safe_step s s'"
proof (cases c)
  case (C_acquire uuid aid v ow ms t)
  moreover assume "exec_attempt c s = Inr (u, s')"
  ultimately obtain l where l: "acquireExecutionLease uuid aid v ow ms t s = Inr (l, s')" by (auto simp: forget_Inr)
  from fence_of_acquire [OF l] acquireExecutionLease_inv [OF _ l] show ?thesis by (simp add: safe_step_def)
qed (rule safe_stepI;
  auto simp: forget_Inr release_fences
    dest: renewExecutionLease_inv recordCandidateResult_inv settleAttempt_inv reAdjudicateBlockedCandidate_inv
      recoverInterruptedAttempt_inv cancelAttempt_inv renew_fences record_fences settleAttempt_fences
      readjudicate_fences recover_fences cancel_fences
    intro: releaseExecutionLease_inv)+

lemma store_inv_decisions [simp]: "store_inv (s\<lparr>db_decisions := x\<rparr>) = store_inv s"
  by (rule store_inv_cong) simp_all

lemma exec_continuation_safe: "exec_continuation c s = Inr (u, s') \<Longrightarrow> safe_step s s'"
  by (cases c; rule safe_step_leases)
    (auto simp: forget_Inr renewContinuationLease_def cancelQueuedContinuations_def
        reconcileSupervisorDecisionStatuses_def Let_def
      dest: queueContinuation_inv claimContinuation_inv updateContinuation_inv
        queueSafeCrashRecoveryContinuations_inv queueContinuation_leases claimContinuation_leases
        updateContinuation_leases queueSafeCrashRecoveryContinuations_leases)

lemma exec_work_safe: "exec_work c s = Inr (u, s') \<Longrightarrow> safe_step s s'"
proof (cases c)
  case (C_setPhase t rid ph)
  moreover assume "exec_work c s = Inr (u, s')"
  ultimately show ?thesis by (intro safe_step_leases) (auto intro: setRunPhase_inv)
qed (rule safe_step_quiet;
  auto simp: forget_Inr dest: runtime_quiet
    intro: completeToolAttempt_quiet ackEventConsumer_quiet claimControlItem_quiet completeControlItem_quiet
      updateSupervisorDecision_quiet)+

lemma fenced_quiet:
  "fenced_claimOperation hash t dbNow ctx oid ty pl s = Inr (x, s') \<Longrightarrow> quiet s' s"
  "fenced_updateOperation t dbNow ctx oid u s = Inr (y, s') \<Longrightarrow> quiet s' s"
  "fenced_recordToolAttempt hash t dbNow ctx tc nm args s = Inr (z, s') \<Longrightarrow> quiet s' s"
  "fenced_completeToolAttempt t dbNow ctx tc b err s = Inr (w, s') \<Longrightarrow> quiet s' s"
proof -
  show "fenced_completeToolAttempt t dbNow ctx tc b err s = Inr (w, s') \<Longrightarrow> quiet s' s"
    by (auto simp: fenced_completeToolAttempt_def withFence_Inr) (metis completeToolAttempt_quiet snd_conv)
qed (auto simp: fenced_claimOperation_def fenced_updateOperation_def fenced_recordToolAttempt_def withFence_Inr
    dest: runtime_quiet)

lemma fenced_phase_safe: "fenced_setRunPhase t dbNow ctx ph s = Inr (x, s') \<Longrightarrow> safe_step s s'"
  by (rule safe_step_leases)
    (auto simp: fenced_setRunPhase_def withFence_Inr, metis setRunPhase_inv snd_conv, metis phase_leases(2) snd_conv)

lemma fenced_event_safe: "fenced_appendEvent t dbNow ctx ty data s = Inr (x, s') \<Longrightarrow> safe_step s s'"
  by (rule safe_step_leases)
    (auto simp: fenced_appendEvent_def withFence_Inr dest: appendEvent_inv appendEvent_leases)

lemma fenced_upsertCheckpoint_leases:
  "fenced_upsertCheckpoint dbNow ctx c s = Inr (x, s') \<Longrightarrow> db_leases s' = db_leases s"
  by (auto simp: fenced_upsertCheckpoint_def withFence_Inr dest: upsertCheckpoint_leases)

lemma fenced_checkpoint_safe: "fenced_upsertCheckpoint dbNow ctx c s = Inr (x, s') \<Longrightarrow> safe_step s s'"
  by (rule safe_step_leases) (blast intro: fenced_upsertCheckpoint_inv fenced_upsertCheckpoint_leases)+

lemma exec_fenced_safe: "exec_fenced c s = Inr (u, s') \<Longrightarrow> safe_step s s'"
  by (cases c)
    (auto simp: forget_Inr
      dest!: fenced_quiet [THEN safe_step_quiet] fenced_phase_safe fenced_event_safe fenced_checkpoint_safe
      intro!: safe_step_leases
      dest: fenced_completeControlDelivery_inv fenced_completeSupervisorDecision_inv fenced_requestUserInput_inv
        fenced_completeControlDelivery_leases fenced_completeSupervisorDecision_leases
        fenced_requestUserInput_leases)

lemma exec_command_safe: "exec_command c s = Inr (u, s') \<Longrightarrow> safe_step s s'"
  by (cases c)
    (auto dest: exec_lifecycle_safe exec_attempt_safe exec_continuation_safe exec_work_safe exec_fenced_safe)

interpretation store_machine: invariant_machine exec_command store_inv
  by unfold_locales (auto dest: exec_command_safe simp: safe_step_def)

text \<open>One command of the control plane, a throw included.\<close>

definition command_step :: "db \<Rightarrow> db \<Rightarrow> bool" where
  "command_step s s' = (\<exists>c. s' = after s (exec_command c s))"

text \<open>A runtime that presents a fence for an Attempt is let through.\<close>

definition fence_accepted :: "db \<Rightarrow> string \<Rightarrow> int \<Rightarrow> bool" where
  "fence_accepted s aid f =
     (\<exists>dbNow ctx scope. xf_attemptId ctx = aid \<and> xf_executionFence ctx = f \<and> validate dbNow ctx s = Inr scope)"

interpretation execution_fence: fenced_resource command_step fence_of fence_accepted
proof
  fix s s' k
  assume "command_step s s'"
  then obtain c where c: "s' = after s (exec_command c s)" by (auto simp: command_step_def)
  show "fence_of s k \<le> fence_of s' k"
    using c exec_command_safe [of c s] by (cases "exec_command c s") (auto simp: safe_step_def)
next
  fix s k f
  assume "fence_accepted s k f"
  then show "fence_of s k = f" by (auto simp: fence_accepted_def fence_of_def elim!: validate_scope)
qed

lemma run_all_steps: "command_step\<^sup>*\<^sup>* s (run_all exec_command cs s)"
proof (induction cs arbitrary: s)
  case (Cons c cs)
  have "command_step s (after s (exec_command c s))" by (auto simp: command_step_def)
  then show ?case using Cons [of "after s (exec_command c s)"] by (auto intro: converse_rtranclp_into_rtranclp)
qed simp

end
