(* ===== verification/Continuation_Claims.thy ===== *)
theory Continuation_Claims
  imports Attempt_Settlement Continuations
begin

text \<open>
  What a successful claim of a continuation establishes, and why a second one is declined:
  the run moves to its next Attempt and the row to the claimer's lease in one transaction.
\<close>

lemma find_listed:
  assumes "find (\<lambda>n. n_id n = i) (listContinuations s rid) = Some c"
  shows "c \<in> set (db_continuations s)" "n_id c = i" "n_runId c = rid"
  using find_SomeD [OF assms] by (auto simp: listContinuations_def)

lemma claimable_Some:
  assumes "claimable rid t s = Some c"
  shows "c \<in> set (db_continuations s)" "n_runId c = rid" "n_status c = Co_queued" "n_notBefore c \<le> t"
  using find_SomeD [OF assms [unfolded claimable_def]] by (auto simp: listContinuations_def)

lemma claim_effect:
  assumes inv: "store_inv s" and ids: "distinct (map n_id (db_continuations s))"
    and ok: "claimContinuation uuid t rid ow ms s = Inr (Some (c', run', ev), s')"
  obtains run where "get_run s rid = Some run" "r_status run = Blocked"
    "\<forall>r \<in> set (db_runs s). r_sessionId r = r_sessionId run \<and> r_id r \<noteq> rid \<longrightarrow> r_status r \<noteq> Running"
    "get_run s' rid = Some run'" "r_status run' = Running" "r_attempt run' = r_attempt run + 1"
    "n_status c' = Co_running" "n_leaseOwner c' = ow" "n_leaseUntil c' = Some (t + ms)"
    "n_scheduledAttemptId c' = Some (attemptId rid (r_attempt run'))"
    "db_runs s' = upd (\<lambda>x. r_id x = rid) (claimed_run t run) (db_runs s)" "c' \<in> set (db_continuations s')"
proof -
  from ok obtain c run s1 s2 where c: "claimable rid t s = Some c"
    and run: "get_run s rid = Some run" "r_status run = Blocked"
    and excl: "\<not> list_ex (\<lambda>r. r_sessionId r = r_sessionId run \<and> r_id r \<noteq> rid \<and> r_status r = Running) (db_runs s)"
    and s1: "s1 = s\<lparr>db_continuations := upd (\<lambda>n. n_id n = n_id c \<and> n_status n = Co_queued \<and> n_notBefore n \<le> t)
        (claimed_row t ow ms) (db_continuations s)\<rparr>"
    and s2: "insert_event ev s1 = Inr s2"
    and p: "projectAttempt uuid rid (r_attempt run + 1) Trig_continuation A_running ''continuation'' ''''
       (r_lastEventSeq run + 1) t
       ((set_run rid (\<lambda>r. r_status r = Blocked) (claimed_run t run) s2)\<lparr>db_continuations :=
          upd (\<lambda>n. n_id n = n_id c) (\<lambda>n. n\<lparr>n_sourceAttemptId := Some (attemptId rid (r_attempt run)),
             n_scheduledAttemptId := Some (attemptId rid (r_attempt run + 1))\<rparr>) (db_continuations s2)\<rparr>) = Inr s'"
    and c': "find (\<lambda>n. n_id n = n_id c) (listContinuations s' rid) = Some c'" and run': "get_run s' rid = Some run'"
    by (rule claim_Inr)
  have rid: "r_id run = rid" using run by (auto dest: get_run_SomeD)
  have runs: "db_runs s' = upd (\<lambda>x. r_id x = rid) (claimed_run t run) (db_runs s)"
    using set_run_runs [OF inv run(1), where P = "\<lambda>r. r_status r = Blocked" and ?s1.0 = s2] run(2) project_keeps(1) [OF p]
    by (simp add: insert_event_Inr [OF s2] s1)
  have "run' = claimed_run t run run"
    using run' find_key_upd_Some [OF run(1) [unfolded get_run_def], where f = "claimed_run t run"] rid
    by (simp add: get_run_def runs claimed_run_def)
  moreover have row: "c' = (claimed_row t ow ms c)\<lparr>n_sourceAttemptId := Some (attemptId rid (r_attempt run)),
      n_scheduledAttemptId := Some (attemptId rid (r_attempt run + 1))\<rparr>"
  proof -
    note mem = find_listed [OF c'] and cl = claimable_Some [OF c]
    have uniq: "n = c" if "n \<in> set (db_continuations s)" "n_id n = n_id c" for n
      using that cl(1) ids by (auto simp: distinct_map dest: inj_onD)
    have "db_continuations s' = upd (\<lambda>n. n_id n = n_id c) (\<lambda>n. n\<lparr>n_sourceAttemptId := Some (attemptId rid (r_attempt run)),
             n_scheduledAttemptId := Some (attemptId rid (r_attempt run + 1))\<rparr>)
        (upd (\<lambda>n. n_id n = n_id c \<and> n_status n = Co_queued \<and> n_notBefore n \<le> t) (claimed_row t ow ms) (db_continuations s))"
      using project_keeps(7) [OF p] by (simp add: insert_event_Inr [OF s2] s1 set_run_def)
    with mem(1,2) show ?thesis
      using uniq cl(3,4) by (auto simp: set_upd claimed_row_def)
  qed
  ultimately show ?thesis
    using run excl run' runs find_listed(1) [OF c'] by (intro that [of run]) (auto simp: claimed_run_def claimed_row_def list_ex_iff)
qed

lemma claim_declined: "get_run s rid = Some run \<Longrightarrow> r_status run \<noteq> Blocked \<Longrightarrow> claimContinuation uuid t rid ow ms s = Inr (None, s)"
  by (simp add: claimContinuation_def split: option.split)

end
