(* ===== verification/Scenarios.thy ===== *)
theory Scenarios
  imports Transition_Progress Store_Machine Continuation_Claims
begin

text \<open>
  Concrete stores, each reached from a store with one session by the modelled operations.
  The witnesses of the properties evaluate on them.
\<close>

text \<open>The value an operation returns.\<close>

definition result_of :: "'e + 'r \<times> 's \<Rightarrow> 'r option" where
  "result_of res = (case res of Inl _ \<Rightarrow> None | Inr (r, _) \<Rightarrow> Some r)"

text \<open>The state an operation leaves when it returns.\<close>

definition state_of :: "'e + 'r \<times> 's \<Rightarrow> 's option" where
  "state_of res = (case res of Inl _ \<Rightarrow> None | Inr (_, s) \<Rightarrow> Some s)"

text \<open>The state after a transaction, and after several in order.\<close>

definition step_of :: "('s \<Rightarrow> 'e + 'r \<times> 's) \<Rightarrow> 's \<Rightarrow> 's" where
  "step_of f s = after s (f s)"

lemma after_forget [simp]: "after s (forget res) = after s res"
  by (cases res) (auto simp: forget_def)

lemma step_of_forget: "after s (forget (f s)) = step_of f s"
  by (simp add: step_of_def)

definition sc_session :: session where
  "sc_session = \<lparr>s_id = ''S'', s_modelId = ''m'', s_reasoningEffort = Eff_low, s_updatedAt = 0\<rparr>"

text \<open>A store with one session and no run.\<close>

definition sc_empty :: db where
  "sc_empty = empty_db\<lparr>db_sessions := [sc_session]\<rparr>"

text \<open>Run \<open>R\<close> created at time 1 and running its first Attempt.\<close>

definition sc_running :: db where
  "sc_running = after sc_empty (createRun ''R'' ''u1'' 1 ''S'' ''goal'' ''q'' None sc_empty)"

text \<open>The runtime holds the execution lease of that Attempt until time 1002.\<close>

definition sc_leased :: db where
  "sc_leased = after sc_running (acquireExecutionLease ''tok'' (attemptId ''R'' 1) 1 ''rt'' 1000 2 sc_running)"

definition sc_decision :: supervisor_decision where
  "sc_decision = \<lparr>d_id = ''D'', d_runId = ''R'', d_attempt = 1, d_checkpointSeq = 0,
     d_trigger = ''candidate'', d_action = Act_complete_taskrun, d_reasonCode = ''ok'', d_rationale = '''',
     d_confidence = JInt 1, d_epistemicStatus = ''model_assessed'', d_instruction = '''',
     d_candidateResponseHash = ''h'', d_status = Dec_proposed, d_error = '''', d_createdAt = 3, d_executedAt = None,
     d_evaluator = ''rules'', d_evaluatorModel = ''''\<rparr>"

text \<open>The runtime recorded a candidate result and the Supervisor proposed a decision.\<close>

definition sc_settling :: db where
  "sc_settling =
     (let s = sc_leased\<lparr>db_decisions := [sc_decision]\<rparr>
      in after s (recordCandidateResult (\<lambda>_. ''h'') ''u2'' ''C'' (attemptId ''R'' 1) 1 ''tok'' 1 ''answer'' 4 s))"

definition sc_settle :: settle_input where
  "sc_settle = \<lparr>si_attemptId = attemptId ''R'' 1, si_expectedVersion = 2, si_leaseToken = ''tok'', si_fence = 1,
     si_candidateResultId = ''C'', si_supervisorDecisionId = ''D'', si_status = Term_completed, si_reason = '''',
     si_timestamp = 5\<rparr>"

text \<open>A history: a run is created, leased, writes an event under its fence and fails.\<close>

definition sc_fence :: execution_fence where
  "sc_fence = \<lparr>xf_attemptId = attemptId ''R'' 1, xf_expectedVersion = 1, xf_leaseToken = ''tok'',
     xf_executionFence = 1\<rparr>"

definition sc_fail_command :: jsval where
  "sc_fail_command = JObj [(''kind'', JStr ''fail''), (''reason'', JStr ''error''), (''data'', JObj [])]"

definition sc_history :: "store_command list" where
  "sc_history =
     [Lifecycle (C_createRun ''R'' ''u1'' 1 ''S'' ''goal'' ''q'' None),
      Attempts (C_acquire ''tok'' (attemptId ''R'' 1) 1 ''rt'' 1000 2),
      Fenced (C_fencedEvent 3 3 sc_fence ''note'' (JObj [])),
      Lifecycle (C_transitionRuntime ''u2'' 4 4 sc_fail_command sc_fence),
      Lifecycle (C_transitionRuntime ''u3'' 5 5 sc_fail_command sc_fence)]"

text \<open>The state that history ends in: the second report of the failure throws.\<close>

definition sc_failed :: db where
  "sc_failed =
     step_of (transitionRuntime ''u3'' 5 5 sc_fail_command sc_fence)
    (step_of (transitionRuntime ''u2'' 4 4 sc_fail_command sc_fence)
    (step_of (fenced_appendEvent 3 3 sc_fence ''note'' (JObj [])) sc_leased))"

lemma sc_history_run: "run_all exec_command sc_history sc_empty = sc_failed"
  by (simp add: sc_history_def sc_failed_def sc_leased_def sc_running_def step_of_def)

text \<open>The run was blocked and a continuation \<open>K\<close> of it queued.\<close>

definition sc_block_command :: jsval where
  "sc_block_command = JObj [(''kind'', JStr ''block''), (''reason'', JStr ''needs work''), (''data'', JObj [])]"

definition sc_queued :: db where
  "sc_queued = step_of (queueContinuation ''K'' 5 ''R'' ''go on'' 0)
     (step_of (transitionRuntime ''u4'' 4 4 sc_block_command sc_fence) sc_leased)"

text \<open>
  Its owner claimed it, the second Attempt completed the run, and the owner stopped before
  it closed the continuation, whose lease ends at time 106.
\<close>

definition sc_fence2 :: execution_fence where
  "sc_fence2 = \<lparr>xf_attemptId = attemptId ''R'' 2, xf_expectedVersion = 1, xf_leaseToken = ''tok2'',
     xf_executionFence = 1\<rparr>"

definition sc_complete_command :: jsval where
  "sc_complete_command = JObj [(''kind'', JStr ''complete''), (''reason'', JStr ''''), (''data'', JObj [])]"

definition sc_claimed :: db where
  "sc_claimed = after sc_queued (claimContinuation ''u5'' 6 ''R'' ''coord'' 100 sc_queued)"

definition sc_abandoned :: db where
  "sc_abandoned = step_of (transitionRuntime ''u6'' 8 8 sc_complete_command sc_fence2)
     (step_of (acquireExecutionLease ''tok2'' (attemptId ''R'' 2) 1 ''rt'' 1000 7) sc_claimed)"

text \<open>A runtime at work: one operation and one tool call in flight; one event, read by a consumer.\<close>

definition sc_working :: db where
  "sc_working =
     step_of (claimEventConsumer 4 ''R'' ''ui'')
    (step_of (fenced_appendEvent 3 3 sc_fence ''note'' (JObj []))
    (step_of (recordToolAttempt (\<lambda>_. ''h'') 3 ''R'' 1 ''T1'' ''bash'' JNull)
    (step_of (claimOperation (\<lambda>_. ''h'') 3 ''O1'' ''R'' 1 ''tool.bash'' JNull) sc_leased)))"

definition sc_success :: operation_update where
  "sc_success = \<lparr>ou_status = ''succeeded'', ou_stage = None, ou_effects = None, ou_result = None,
     ou_error = None, ou_expectedStatuses = None\<rparr>"

text \<open>A runtime that made the same tool call five times.\<close>

definition sc_looping :: db where
  "sc_looping =
     fold (\<lambda>i s. snd (completeToolAttempt 3 ''R'' 1 (show_int i) True ''''
                    (step_of (recordToolAttempt (\<lambda>_. ''h'') 3 ''R'' 1 (show_int i) ''read'' JNull) s))) [1..5] sc_leased"

end
