(* ===== verification/Plan_Graph.thy ===== *)
theory Plan_Graph
  imports Prelude "HOL-Library.List_Lexorder" "HOL-Library.Char_ord"
begin

text \<open>
  Plan items and the dependency graph between them (\<open>cyclicPlanItemKeys\<close> of
  \<open>adapters/persistence-sqlite/src/store.ts\<close>, \<open>PlanItem\<close> of
  \<open>packages/governance/src/domain/governance.ts\<close>). The depth-first search is shown exact:
  it reports a key exactly when the graph has a cycle, and every key it reports lies on one.
\<close>

section \<open>Plan items\<close>

datatype plan_status = Plan_pending | Plan_in_progress | Plan_done | Plan_blocked | Plan_skipped

text \<open>The metadata column of a criterion-aware item (\<open>schemaVersion === 2\<close>).\<close>

record plan_metadata =
  pm_objectiveIds :: "string list"
  pm_criterionIds :: "string list"
  pm_dependencies :: "string list"
  pm_completionEvidenceRefs :: "string list"
  pm_createdAttempt :: int
  pm_updatedAttempt :: int
  pm_replanReason :: "string option"

record plan_item =
  pi_key :: string
  pi_title :: string
  pi_status :: plan_status
  pi_required :: bool
  pi_position :: int
  pi_meta :: "plan_metadata option"

section \<open>The search\<close>

text \<open>\<open>new Map(entries)\<close>: a repeated key keeps its place and takes the later value.\<close>

definition js_map_set :: "'k \<times> 'v \<Rightarrow> ('k \<times> 'v) list \<Rightarrow> ('k \<times> 'v) list" where
  "js_map_set kv m =
     (if fst kv \<in> fst ` set m then map (\<lambda>e. if fst e = fst kv then kv else e) m else m @ [kv])"

definition js_map :: "('k \<times> 'v) list \<Rightarrow> ('k \<times> 'v) list" where
  "js_map kvs = fold js_map_set kvs []"

type_synonym dependency_map = "(string \<times> string list) list"

definition dependency_map :: "plan_item list \<Rightarrow> dependency_map" where
  "dependency_map plan =
     js_map (List.map_filter (\<lambda>item. map_option (\<lambda>m. (pi_key item, pm_dependencies m)) (pi_meta item)) plan)"

text \<open>The dependencies a visit follows: those that are keys themselves.\<close>

definition followed :: "dependency_map \<Rightarrow> string \<Rightarrow> string list" where
  "followed deps key =
     (case map_of deps key of None \<Rightarrow> [] | Some ds \<Rightarrow> filter (\<lambda>d. map_of deps d \<noteq> None) ds)"

text \<open>\<open>stack.slice(active.get(key))\<close>; the map \<open>active\<close> holds the position of each key of the stack.\<close>

definition slice_from :: "string \<Rightarrow> string list \<Rightarrow> string list" where
  "slice_from key stack = dropWhile (\<lambda>k. k \<noteq> key) stack"

text \<open>
  \<open>visit\<close> on a list of keys in order. The stack is the path of open visits (each visit pops
  what it pushed); \<open>visited\<close> and \<open>cyclic\<close> are threaded through.
\<close>

function visit_all ::
  "dependency_map \<Rightarrow> string list \<Rightarrow> string list \<Rightarrow> string list \<times> string list \<Rightarrow> string list \<times> string list" where
  "visit_all deps stack [] st = st"
| "visit_all deps stack (key # keys) (visited, cyclic) =
     visit_all deps stack keys
       (if key \<in> set stack then (visited, fold List.insert (slice_from key stack) cyclic)
        else if key \<in> set visited then (visited, cyclic)
        else let (visited', cyclic') = visit_all deps (stack @ [key]) (followed deps key) (visited, cyclic)
             in (key # visited', cyclic'))"
  by pat_completeness auto
termination
proof (relation "measures [\<lambda>(deps, stack, keys, st). card (fst ` set deps - set stack), \<lambda>(deps, stack, keys, st). length keys]")
  fix deps :: dependency_map and stack keys visited cyclic :: "string list" and key :: string
  assume new: "key \<notin> set stack"
  let ?m = "measures [\<lambda>(deps, stack, keys, st). card (fst ` set deps - set stack), \<lambda>(deps, stack, keys, st). length keys]"
  show "((deps, stack @ [key], followed deps key, visited, cyclic), (deps, stack, key # keys, visited, cyclic)) \<in> ?m"
  proof (cases "key \<in> fst ` set deps")
    case True
    then have "fst ` set deps - set (stack @ [key]) \<subset> fst ` set deps - set stack" using new by auto
    then have "card (fst ` set deps - set (stack @ [key])) < card (fst ` set deps - set stack)"
      by (intro psubset_card_mono) auto
    then show ?thesis by simp
  next
    case False
    then have "followed deps key = []" by (simp add: followed_def map_of_eq_None_iff [THEN iffD2])
    moreover have "fst ` set deps - set (stack @ [key]) = fst ` set deps - set stack" using False by auto
    ultimately show ?thesis by simp
  qed
qed auto

definition cyclicPlanItemKeys :: "plan_item list \<Rightarrow> string list" where
  "cyclicPlanItemKeys plan =
     (let deps = dependency_map plan
      in sort (snd (visit_all deps [] (map fst deps) ([], []))))"

section \<open>Exactness\<close>

definition depends :: "dependency_map \<Rightarrow> (string \<times> string) set" where
  "depends deps = {(k, d). d \<in> set (followed deps k)}"

text \<open>Every reported key lies on a cycle: the stack is a path and the keys are followed from its end.\<close>

definition is_path :: "dependency_map \<Rightarrow> string list \<Rightarrow> bool" where
  "is_path deps stack = (\<forall>i. Suc i < length stack \<longrightarrow> (stack ! i, stack ! Suc i) \<in> depends deps)"

lemma is_path_snoc:
  assumes "is_path deps stack" and "stack \<noteq> [] \<Longrightarrow> (last stack, k) \<in> depends deps"
  shows "is_path deps (stack @ [k])"
  using assms by (auto simp: is_path_def nth_append last_conv_nth not_less less_Suc_eq)
    (metis Suc_less_eq length_greater_0_conv less_Suc_eq_0_disj less_antisym list.size(3) One_nat_def Suc_pred diff_Suc_1)

lemma is_path_suffix: "is_path deps (xs @ ys) \<Longrightarrow> is_path deps ys"
  unfolding is_path_def
proof (intro allI impI)
  fix i
  assume p: "\<forall>i. Suc i < length (xs @ ys) \<longrightarrow> ((xs @ ys) ! i, (xs @ ys) ! Suc i) \<in> depends deps" and i: "Suc i < length ys"
  from p [rule_format, of "length xs + i"] i show "(ys ! i, ys ! Suc i) \<in> depends deps" by (simp add: nth_append)
qed

lemma path_reaches:
  assumes "is_path deps p" and "i < j" and "j < length p"
  shows "(p ! i, p ! j) \<in> (depends deps)\<^sup>+"
  using assms(2,3)
proof (induction j)
  case (Suc j)
  have step: "(p ! j, p ! Suc j) \<in> depends deps" using assms(1) Suc.prems by (simp add: is_path_def)
  show ?case
  proof (cases "i = j")
    case False
    then have "(p ! i, p ! j) \<in> (depends deps)\<^sup>+" using Suc by simp
    then show ?thesis using step by (rule trancl_into_trancl)
  qed (use step in auto)
qed simp

lemma closed_path_cyclic:
  assumes "is_path deps p" and "p \<noteq> []" and "(last p, hd p) \<in> depends deps" and "k \<in> set p"
  shows "(k, k) \<in> (depends deps)\<^sup>+"
proof -
  obtain i where i: "i < length p" "p ! i = k" using assms(4) by (auto simp: in_set_conv_nth)
  have "(k, last p) \<in> (depends deps)\<^sup>*"
  proof (cases "i = length p - 1")
    case False
    then show ?thesis using path_reaches [OF assms(1), of i "length p - 1"] i assms(2)
      by (auto simp: last_conv_nth intro: trancl_into_rtrancl)
  qed (use i assms(2) in \<open>auto simp: last_conv_nth\<close>)
  moreover have "(hd p, k) \<in> (depends deps)\<^sup>*"
  proof (cases "i = 0")
    case False
    then show ?thesis using path_reaches [OF assms(1), of 0 i] i assms(2)
      by (auto simp: hd_conv_nth intro: trancl_into_rtrancl)
  qed (use i assms(2) in \<open>auto simp: hd_conv_nth\<close>)
  ultimately show ?thesis using assms(3) by (meson rtrancl_into_trancl1 rtrancl_trancl_trancl trancl_rtrancl_trancl)
qed

lemma set_fold_insert [simp]: "set (fold List.insert xs ys) = set xs \<union> set ys"
  by (induction xs arbitrary: ys) auto

definition on_cycles :: "dependency_map \<Rightarrow> string list \<times> string list \<Rightarrow> bool" where
  "on_cycles deps st = (\<forall>k \<in> set (snd st). (k, k) \<in> (depends deps)\<^sup>+)"

lemma slice_closed:
  assumes "is_path deps stack" and "key \<in> set stack" and "(last stack, key) \<in> depends deps"
  shows "\<forall>k \<in> set (slice_from key stack). (k, k) \<in> (depends deps)\<^sup>+"
proof -
  let ?p = "slice_from key stack"
  obtain ys zs where s: "stack = ys @ key # zs" "key \<notin> set ys" using split_list_first [OF assms(2)] by blast
  then have p: "?p = key # zs" by (auto simp: slice_from_def dropWhile_append)
  have "is_path deps ?p" unfolding p using assms(1) [unfolded s(1)] by (rule is_path_suffix)
  moreover have "(last ?p, hd ?p) \<in> depends deps" unfolding p using assms(3) [unfolded s(1)] by simp
  moreover have "?p \<noteq> []" by (simp add: p)
  ultimately show ?thesis using closed_path_cyclic [of deps ?p] by blast
qed

lemma visit_all_sound:
  assumes "is_path deps stack" and "stack \<noteq> [] \<Longrightarrow> \<forall>k \<in> set keys. (last stack, k) \<in> depends deps"
    and "on_cycles deps st"
  shows "on_cycles deps (visit_all deps stack keys st)"
  using assms
proof (induction deps stack keys st rule: visit_all.induct)
  case (2 deps stack key keys visited cyclic)
  have nested: "on_cycles deps (visit_all deps (stack @ [key]) (followed deps key) (visited, cyclic))"
    if "key \<notin> set stack" "key \<notin> set visited"
    using that 2(3-5) by (intro 2(1) is_path_snoc) (auto simp: depends_def)
  have "on_cycles deps
      (if key \<in> set stack then (visited, fold List.insert (slice_from key stack) cyclic)
       else if key \<in> set visited then (visited, cyclic)
       else let (visited', cyclic') = visit_all deps (stack @ [key]) (followed deps key) (visited, cyclic)
            in (key # visited', cyclic'))" (is "on_cycles deps ?st")
  proof (cases "key \<in> set stack")
    case True
    then have "(last stack, key) \<in> depends deps" using 2(4) by force
    then show ?thesis using slice_closed [OF 2(3) True] 2(5) True by (auto simp: on_cycles_def)
  next
    case False
    then show ?thesis using nested 2(5) by (auto simp: on_cycles_def case_prod_beta)
  qed
  then show ?case using 2(2) [OF 2(3)] 2(4) by simp
qed simp

text \<open>
  When nothing is reported, the finished keys are in topological order: everything a key
  depends on was finished before it.
\<close>

fun topological :: "dependency_map \<Rightarrow> string list \<Rightarrow> bool" where
  "topological deps [] = True"
| "topological deps (k # ks) = (set (followed deps k) \<subseteq> set ks \<and> k \<notin> set ks \<and> topological deps ks)"

definition search_finished :: "dependency_map \<Rightarrow> string list \<Rightarrow> string list \<times> string list \<Rightarrow> string list \<times> string list \<Rightarrow> bool" where
  "search_finished deps keys st st' =
     (set (snd st) \<subseteq> set (snd st') \<and> set (fst st) \<subseteq> set (fst st')
      \<and> (snd st' = [] \<longrightarrow> topological deps (fst st) \<longrightarrow> topological deps (fst st') \<and> set keys \<subseteq> set (fst st')))"

lemma visit_all_finishes:
  "(\<forall>k \<in> set stack. k \<notin> set (fst st)) \<Longrightarrow>
   search_finished deps keys st (visit_all deps stack keys st) \<and> (\<forall>k \<in> set stack. k \<notin> set (fst (visit_all deps stack keys st)))"
proof (induction deps stack keys st rule: visit_all.induct)
  case (1 deps stack st)
  then show ?case by (simp add: search_finished_def)
next
  case (2 deps stack key keys visited cyclic)
  show ?case
  proof (cases "key \<in> set stack")
    case True
    let ?st = "(visited, fold List.insert (slice_from key stack) cyclic)"
    have "key \<in> set (slice_from key stack)" using True
      by (metis (mono_tags, lifting) dropWhile_eq_Nil_conv hd_dropWhile list.set_sel(1) slice_from_def)
    then have "snd (visit_all deps stack keys ?st) \<noteq> []"
      using 2(2) 2(3) True by (fastforce simp: search_finished_def)
    then show ?thesis using 2(2) 2(3) True by (auto simp: search_finished_def)
  next
    case False
    show ?thesis
    proof (cases "key \<in> set visited")
      case True
      then show ?thesis using 2(2) 2(3) False by (auto simp: search_finished_def)
    next
      case new: False
      obtain v c where vc: "visit_all deps (stack @ [key]) (followed deps key) (visited, cyclic) = (v, c)" by fastforce
      have n: "search_finished deps (followed deps key) (visited, cyclic) (v, c)" "\<forall>k \<in> set (stack @ [key]). k \<notin> set v"
        using 2(1) [OF False new] 2(3) new by (auto simp: vc)
      have st: "visit_all deps stack (key # keys) (visited, cyclic) = visit_all deps stack keys (key # v, c)"
        using False new by (simp add: vc)
      have "search_finished deps keys (key # v, c) (visit_all deps stack keys (key # v, c))
          \<and> (\<forall>k \<in> set stack. k \<notin> set (fst (visit_all deps stack keys (key # v, c))))"
        using 2(2) False new n(2) by (force simp: vc)
      then show ?thesis using n unfolding st by (fastforce simp: search_finished_def)
    qed
  qed
qed

lemma topological_acyclic:
  assumes "topological deps ks" and "(k, d) \<in> (depends deps)\<^sup>+" and "k \<in> set ks"
  shows "\<exists>xs ys. ks = xs @ k # ys \<and> d \<in> set ys \<and> k \<notin> set ys"
  using assms
proof (induction ks arbitrary: k)
  case (Cons x ks)
  show ?case
  proof (cases "k = x")
    case True
    from Cons.prems(2) obtain m where m: "(k, m) \<in> depends deps" "(m, d) \<in> (depends deps)\<^sup>*"
      by (meson tranclD)
    have "m \<in> set ks" using m(1) Cons.prems(1) True by (auto simp: depends_def)
    have "d \<in> set ks"
    proof (cases "m = d")
      case False
      then have "(m, d) \<in> (depends deps)\<^sup>+" using m(2) by (simp add: rtrancl_eq_or_trancl)
      from Cons.IH [OF _ this \<open>m \<in> set ks\<close>] Cons.prems(1) show ?thesis by auto
    qed (use \<open>m \<in> set ks\<close> in simp)
    then show ?thesis using Cons.prems(1) True by (intro exI [of _ "[]"] exI [of _ ks]) auto
  next
    case False
    then obtain xs ys where "ks = xs @ k # ys" "d \<in> set ys" "k \<notin> set ys" using Cons by fastforce
    then show ?thesis by (intro exI [of _ "x # xs"] exI [of _ ys]) auto
  qed
qed simp

lemma search_exact:
  fixes deps :: dependency_map
  defines "res \<equiv> snd (visit_all deps [] (map fst deps) ([], []))"
  shows "res = [] \<longleftrightarrow> acyclic (depends deps)" and "\<forall>k \<in> set res. (k, k) \<in> (depends deps)\<^sup>+"
proof -
  have "on_cycles deps (visit_all deps [] (map fst deps) ([], []))"
    by (rule visit_all_sound) (simp_all add: is_path_def on_cycles_def)
  then show sound: "\<forall>k \<in> set res. (k, k) \<in> (depends deps)\<^sup>+" by (simp add: on_cycles_def res_def)
  show "res = [] \<longleftrightarrow> acyclic (depends deps)"
  proof
    assume "res = []"
    then have top: "topological deps (fst (visit_all deps [] (map fst deps) ([], [])))"
        "fst ` set deps \<subseteq> set (fst (visit_all deps [] (map fst deps) ([], [])))"
      using visit_all_finishes [of "[]" "([], [])" deps "map fst deps"] by (auto simp: search_finished_def res_def)
    have "(k, k) \<notin> (depends deps)\<^sup>+" for k
    proof
      assume cyc: "(k, k) \<in> (depends deps)\<^sup>+"
      then obtain m where "(k, m) \<in> depends deps" by (meson tranclD)
      then have "k \<in> fst ` set deps"
        by (cases "map_of deps k") (force simp: depends_def followed_def dest: map_of_SomeD)+
      with topological_acyclic [OF top(1) cyc] top(2) show False by auto
    qed
    then show "acyclic (depends deps)" by (simp add: acyclic_def)
  next
    assume "acyclic (depends deps)"
    with sound show "res = []" by (cases res) (auto simp: acyclic_def)
  qed
qed

end
