(* ===== verification/Completion_Gate.thy ===== *)
theory Completion_Gate
  imports Plan_Graph Runtime_Mutations Canonical_Json
begin

text \<open>
  The work a run shows for itself and the gate that judges it
  (\<open>adapters/persistence-sqlite/src/store.ts\<close>: plan items, checks, artifacts, evidence sources,
  context manifests, \<open>evaluateGate\<close>; the fenced forms of
  \<open>sqlite/attempt-runtime-mutation-repository.ts\<close>). The tables stand beside the core tables
  in \<open>work_db\<close>. SHA-256 and the digest of a tool result are parameters.
\<close>

section \<open>Rows\<close>

datatype check_status = Check_pending | Check_running | Check_passed | Check_failed | Check_blocked | Check_skipped

record run_check =
  ck_key :: string
  ck_title :: string
  ck_status :: check_status
  ck_required :: bool
  ck_command :: string
  ck_evidence :: string
  ck_stale :: bool
  ck_sourceOperationId :: "string option"
  ck_observedAt :: "int option"

record artifact =
  af_id :: string
  af_runId :: string
  af_kind :: string
  af_title :: string
  af_content :: string
  af_uri :: string
  af_createdAt :: int

record plan_item_revision =
  pr_runId :: string
  pr_itemKey :: string
  pr_revision :: int
  pr_snapshot :: string
  pr_snapshotHash :: string
  pr_attempt :: int
  pr_reason :: string
  pr_createdAt :: int

datatype evidence_kind = Src_artifact | Src_operation | Src_transcript | Src_memory

record evidence_source =
  es_sourceRef :: string
  es_kind :: evidence_kind
  es_sourceRevision :: string
  es_sourceHash :: string
  es_content :: string

record manifest_item =
  mi_kind :: string
  mi_sourceId :: string
  mi_selected :: bool
  mi_projectedContentHash :: "string option"
  mi_sourceRevision :: "string option"

record context_manifest =
  cx_id :: string
  cx_runId :: string
  cx_attempt :: int
  cx_items :: "manifest_item list"
  cx_manifestHash :: string
  cx_createdAt :: int

record transcript_entry =
  te_runId :: string
  te_seq :: int
  te_attempt :: int
  te_role :: string
  te_message :: jsval
  te_createdAt :: int

text \<open>A stored evidence source: its manifest, run and creation time with the source.\<close>

record context_source_row =
  cs_manifestId :: string
  cs_runId :: string
  cs_source :: evidence_source
  cs_createdAt :: int

record work_db =
  wd_core :: db
  wd_plan :: "(string \<times> plan_item) list"  \<comment> \<open>run id and item\<close>
  wd_revisions :: "plan_item_revision list"
  wd_checks :: "(string \<times> run_check) list"  \<comment> \<open>run id and check\<close>
  wd_artifacts :: "artifact list"
  wd_transcript :: "transcript_entry list"
  wd_manifests :: "context_manifest list"
  wd_sources :: "context_source_row list"

section \<open>Plan items\<close>

text \<open>The item a caller passes: its metadata fields may be missing.\<close>

record plan_input =
  in_key :: string
  in_title :: string
  in_status :: plan_status
  in_required :: bool
  in_position :: int
  in_schemaVersion :: "int option"
  in_objectiveIds :: "string list option"
  in_criterionIds :: "string list option"
  in_dependencies :: "string list option"
  in_completionEvidenceRefs :: "string list option"
  in_replanReason :: "string option"

text \<open>\<open>unique(values, label, limit, maxLength)\<close>.\<close>

definition unique_strings ::
  "string list option \<Rightarrow> string \<Rightarrow> nat \<Rightarrow> nat \<Rightarrow> store_error + string list" where
  "unique_strings values label limit maxLength =
     fetch values (Thrown (''Criterion-aware plan '' @ label @ '' must contain at most '' @ show_nat limit @ '' non-empty strings'')) (\<lambda>vs.
     require (length vs \<le> limit
              \<and> list_all (\<lambda>v. js_trim v \<noteq> '''' \<and> nul \<notin> set v \<and> length v \<le> maxLength) vs)
       (Thrown (''Criterion-aware plan '' @ label @ '' must contain at most '' @ show_nat limit @ '' non-empty strings''))
    (require (distinct (map js_trim vs)) (Thrown (''Criterion-aware plan '' @ label @ '' must be unique''))
    (Inr (map js_trim vs))))"

definition starts_with :: "string \<Rightarrow> string \<Rightarrow> bool" where
  "starts_with prefix s = (take (length prefix) s = prefix)"

definition EVIDENCE_PREFIXES :: "string list" where
  "EVIDENCE_PREFIXES = [''check:'', ''artifact:'', ''operation:'', ''transcript:'', ''memory:'']"

text \<open>\<open>ac-1\<close>, \<open>ac-2\<close>, ...: the ids of the criteria a plan may cover.\<close>

definition criterion_ids :: "contract option \<Rightarrow> string list" where
  "criterion_ids contract =
     map (\<lambda>i. ''ac-'' @ show_nat (Suc i)) [0..<length (taskRunPlanningCriteria contract)]"

definition find_plan :: "work_db \<Rightarrow> string \<Rightarrow> string \<Rightarrow> plan_item option" where
  "find_plan s runId key =
     map_option snd (find (\<lambda>row. fst row = runId \<and> pi_key (snd row) = key) (wd_plan s))"

definition plan_scope_changed :: "plan_item option \<Rightarrow> plan_input \<Rightarrow> string list \<Rightarrow> string list \<Rightarrow> string list \<Rightarrow> bool" where
  "plan_scope_changed existing item objectiveIds criterionIds dependencies =
     (case existing of None \<Rightarrow> False
      | Some prior \<Rightarrow>
          (case pi_meta prior of None \<Rightarrow> False
           | Some m \<Rightarrow> (pi_title prior, pm_objectiveIds m, pm_criterionIds m, pm_dependencies m)
                        \<noteq> (in_title item, objectiveIds, criterionIds, dependencies)))"

definition normalizePlanMetadata :: "string \<Rightarrow> plan_input \<Rightarrow> work_db \<Rightarrow> store_error + plan_metadata option" where
  "normalizePlanMetadata runId item s =
     (if in_schemaVersion item \<noteq> Some 2 then Inr None
      else
        fetch (get_run (wd_core s) runId) (Thrown (''Unknown TaskRun '' @ runId)) (\<lambda>run.
        let contract = r_contract run
        in and_then (unique_strings (in_objectiveIds item) ''objectiveIds'' 50 256) (\<lambda>objectiveIds.
           and_then (unique_strings (in_criterionIds item) ''criterionIds'' 100 256) (\<lambda>criterionIds.
           and_then (unique_strings (in_dependencies item) ''dependencies'' 50 256) (\<lambda>dependencies.
           and_then (unique_strings (in_completionEvidenceRefs item) ''completionEvidenceRefs'' 100 2000) (\<lambda>refs.
           require (in_key item \<notin> set dependencies) (Thrown ''A plan item cannot depend on itself'')
          (require (list_all (\<lambda>ref. list_ex (\<lambda>p. starts_with p ref) EVIDENCE_PREFIXES) refs)
             (Thrown ''Plan completion evidence contains an unsupported reference'')
          (require (list_all (\<lambda>i. i \<in> set (case contract of None \<Rightarrow> [] | Some k \<Rightarrow> map o_id (k_objectives k))) objectiveIds)
             (Thrown ''Plan item references an unknown objective'')
          (require (list_all (\<lambda>i. i \<in> set (criterion_ids contract)) criterionIds)
             (Thrown ''Plan item references an unknown acceptance criterion'')
          (let existing = find_plan s runId (in_key item);
               previous = (case existing of None \<Rightarrow> None | Some prior \<Rightarrow> pi_meta prior);
               changed = plan_scope_changed existing item objectiveIds criterionIds dependencies;
               replanReason = (case in_replanReason item of None \<Rightarrow> '''' | Some r \<Rightarrow> js_trim r)
           in require (nul \<notin> set replanReason \<and> length replanReason \<le> 4000) (Thrown ''Plan replanReason is invalid'')
             (require (\<not> (changed \<and> replanReason = ''''))
                (Thrown ''Changing plan scope or dependencies requires a replanReason'')
             (Inr (Some \<lparr>pm_objectiveIds = objectiveIds, pm_criterionIds = criterionIds,
                         pm_dependencies = dependencies, pm_completionEvidenceRefs = refs,
                         pm_createdAttempt = (case previous of None \<Rightarrow> r_attempt run | Some m \<Rightarrow> pm_createdAttempt m),
                         pm_updatedAttempt = r_attempt run,
                         pm_replanReason = (if replanReason = '''' then None else Some replanReason)\<rparr>)))))))))))))"

definition assertProspectivePlanAcyclic :: "string \<Rightarrow> plan_item \<Rightarrow> work_db \<Rightarrow> store_error + unit" where
  "assertProspectivePlanAcyclic runId item s =
     (let plan = map snd (filter (\<lambda>row. fst row = runId \<and> pi_key (snd row) \<noteq> pi_key item) (wd_plan s)) @ [item];
          cyclic = cyclicPlanItemKeys plan
      in require (cyclic = [])
           (Thrown (''Plan dependencies must be acyclic; cycle includes '' @ join_with '', '' cyclic)) (Inr ()))"

fun plan_status_name :: "plan_status \<Rightarrow> string" where
  "plan_status_name Plan_pending = ''pending''"
| "plan_status_name Plan_in_progress = ''in_progress''"
| "plan_status_name Plan_done = ''done''"
| "plan_status_name Plan_blocked = ''blocked''"
| "plan_status_name Plan_skipped = ''skipped''"

text \<open>The object a snapshot serializes.\<close>

definition plan_value :: "plan_item \<Rightarrow> jsval" where
  "plan_value item =
     JObj ([(''key'', JStr (pi_key item)), (''title'', JStr (pi_title item)),
            (''status'', JStr (plan_status_name (pi_status item))), (''required'', JBool (pi_required item)),
            (''position'', JNum (JInt (pi_position item)))]
       @ (case pi_meta item of None \<Rightarrow> []
          | Some m \<Rightarrow>
             [(''schemaVersion'', JNum (JInt 2)), (''objectiveIds'', JArr (map JStr (pm_objectiveIds m))),
              (''criterionIds'', JArr (map JStr (pm_criterionIds m))),
              (''dependencies'', JArr (map JStr (pm_dependencies m))),
              (''completionEvidenceRefs'', JArr (map JStr (pm_completionEvidenceRefs m))),
              (''createdAttempt'', JNum (JInt (pm_createdAttempt m))),
              (''updatedAttempt'', JNum (JInt (pm_updatedAttempt m)))]
             @ (case pm_replanReason m of None \<Rightarrow> [] | Some r \<Rightarrow> [(''replanReason'', JStr r)])))"

definition stable_text :: "jsval \<Rightarrow> store_error + string" where
  "stable_text v = (case stableJson v of Inl e \<Rightarrow> Inl (Type_error e) | Inr t \<Rightarrow> Inr t)"

definition put_plan :: "string \<Rightarrow> plan_item \<Rightarrow> work_db \<Rightarrow> store_error + work_db" where
  "put_plan runId item s =
     require (has_run (wd_core s) runId) (Sql_constraint ''plan_items'')
       (Inr (if find_plan s runId (pi_key item) = None then s\<lparr>wd_plan := wd_plan s @ [(runId, item)]\<rparr>
             else s\<lparr>wd_plan := upd (\<lambda>row. fst row = runId \<and> pi_key (snd row) = pi_key item) (\<lambda>_. (runId, item)) (wd_plan s)\<rparr>))"

definition revision_reason :: "plan_item option \<Rightarrow> plan_input \<Rightarrow> string" where
  "revision_reason prior item =
     (case prior of None \<Rightarrow> ''created''
      | Some p \<Rightarrow>
          let reason = (case in_replanReason item of None \<Rightarrow> '''' | Some r \<Rightarrow> js_trim r)
          in if reason \<noteq> '''' then reason
             else if pi_status p \<noteq> in_status item
             then ''status:'' @ plan_status_name (pi_status p) @ ''->'' @ plan_status_name (in_status item)
             else ''updated'')"

definition add_revision ::
  "(string \<Rightarrow> string) \<Rightarrow> int \<Rightarrow> string \<Rightarrow> plan_input \<Rightarrow> plan_item option \<Rightarrow> string \<Rightarrow> plan_metadata \<Rightarrow> work_db
   \<Rightarrow> store_error + work_db" where
  "add_revision sha256 t runId item prior snapshotJson metadata s =
     (let revision = fold max (map pr_revision (filter (\<lambda>r. pr_runId r = runId \<and> pr_itemKey r = in_key item)
                        (wd_revisions s))) 0 + 1;
          hash = sha256 snapshotJson
      in require (length hash = 64 \<and> 0 < pm_updatedAttempt metadata) (Sql_constraint ''plan_item_revisions'')
           (Inr (s\<lparr>wd_revisions := wd_revisions s @
              [\<lparr>pr_runId = runId, pr_itemKey = in_key item, pr_revision = revision, pr_snapshot = snapshotJson,
                pr_snapshotHash = hash, pr_attempt = pm_updatedAttempt metadata,
                pr_reason = revision_reason prior item, pr_createdAt = t\<rparr>]\<rparr>)))"

definition set_core :: "(db \<Rightarrow> db) \<Rightarrow> work_db \<Rightarrow> work_db" where
  "set_core f s = s\<lparr>wd_core := f (wd_core s)\<rparr>"

definition upsertPlanItem ::
  "(string \<Rightarrow> string) \<Rightarrow> int \<Rightarrow> int \<Rightarrow> string \<Rightarrow> plan_input \<Rightarrow> work_db \<Rightarrow> store_error + unit \<times> work_db" where
  "upsertPlanItem sha256 t phaseAt runId item s =
     and_then (normalizePlanMetadata runId item s) (\<lambda>metadata.
     let snapshot = \<lparr>pi_key = in_key item, pi_title = in_title item, pi_status = in_status item,
                     pi_required = in_required item, pi_position = in_position item, pi_meta = metadata\<rparr>;
         prior = find_plan s runId (in_key item)
     in and_then (assertProspectivePlanAcyclic runId snapshot s) (\<lambda>_.
        and_then (stable_text (plan_value snapshot)) (\<lambda>snapshotJson.
        and_then (case prior of None \<Rightarrow> Inr None
                  | Some p \<Rightarrow> and_then (stable_text (plan_value p)) (\<lambda>x. Inr (Some x))) (\<lambda>priorSnapshot.
        and_then (put_plan runId snapshot s) (\<lambda>s1.
        and_then (case metadata of
                    None \<Rightarrow> Inr s1
                  | Some m \<Rightarrow> if priorSnapshot \<noteq> Some snapshotJson
                              then add_revision sha256 t runId item prior snapshotJson m s1 else Inr s1) (\<lambda>s2.
        Inr ((), set_core (\<lambda>d. snd (advanceRunPhase phaseAt runId
                              (if in_status item = Plan_pending then Ph_plan else Ph_implement) d)) s2)))))))"

definition listPlanItemRevisions :: "work_db \<Rightarrow> string \<Rightarrow> string option \<Rightarrow> plan_item_revision list" where
  "listPlanItemRevisions s runId itemKey =
     sort_key pr_itemKey (sort_key pr_revision
       (filter (\<lambda>r. pr_runId r = runId \<and> (case itemKey of None \<Rightarrow> True | Some k \<Rightarrow> pr_itemKey r = k)) (wd_revisions s)))"

section \<open>Checks and artifacts\<close>

definition markChecksStale :: "int \<Rightarrow> string \<Rightarrow> work_db \<Rightarrow> nat \<times> work_db" where
  "markChecksStale t runId s =
     (let P = (\<lambda>row. fst row = runId \<and> ck_status (snd row) = Check_passed);
          changes = cnt P (wd_checks s);
          s1 = s\<lparr>wd_checks := upd P (\<lambda>row. (fst row, (snd row)\<lparr>ck_stale := True\<rparr>)) (wd_checks s)\<rparr>
      in (changes, if changes \<noteq> 0 then set_core (set_run runId (\<lambda>_. True) (\<lambda>r. r\<lparr>r_updatedAt := t\<rparr>)) s1 else s1))"

definition js_field :: "(string \<times> jsval) list option \<Rightarrow> string \<Rightarrow> jsval option" where
  "js_field kvs k = (case kvs of None \<Rightarrow> None | Some m \<Rightarrow> map_of m k)"

definition js_object_field :: "(string \<times> jsval) list option \<Rightarrow> string \<Rightarrow> (string \<times> jsval) list option" where
  "js_object_field kvs k = (case js_field kvs k of None \<Rightarrow> None | Some v \<Rightarrow> js_record v)"

fun js_string :: "jsval option \<Rightarrow> string option" where
  "js_string (Some (JStr s)) = Some s"
| "js_string _ = None"

text \<open>\<open>v === 0\<close>.\<close>

fun js_zero :: "jsval option \<Rightarrow> bool" where
  "js_zero (Some (JNum (JInt n))) = (n = 0)"
| "js_zero (Some (JNum JNegZero)) = True"
| "js_zero _ = False"

text \<open>The command, result object and details of a Bash receipt.\<close>

definition receipt_command :: "operation_row \<Rightarrow> string option" where
  "receipt_command x = js_string (js_field (js_record (op_payload x)) ''command'')"

definition receipt_result :: "operation_row \<Rightarrow> (string \<times> jsval) list option" where
  "receipt_result x = (case op_result x of None \<Rightarrow> None | Some v \<Rightarrow> js_record v)"

definition receipt_details :: "operation_row \<Rightarrow> (string \<times> jsval) list option" where
  "receipt_details x = js_object_field (receipt_result x) ''details''"

definition text_parts :: "jsval option \<Rightarrow> string list" where
  "text_parts content =
     (case content of
        Some (JArr parts) \<Rightarrow> List.map_filter (\<lambda>p. js_string (js_field (js_record p) ''text'')) parts
      | _ \<Rightarrow> [])"

definition project_output :: "string \<Rightarrow> string" where
  "project_output out =
     (if length out \<le> 3000 then out
      else take 2000 out @ [CHR 0x0A] @ ''... output projected by Core ...'' @ [CHR 0x0A] @ drop (length out - 800) out)"

definition completed :: "operation_row \<Rightarrow> bool" where
  "completed x = (case op_completedAt x of None \<Rightarrow> False | Some t \<Rightarrow> t \<noteq> 0)"

definition bound_evidence :: "(jsval \<Rightarrow> string) \<Rightarrow> string \<Rightarrow> string \<Rightarrow> operation_row \<Rightarrow> string" where
  "bound_evidence digest sourceOperationId command x =
     (let details = receipt_details x
      in json_text (JObj
           [(''sourceOperationId'', JStr sourceOperationId), (''command'', JStr command),
            (''exitCode'', JNum (JInt 0)),
            (''observedAt'', (case op_completedAt x of None \<Rightarrow> JNull | Some t \<Rightarrow> JNum (JInt t))),
            (''output'', JStr (project_output (join_with [CHR 0x0A] (text_parts (js_field (receipt_result x) ''content''))))),
            (''artifactId'', (case js_string (js_field details ''artifactId'') of None \<Rightarrow> JNull | Some a \<Rightarrow> JStr a)),
            (''sha256'', JStr (case js_string (js_field details ''sha256'') of Some h \<Rightarrow> h
                               | None \<Rightarrow> digest (case op_result x of None \<Rightarrow> JUndefined | Some v \<Rightarrow> v)))]))"

definition bindTrustedCheckEvidence :: "(jsval \<Rightarrow> string) \<Rightarrow> string \<Rightarrow> run_check \<Rightarrow> work_db \<Rightarrow> store_error + run_check" where
  "bindTrustedCheckEvidence digest runId check s =
     (let source = (case ck_sourceOperationId check of None \<Rightarrow> '''' | Some i \<Rightarrow> js_trim i)
      in if ck_status check \<noteq> Check_passed \<or> source = ''''
         then Inr (check\<lparr>ck_sourceOperationId := None, ck_observedAt := None\<rparr>)
         else
           fetch (get_run (wd_core s) runId)
             (Thrown ''Passed check evidence must reference a successful operation from the current Run Attempt'') (\<lambda>run.
           fetch (getOperation (wd_core s) source)
             (Thrown ''Passed check evidence must reference a successful operation from the current Run Attempt'') (\<lambda>x.
           require (op_runId x = runId \<and> op_attempt x = r_attempt run)
             (Thrown ''Passed check evidence must reference a successful operation from the current Run Attempt'')
          (require (op_type x = ''tool.bash'' \<and> op_status x = ''succeeded'' \<and> completed x \<and> op_result x \<noteq> None)
             (Thrown ''Passed check evidence must reference a completed successful Bash operation'')
          (let command = (case receipt_command x of None \<Rightarrow> '''' | Some c \<Rightarrow> js_trim c)
           in require (command \<noteq> '''' \<and> js_zero (js_field (receipt_details x) ''exitCode''))
                (Thrown ''Passed check evidence receipt is missing the actual command or zero exit code'')
                (Inr (check\<lparr>ck_command := command, ck_evidence := bound_evidence digest source command x,
                            ck_stale := False, ck_sourceOperationId := Some source,
                            ck_observedAt := op_completedAt x\<rparr>)))))))"

definition find_check :: "work_db \<Rightarrow> string \<Rightarrow> string \<Rightarrow> run_check option" where
  "find_check s runId key = map_option snd (find (\<lambda>row. fst row = runId \<and> ck_key (snd row) = key) (wd_checks s))"

definition upsertCheck ::
  "(jsval \<Rightarrow> string) \<Rightarrow> int \<Rightarrow> string \<Rightarrow> run_check \<Rightarrow> work_db \<Rightarrow> store_error + unit \<times> work_db" where
  "upsertCheck digest t runId check s =
     and_then (bindTrustedCheckEvidence digest runId check s) (\<lambda>bound.
     require (has_run (wd_core s) runId) (Sql_constraint ''run_checks'')
    (let s1 = (if find_check s runId (ck_key bound) = None then s\<lparr>wd_checks := wd_checks s @ [(runId, bound)]\<rparr>
               else s\<lparr>wd_checks := upd (\<lambda>row. fst row = runId \<and> ck_key (snd row) = ck_key bound)
                                      (\<lambda>_. (runId, bound)) (wd_checks s)\<rparr>)
     in Inr ((), set_core (\<lambda>d. snd (advanceRunPhase t runId
            (if ck_status bound = Check_pending then Ph_implement else Ph_verify) d)) s1)))"

definition getArtifact :: "work_db \<Rightarrow> string \<Rightarrow> string \<Rightarrow> artifact option" where
  "getArtifact s runId artifactId = find (\<lambda>a. af_runId a = runId \<and> af_id a = artifactId) (wd_artifacts s)"

text \<open>\<open>ORDER BY created_at,id LIMIT ? OFFSET ?\<close>; the \<open>content\<close> column is not selected.\<close>

definition listArtifacts :: "work_db \<Rightarrow> string \<Rightarrow> nat \<Rightarrow> nat \<Rightarrow> artifact list" where
  "listArtifacts s runId offset limit =
     take limit (drop offset (sort_key af_createdAt (sort_key af_id (filter (\<lambda>a. af_runId a = runId) (wd_artifacts s)))))"

definition addArtifact :: "int \<Rightarrow> artifact \<Rightarrow> work_db \<Rightarrow> store_error + artifact \<times> work_db" where
  "addArtifact t artifact s =
     (let row = artifact\<lparr>af_createdAt := t\<rparr>
      in require (has_run (wd_core s) (af_runId row) \<and> \<not> list_ex (\<lambda>a. af_id a = af_id row) (wd_artifacts s))
           (Sql_constraint ''artifacts'')
           (Inr (row, s\<lparr>wd_artifacts := wd_artifacts s @ [row]\<rparr>)))"

section \<open>Transcript and context manifests\<close>

text \<open>
  \<open>appendTranscript\<close>: \<open>t\<close> is the entry's clock, \<open>t2\<close> the one an assistant message stamps on the
  run. The usage counters of the run, which no decision reads, are not columns of the model.
\<close>

definition last_transcript_seq :: "work_db \<Rightarrow> string \<Rightarrow> int" where
  "last_transcript_seq s runId = fold max (map te_seq (filter (\<lambda>e. te_runId e = runId) (wd_transcript s))) 0"

definition message_role :: "jsval \<Rightarrow> string option" where
  "message_role message = js_string (json_extract message ''role'')"

definition appendTranscript ::
  "int \<Rightarrow> int \<Rightarrow> string \<Rightarrow> int \<Rightarrow> jsval \<Rightarrow> work_db \<Rightarrow> store_error + int \<times> work_db" where
  "appendTranscript t t2 runId attempt message s =
     fetch (message_role message) (Sql_constraint ''run_transcript.role'') (\<lambda>role.
     require (has_run (wd_core s) runId) (Sql_constraint ''run_transcript.run_id'')
    (let seq = last_transcript_seq s runId + 1;
         s1 = set_core (\<lambda>d. d\<lparr>db_transcript := db_transcript d @ [(runId, seq)]\<rparr>)
                (s\<lparr>wd_transcript := wd_transcript s @ [\<lparr>te_runId = runId, te_seq = seq, te_attempt = attempt,
                                                      te_role = role, te_message = message, te_createdAt = t\<rparr>]\<rparr>)
     in Inr (seq, if role = ''assistant'' then set_core (set_run runId (\<lambda>_. True) (\<lambda>r. r\<lparr>r_updatedAt := t2\<rparr>)) s1
                  else s1)))"

datatype transcript_kind = Kind_user | Kind_assistant | Kind_thinking | Kind_tool

record transcript_query =
  tq_attempt :: "int option"
  tq_role :: "string option"
  tq_createdAfter :: "int option"
  tq_createdBefore :: "int option"
  tq_kind :: "transcript_kind option"
  tq_after :: "int option"
  tq_limit :: "nat option"

text \<open>An assistant entry with a content part of the given type.\<close>

definition has_part :: "string \<Rightarrow> transcript_entry \<Rightarrow> bool" where
  "has_part k e =
     (te_role e = ''assistant''
      \<and> (case json_extract (te_message e) ''content'' of
            Some (JArr parts) \<Rightarrow> list_ex (\<lambda>p. json_extract p ''type'' = Some (JStr k)) parts
          | _ \<Rightarrow> False))"

definition transcriptFilterSql :: "transcript_query \<Rightarrow> transcript_entry \<Rightarrow> bool" where
  "transcriptFilterSql options e =
     ((case tq_attempt options of None \<Rightarrow> True | Some n \<Rightarrow> te_attempt e = n)
      \<and> (case tq_role options of None \<Rightarrow> True | Some r \<Rightarrow> te_role e = r)
      \<and> (case tq_createdAfter options of None \<Rightarrow> True | Some t \<Rightarrow> t \<le> te_createdAt e)
      \<and> (case tq_createdBefore options of None \<Rightarrow> True | Some t \<Rightarrow> te_createdAt e < t)
      \<and> (case tq_kind options of
            None \<Rightarrow> True
          | Some Kind_user \<Rightarrow> te_role e = ''user''
          | Some Kind_assistant \<Rightarrow> has_part ''text'' e
          | Some Kind_thinking \<Rightarrow> has_part ''thinking'' e
          | Some Kind_tool \<Rightarrow> te_role e = ''toolResult'' \<or> has_part ''toolCall'' e))"

definition listTranscriptEntries :: "work_db \<Rightarrow> string \<Rightarrow> transcript_query \<Rightarrow> transcript_entry list" where
  "listTranscriptEntries s runId options =
     (let rows = sort_key te_seq (filter (\<lambda>e. te_runId e = runId \<and> transcriptFilterSql options e
                    \<and> (case tq_after options of None \<Rightarrow> True | Some n \<Rightarrow> n < te_seq e)) (wd_transcript s))
      in case tq_limit options of
           None \<Rightarrow> rows
         | Some n \<Rightarrow> if tq_after options \<noteq> None then take (max 1 n) rows
                     else rev (take (max 1 n) (rev rows)))"

definition any_entry :: transcript_query where
  "any_entry = \<lparr>tq_attempt = None, tq_role = None, tq_createdAfter = None, tq_createdBefore = None, tq_kind = None,
     tq_after = None, tq_limit = None\<rparr>"

definition evidenceSourceHash :: "(string \<Rightarrow> string) \<Rightarrow> string \<Rightarrow> string" where
  "evidenceSourceHash sha256 content = ''sha256:'' @ sha256 content"

definition createEvidenceSource ::
  "(string \<Rightarrow> string) \<Rightarrow> evidence_kind \<Rightarrow> string \<Rightarrow> string \<Rightarrow> string \<Rightarrow> evidence_source" where
  "createEvidenceSource sha256 kind sourceRef sourceRevision content =
     \<lparr>es_sourceRef = sourceRef, es_kind = kind, es_sourceRevision = sourceRevision,
      es_sourceHash = evidenceSourceHash sha256 content, es_content = content\<rparr>"

text \<open>The selected memory items of a manifest, by the reference that names them.\<close>

definition memory_items :: "context_manifest \<Rightarrow> (string \<times> manifest_item) list" where
  "memory_items manifest =
     js_map (map (\<lambda>i. (''memory:'' @ mi_sourceId i, i))
       (filter (\<lambda>i. mi_selected i \<and> mi_kind i \<in> set [''core_memory'', ''memory_card'', ''cold_topic'']) (cx_items manifest)))"

text \<open>The loop over the evidence sources; \<open>seen\<close> are the sources accepted so far.\<close>

fun accept_sources ::
  "(string \<Rightarrow> string) \<Rightarrow> (string \<times> manifest_item) list \<Rightarrow> evidence_source list \<Rightarrow> evidence_source list
   \<Rightarrow> store_error + evidence_source list" where
  "accept_sources sha256 items seen [] = Inr seen"
| "accept_sources sha256 items seen (src # rest) =
     require (es_kind src = Src_memory \<and> starts_with ''memory:'' (es_sourceRef src))
       (Thrown ''Context evidence source must be a memory source'')
    (require (\<not> list_ex (\<lambda>x. es_sourceRef x = es_sourceRef src) seen) (Thrown (''Duplicate context evidence source '' @ es_sourceRef src))
    (fetch (map_of items (es_sourceRef src)) (Thrown (''Context evidence source is not selected by the manifest: '' @ es_sourceRef src)) (\<lambda>item.
     require (es_sourceHash src = evidenceSourceHash sha256 (es_content src))
       (Thrown (''Context evidence source hash does not match: '' @ es_sourceRef src))
    (require (mi_projectedContentHash item = Some (sha256 (es_content src)) \<and> mi_sourceRevision item = Some (es_sourceRevision src))
       (Thrown (''Context evidence source does not match its manifest commitment: '' @ es_sourceRef src))
       (accept_sources sha256 items (seen @ [src]) rest)))))"

definition recordContextManifest ::
  "(string \<Rightarrow> string) \<Rightarrow> context_manifest \<Rightarrow> evidence_source list \<Rightarrow> work_db
   \<Rightarrow> store_error + context_manifest \<times> work_db" where
  "recordContextManifest sha256 manifest evidenceSources s =
     (let items = memory_items manifest
      in and_then (accept_sources sha256 items [] evidenceSources) (\<lambda>sources.
         let missing = filter (\<lambda>ref. \<not> list_ex (\<lambda>x. es_sourceRef x = ref) sources) (map fst items)
         in require (missing = [])
           (Thrown (''Selected memory context is missing exact evidence source bytes: '' @ join_with '', '' missing))
        (require (has_run (wd_core s) (cx_runId manifest) \<and> \<not> list_ex (\<lambda>m. cx_id m = cx_id manifest) (wd_manifests s)
                  \<and> list_all (\<lambda>x. length (es_sourceHash x) = 71) sources)
           (Sql_constraint ''context_manifests'')
           (Inr (manifest, s\<lparr>wd_manifests := wd_manifests s @ [manifest],
              wd_sources := wd_sources s @ map (\<lambda>x. \<lparr>cs_manifestId = cx_id manifest, cs_runId = cx_runId manifest,
                                                      cs_source = x, cs_createdAt = cx_createdAt manifest\<rparr>) sources\<rparr>)))))"

text \<open>\<open>ORDER BY created_at DESC,id DESC LIMIT ?\<close>.\<close>

definition listContextManifests :: "work_db \<Rightarrow> string \<Rightarrow> nat \<Rightarrow> context_manifest list" where
  "listContextManifests s runId limit =
     take limit (rev (sort_key cx_createdAt (sort_key cx_id (filter (\<lambda>m. cx_runId m = runId) (wd_manifests s)))))"

section \<open>Evidence sources\<close>

text \<open>\<open>[...new Set(xs)]\<close>: first occurrences in order.\<close>

definition js_set :: "'a list \<Rightarrow> 'a list" where
  "js_set xs = rev (remdups (rev xs))"

definition listOperations :: "db \<Rightarrow> string \<Rightarrow> nat option \<Rightarrow> string list \<Rightarrow> operation_row list" where
  "listOperations d runId limit ids =
     (let own = sort_key op_createdAt (sort_key op_id (filter (\<lambda>x. op_runId x = runId) (db_operations d)));
          wanted = js_set (filter (\<lambda>i. i \<noteq> '''') (map js_trim ids));
          recent = (case limit of None \<Rightarrow> [] | Some n \<Rightarrow> map op_id (take (max 1 n) (rev own)))
      in if wanted = [] \<and> limit = None then own
         else filter (\<lambda>x. op_id x \<in> set wanted \<or> op_id x \<in> set recent) own)"

text \<open>
  \<open>/^transcript:(.+):(\d+)$/\<close>: the digits hold no colon, so the greedy group ends at the last
  one; \<open>.\<close> matches no line terminator.
\<close>

definition transcript_ref :: "string \<Rightarrow> (string \<times> nat) option" where
  "transcript_ref ref =
     (if \<not> starts_with ''transcript:'' ref then None
      else
        let rest = rev (drop 11 ref);
            digits = rev (takeWhile (\<lambda>c. c \<noteq> CHR '':'') rest);
            run = rev (drop 1 (dropWhile (\<lambda>c. c \<noteq> CHR '':'') rest))
        in if CHR '':'' \<in> set rest \<and> digits \<noteq> '''' \<and> list_all (\<lambda>c. c \<in> set ''0123456789'') digits
              \<and> run \<noteq> '''' \<and> list_all (\<lambda>c. c \<notin> set [CHR 0x0A, CHR 0x0D]) run
           then Some (run, fold (\<lambda>c acc. 10 * acc + digit_value c) digits 0) else None)"

text \<open>\<open>v ?? null\<close>.\<close>

fun nullish :: "jsval \<Rightarrow> jsval" where
  "nullish JUndefined = JNull"
| "nullish v = v"

definition operation_value :: "operation_row \<Rightarrow> jsval" where
  "operation_value x =
     JObj [(''id'', JStr (op_id x)), (''attempt'', JNum (JInt (op_attempt x))),
           (''operationType'', JStr (op_type x)), (''payloadHash'', JStr (op_payloadHash x)),
           (''payload'', nullish (op_payload x)), (''status'', JStr (op_status x)), (''stage'', JStr (op_stage x)),
           (''effects'', JArr (op_effects x)),
           (''result'', (case op_result x of None \<Rightarrow> JNull | Some v \<Rightarrow> nullish v)), (''error'', JStr (op_error x)),
           (''completedAt'', (case op_completedAt x of None \<Rightarrow> JNull | Some t \<Rightarrow> JNum (JInt t)))]"

text \<open>The row \<open>ORDER BY created_at DESC,manifest_id DESC LIMIT 1\<close> selects.\<close>

definition latest_source :: "work_db \<Rightarrow> string \<Rightarrow> string \<Rightarrow> evidence_source option" where
  "latest_source s runId ref =
     (let rows = sort_key cs_createdAt (sort_key cs_manifestId
                   (filter (\<lambda>c. cs_runId c = runId \<and> es_sourceRef (cs_source c) = ref) (wd_sources s)))
      in if rows = [] then None else Some (cs_source (last rows)))"

text \<open>The body of the loop over the references: the sources it pushes.\<close>

definition resolve_ref :: "(string \<Rightarrow> string) \<Rightarrow> work_db \<Rightarrow> string \<Rightarrow> string \<Rightarrow> store_error + evidence_source list" where
  "resolve_ref sha256 s runId ref =
     (if starts_with ''artifact:'' ref then
        (case getArtifact s runId (drop 9 ref) of None \<Rightarrow> Inr []
         | Some a \<Rightarrow> Inr [createEvidenceSource sha256 Src_artifact ref (''created:'' @ show_int (af_createdAt a)) (af_content a)])
      else if starts_with ''operation:'' ref then
        (case getOperation (wd_core s) (drop 10 ref) of None \<Rightarrow> Inr []
         | Some x \<Rightarrow>
             (case op_completedAt x of None \<Rightarrow> Inr []
              | Some t \<Rightarrow>
                  if op_runId x \<noteq> runId \<or> op_status x \<noteq> ''succeeded'' then Inr []
                  else and_then (stable_text (operation_value x)) (\<lambda>content.
                         Inr [createEvidenceSource sha256 Src_operation ref (''completed:'' @ show_int t) content])))
      else
        (case transcript_ref ref of
           Some (run, seq) \<Rightarrow>
             if run \<noteq> runId then Inr []
             else (case listTranscriptEntries s runId (any_entry\<lparr>tq_after := Some (int seq - 1), tq_limit := Some 1\<rparr>) of [] \<Rightarrow> Inr []
                   | e # _ \<Rightarrow> if te_seq e \<noteq> int seq then Inr []
                              else and_then (stable_text (te_message e)) (\<lambda>content.
                                     Inr [createEvidenceSource sha256 Src_transcript ref (''seq:'' @ show_nat seq) content]))
         | None \<Rightarrow>
             if starts_with ''memory:'' ref
             then (case latest_source s runId ref of None \<Rightarrow> Inr [] | Some x \<Rightarrow> Inr [x]) else Inr []))"

definition resolveEvidenceSources ::
  "(string \<Rightarrow> string) \<Rightarrow> work_db \<Rightarrow> string \<Rightarrow> string list \<Rightarrow> store_error + evidence_source list" where
  "resolveEvidenceSources sha256 s runId refs =
     and_then (collect_results (map (resolve_ref sha256 s runId) (js_set (filter (\<lambda>r. r \<noteq> '''') (map js_trim refs)))))
       (\<lambda>found. Inr (concat found))"

section \<open>The completion gate\<close>

record gate_view =
  gv_id :: string
  gv_attempt :: int
  gv_gateRequired :: bool
  gv_contract :: "contract option"
  gv_plan :: "plan_item list"
  gv_checks :: "run_check list"

text \<open>The plan and the checks of a run as \<open>getRun\<close> selects them.\<close>

definition plan_of :: "work_db \<Rightarrow> string \<Rightarrow> plan_item list" where
  "plan_of s runId = sort_key pi_position (map snd (filter (\<lambda>row. fst row = runId) (wd_plan s)))"

definition checks_of :: "work_db \<Rightarrow> string \<Rightarrow> run_check list" where
  "checks_of s runId = sort_key ck_key (map snd (filter (\<lambda>row. fst row = runId) (wd_checks s)))"

definition completion_view :: "work_db \<Rightarrow> string \<Rightarrow> gate_view option" where
  "completion_view s runId =
     map_option (\<lambda>r. \<lparr>gv_id = r_id r, gv_attempt = r_attempt r, gv_gateRequired = r_gateRequired r,
                      gv_contract = r_contract r, gv_plan = plan_of s runId, gv_checks = checks_of s runId\<rparr>)
       (get_run (wd_core s) runId)"

record gate_failure =
  gf_kind :: string
  gf_key :: string
  gf_reason :: string

record completion_gate =
  cg_passed :: bool
  cg_failures :: "gate_failure list"

definition failure :: "string \<Rightarrow> string \<Rightarrow> string \<Rightarrow> gate_failure" where
  "failure kind key reason = \<lparr>gf_kind = kind, gf_key = key, gf_reason = reason\<rparr>"

text \<open>The condition of the \<open>SELECT\<close> that observes a mutation.\<close>

definition gate_observes :: "operation_row \<Rightarrow> bool" where
  "gate_observes x \<longleftrightarrow>
     op_status x \<noteq> ''pre_effect_rejected''
     \<and> (op_type x \<in> set [''tool.write'', ''tool.edit'', ''tool.patch'', ''tool.memory_forget'']
        \<or> op_type x = ''tool.bash''
          \<and> \<not> list_ex (\<lambda>e. json_extract e ''kind'' = Some (JStr ''workspace'')
                           \<and> json_extract e ''action'' = Some (JStr ''read_only'')) (op_effects x))"

definition gate_mutationObserved :: "db \<Rightarrow> string \<Rightarrow> int \<Rightarrow> bool" where
  "gate_mutationObserved d runId attempt =
     list_ex (\<lambda>x. op_runId x = runId \<and> op_attempt x = attempt \<and> gate_observes x) (db_operations d)"

definition gate_policy :: "db \<Rightarrow> gate_view \<Rightarrow> task_policy" where
  "gate_policy d run =
     effectiveTaskExecutionPolicy (gv_contract run)
       (if gate_mutationObserved d (gv_id run) (gv_attempt run)
        then [\<lparr>ov_operationType = ''tool.write'', ov_status = ''succeeded'', ov_attempt = gv_attempt run, ov_effects = None\<rparr>]
        else [])
       (Some (gv_attempt run))"

text \<open>The lazily built map of the receipts the required checks name.\<close>

definition operationById :: "db \<Rightarrow> gate_view \<Rightarrow> string \<Rightarrow> operation_row option" where
  "operationById d run oid =
     map_of (js_map (map (\<lambda>x. (op_id x, x)) (listOperations d (gv_id run) None
       (List.map_filter (\<lambda>c. case ck_sourceOperationId c of None \<Rightarrow> None | Some i \<Rightarrow> if i = '''' then None else Some i)
         (filter ck_required (gv_checks run)))))) oid"

definition trustedCheck :: "db \<Rightarrow> gate_view \<Rightarrow> run_check \<Rightarrow> bool" where
  "trustedCheck d run check =
     (ck_status check = Check_passed \<and> \<not> ck_stale check \<and> js_trim (ck_evidence check) \<noteq> ''''
      \<and> (case (ck_sourceOperationId check, ck_observedAt check) of
           (Some source, Some observed) \<Rightarrow>
             source \<noteq> '''' \<and> observed \<noteq> 0
             \<and> (case operationById d run source of None \<Rightarrow> False
                | Some x \<Rightarrow>
                    op_runId x = gv_id run \<and> op_attempt x = gv_attempt run \<and> op_type x = ''tool.bash''
                    \<and> op_status x = ''succeeded'' \<and> op_completedAt x = Some observed \<and> op_result x \<noteq> None
                    \<and> (case receipt_command x of None \<Rightarrow> False | Some c \<Rightarrow> js_trim c = js_trim (ck_command check))
                    \<and> js_zero (js_field (receipt_details x) ''exitCode''))
         | _ \<Rightarrow> False))"

fun check_status_name :: "check_status \<Rightarrow> string" where
  "check_status_name Check_pending = ''pending''"
| "check_status_name Check_running = ''running''"
| "check_status_name Check_passed = ''passed''"
| "check_status_name Check_failed = ''failed''"
| "check_status_name Check_blocked = ''blocked''"
| "check_status_name Check_skipped = ''skipped''"

definition dependencies_of :: "plan_item \<Rightarrow> string list" where
  "dependencies_of item = (case pi_meta item of None \<Rightarrow> [] | Some m \<Rightarrow> pm_dependencies m)"

definition evidence_of :: "plan_item \<Rightarrow> string list" where
  "evidence_of item = (case pi_meta item of None \<Rightarrow> [] | Some m \<Rightarrow> pm_completionEvidenceRefs m)"

definition dependency_failures :: "plan_item list \<Rightarrow> plan_item \<Rightarrow> gate_failure list" where
  "dependency_failures plan item =
     concat (map (\<lambda>dep.
       case map_of (js_map (map (\<lambda>i. (pi_key i, i)) plan)) dep of
         None \<Rightarrow> [failure ''plan_dependency'' (pi_key item) (''Plan dependency '' @ dep @ '' does not exist'')]
       | Some target \<Rightarrow>
           if pi_status item = Plan_done \<and> pi_status target \<noteq> Plan_done
           then [failure ''plan_dependency'' (pi_key item) (''Plan dependency '' @ dep @ '' is '' @ plan_status_name (pi_status target))]
           else []) (dependencies_of item))"

text \<open>The two references accepted although they are not resolved to a source.\<close>

definition accepted_ref :: "work_db \<Rightarrow> gate_view \<Rightarrow> string \<Rightarrow> bool" where
  "accepted_ref s run ref \<longleftrightarrow>
     starts_with ''check:'' ref \<and> list_ex (\<lambda>c. ck_key c = drop 6 ref) (gv_checks run)
     \<or> starts_with ''memory:'' ref
       \<and> list_ex (\<lambda>m. list_ex (\<lambda>i. mi_selected i \<and> ''memory:'' @ mi_sourceId i = ref) (cx_items m))
           (listContextManifests s (gv_id run) 20)"

definition evidence_failures ::
  "(string \<Rightarrow> string) \<Rightarrow> work_db \<Rightarrow> gate_view \<Rightarrow> plan_item \<Rightarrow> store_error + gate_failure list" where
  "evidence_failures sha256 s run item =
     (if evidence_of item = []
      then Inr [failure ''plan_evidence'' (pi_key item) ''Completed required plan item has no completion evidence'']
      else and_then (resolveEvidenceSources sha256 s (gv_id run) (evidence_of item)) (\<lambda>sources.
        Inr (map (\<lambda>ref. failure ''plan_evidence'' (pi_key item) (''Completion evidence '' @ ref @ '' is unavailable for this TaskRun''))
          (filter (\<lambda>ref. ref \<notin> set (map es_sourceRef sources) \<and> \<not> accepted_ref s run ref) (evidence_of item)))))"

definition coverage_failures :: "gate_view \<Rightarrow> plan_item list \<Rightarrow> gate_failure list" where
  "coverage_failures run semanticPlan =
     (let required = js_set (case gv_contract run of None \<Rightarrow> []
                       | Some k \<Rightarrow> map o_id (filter (\<lambda>x. o_timing x = T_current) (k_objectives k)));
          covered = concat (map (\<lambda>i. case pi_meta i of None \<Rightarrow> [] | Some m \<Rightarrow> pm_objectiveIds m) semanticPlan);
          coveredCriteria = concat (map (\<lambda>i. case pi_meta i of None \<Rightarrow> [] | Some m \<Rightarrow> pm_criterionIds m) semanticPlan)
      in map (\<lambda>i. failure ''plan_coverage'' i ''No required plan item covers this current objective'')
           (filter (\<lambda>i. i \<notin> set covered) required)
         @ map (\<lambda>i. failure ''plan_coverage'' i ''No required plan item covers this acceptance criterion'')
             (filter (\<lambda>i. i \<notin> set coveredCriteria) (criterion_ids (gv_contract run))))"

definition semantic_failures ::
  "(string \<Rightarrow> string) \<Rightarrow> work_db \<Rightarrow> gate_view \<Rightarrow> plan_item list \<Rightarrow> store_error + gate_failure list" where
  "semantic_failures sha256 s run semanticPlan =
     and_then (collect_results (map (evidence_failures sha256 s run) (filter (\<lambda>i. pi_status i = Plan_done) semanticPlan)))
       (\<lambda>evidence.
        Inr (map (\<lambda>key. failure ''plan_dependency'' key ''Plan dependency graph contains a cycle'') (cyclicPlanItemKeys (gv_plan run))
             @ concat (map (dependency_failures (gv_plan run)) semanticPlan)
             @ concat evidence
             @ coverage_failures run semanticPlan))"

definition check_failures :: "db \<Rightarrow> gate_view \<Rightarrow> run_check \<Rightarrow> gate_failure list" where
  "check_failures d run check =
     (if ck_status check \<noteq> Check_passed
      then [failure ''check'' (ck_key check) (''Required check is '' @ check_status_name (ck_status check))]
      else if ck_stale check then [failure ''check'' (ck_key check) ''Evidence is stale'']
      else if \<not> trustedCheck d run check
      then [failure ''check'' (ck_key check) ''Evidence is not bound to a successful Bash receipt from the current Attempt'']
      else [])"

definition evaluateGate :: "(string \<Rightarrow> string) \<Rightarrow> gate_view \<Rightarrow> work_db \<Rightarrow> store_error + completion_gate" where
  "evaluateGate sha256 run s =
     (if \<not> gv_gateRequired run \<or> effectiveGateProfile (gv_contract run) = Gate_relaxed
      then Inr \<lparr>cg_passed = True, cg_failures = []\<rparr>
      else
        let requiredPlan = filter pi_required (gv_plan run);
            requiredChecks = filter ck_required (gv_checks run);
            policy = gate_policy (wd_core s) run;
            planRequired = (p_mode policy \<in> set [Read_only_analysis, Workspace_mutation, External_action]);
            semanticPlan = filter (\<lambda>i. pi_meta i \<noteq> None) requiredPlan
        in and_then (if semanticPlan = [] then Inr [] else semantic_failures sha256 s run semanticPlan) (\<lambda>semantic.
           let failures =
                 (if requiredPlan = [] \<and> planRequired then [failure ''plan'' ''plan'' ''No required plan items''] else [])
                 @ map (\<lambda>i. failure ''plan_item'' (pi_key i) (''Required plan item is '' @ plan_status_name (pi_status i)))
                     (filter (\<lambda>i. pi_status i \<noteq> Plan_done) requiredPlan)
                 @ semantic
                 @ concat (map (check_failures (wd_core s) run) requiredChecks)
                 @ (if p_evidencePolicy policy = Ev_trusted_check \<and> requiredChecks = []
                    then [failure ''check'' ''trusted_evidence''
                           ''Change, verify, and release work requires at least one trusted required check'']
                    else [])
           in Inr \<lparr>cg_passed = (failures = []), cg_failures = failures\<rparr>))"

section \<open>The fenced port\<close>

definition withWorkFence ::
  "int \<Rightarrow> execution_fence \<Rightarrow> (execution_scope \<Rightarrow> work_db \<Rightarrow> store_error + 'r \<times> work_db) \<Rightarrow> work_db
   \<Rightarrow> store_error + 'r \<times> work_db" where
  "withWorkFence dbNow context work s = and_then (validate dbNow context (wd_core s)) (\<lambda>scope. work scope s)"

definition fenced_appendTranscript ::
  "int \<Rightarrow> int \<Rightarrow> int \<Rightarrow> execution_fence \<Rightarrow> jsval \<Rightarrow> work_db \<Rightarrow> store_error + int \<times> work_db" where
  "fenced_appendTranscript t t2 dbNow context message =
     withWorkFence dbNow context (\<lambda>scope. appendTranscript t t2 (xs_runId scope) (xs_ordinal scope) message)"

definition fenced_upsertPlanItem ::
  "(string \<Rightarrow> string) \<Rightarrow> int \<Rightarrow> int \<Rightarrow> int \<Rightarrow> execution_fence \<Rightarrow> plan_input \<Rightarrow> work_db \<Rightarrow> store_error + unit \<times> work_db" where
  "fenced_upsertPlanItem sha256 t phaseAt dbNow context item =
     withWorkFence dbNow context (\<lambda>scope. upsertPlanItem sha256 t phaseAt (xs_runId scope) item)"

definition fenced_markChecksStale :: "int \<Rightarrow> int \<Rightarrow> execution_fence \<Rightarrow> work_db \<Rightarrow> store_error + nat \<times> work_db" where
  "fenced_markChecksStale t dbNow context =
     withWorkFence dbNow context (\<lambda>scope s. Inr (markChecksStale t (xs_runId scope) s))"

definition fenced_upsertCheck ::
  "(jsval \<Rightarrow> string) \<Rightarrow> int \<Rightarrow> int \<Rightarrow> execution_fence \<Rightarrow> run_check \<Rightarrow> work_db \<Rightarrow> store_error + unit \<times> work_db" where
  "fenced_upsertCheck digest t dbNow context check =
     withWorkFence dbNow context (\<lambda>scope. upsertCheck digest t (xs_runId scope) check)"

definition fenced_addArtifact ::
  "int \<Rightarrow> int \<Rightarrow> execution_fence \<Rightarrow> artifact \<Rightarrow> work_db \<Rightarrow> store_error + artifact \<times> work_db" where
  "fenced_addArtifact t dbNow context artifact =
     withWorkFence dbNow context (\<lambda>scope. addArtifact t (artifact\<lparr>af_runId := xs_runId scope\<rparr>))"

text \<open>A mutation of a batch, with the clock readings its statements make.\<close>

datatype task_mutation =
    Mut_phase int run_phase
  | Mut_plan int int plan_input
  | Mut_check int run_check
  | Mut_stale int
  | Mut_artifact int artifact

fun apply_mutation ::
  "(string \<Rightarrow> string) \<Rightarrow> (jsval \<Rightarrow> string) \<Rightarrow> string \<Rightarrow> task_mutation \<Rightarrow> work_db \<Rightarrow> store_error + unit \<times> work_db" where
  "apply_mutation sha256 digest runId (Mut_phase t phase) s =
     Inr ((), set_core (\<lambda>d. snd (setRunPhase t runId phase d)) s)"
| "apply_mutation sha256 digest runId (Mut_plan t phaseAt item) s = upsertPlanItem sha256 t phaseAt runId item s"
| "apply_mutation sha256 digest runId (Mut_check t check) s = upsertCheck digest t runId check s"
| "apply_mutation sha256 digest runId (Mut_stale t) s = Inr ((), snd (markChecksStale t runId s))"
| "apply_mutation sha256 digest runId (Mut_artifact t artifact) s =
     and_then (addArtifact t (artifact\<lparr>af_runId := runId\<rparr>) s) (\<lambda>(_, s'). Inr ((), s'))"

fun apply_batch ::
  "(string \<Rightarrow> string) \<Rightarrow> (jsval \<Rightarrow> string) \<Rightarrow> string \<Rightarrow> task_mutation list \<Rightarrow> work_db \<Rightarrow> store_error + unit \<times> work_db" where
  "apply_batch sha256 digest runId [] s = Inr ((), s)"
| "apply_batch sha256 digest runId (m # ms) s =
     and_then (apply_mutation sha256 digest runId m s) (\<lambda>(_, s'). apply_batch sha256 digest runId ms s')"

definition applyTaskRunBatch ::
  "(string \<Rightarrow> string) \<Rightarrow> (jsval \<Rightarrow> string) \<Rightarrow> int \<Rightarrow> execution_fence \<Rightarrow> task_mutation list \<Rightarrow> work_db
   \<Rightarrow> store_error + unit \<times> work_db" where
  "applyTaskRunBatch sha256 digest dbNow context mutations =
     withWorkFence dbNow context (\<lambda>scope. apply_batch sha256 digest (xs_runId scope) mutations)"

end
