(* ===== verification/Gate_Correctness.thy ===== *)
theory Gate_Correctness
  imports Completion_Gate Store_Machine
begin

text \<open>
  Correctness of the plan, check and gate operations: the plans kept by the store stay
  acyclic, the evidence a stored check is bound to is the one the gate trusts, and the gate
  passes exactly the runs that meet its specification.
\<close>

section \<open>Maps built from entries\<close>

lemma map_of_js_map_set: "map_of (js_map_set kv m) = (map_of m)(fst kv \<mapsto> snd kv)"
proof
  fix k
  have other: "k \<noteq> fst kv \<Longrightarrow> map_of (map (\<lambda>e. if fst e = fst kv then kv else e) m) k = map_of m k"
    by (induction m) auto
  have own: "fst kv \<in> fst ` set m \<Longrightarrow> map_of (map (\<lambda>e. if fst e = fst kv then kv else e) m) (fst kv) = Some (snd kv)"
    by (induction m) auto
  have "map_of (m @ [kv]) k = (if k = fst kv then Some (snd kv) else map_of m k)" if "fst kv \<notin> fst ` set m"
    using that by (induction m) auto
  then show "map_of (js_map_set kv m) k = ((map_of m)(fst kv \<mapsto> snd kv)) k"
    using other own by (auto simp: js_map_set_def)
qed

lemma map_of_js_map: "map_of (js_map kvs) = map_of (rev kvs)"
proof -
  have "map_of (fold js_map_set kvs m) = map_of m ++ map_of (rev kvs)" for m
    by (induction kvs arbitrary: m) (auto simp: map_of_js_map_set map_add_def fun_eq_iff split: option.splits)
  from this [of "[]"] show ?thesis by (simp add: js_map_def)
qed

lemma map_of_js_map_distinct: "distinct (map fst kvs) \<Longrightarrow> map_of (js_map kvs) = map_of kvs"
  by (simp add: map_of_js_map map_of_inject_set rev_map [symmetric])

section \<open>Plans stay acyclic\<close>

definition plan_entries :: "plan_item list \<Rightarrow> (string \<times> string list) list" where
  "plan_entries plan = List.map_filter (\<lambda>item. map_option (\<lambda>m. (pi_key item, pm_dependencies m)) (pi_meta item)) plan"

lemma plan_entries_simps [simp]:
  "plan_entries [] = []"
  "plan_entries (i # p) = (case pi_meta i of None \<Rightarrow> [] | Some m \<Rightarrow> [(pi_key i, pm_dependencies m)]) @ plan_entries p"
  by (auto simp: plan_entries_def map_filter_simps split: option.splits)

lemma set_plan_entries: "set (plan_entries p) = {(pi_key i, pm_dependencies m) |i m. i \<in> set p \<and> pi_meta i = Some m}"
  by (induction p) (fastforce split: option.splits)+

lemma plan_entries_keys: "distinct (map pi_key p) \<Longrightarrow> distinct (map fst (plan_entries p))"
  by (induction p) (auto simp: set_plan_entries image_iff split: option.splits)

lemma no_cycle_iff: "cyclicPlanItemKeys p = [] \<longleftrightarrow> acyclic (depends (dependency_map p))"
proof -
  have "sort xs = [] \<longleftrightarrow> xs = []" for xs :: "string list" by (metis set_empty set_sort)
  then show ?thesis by (simp add: cyclicPlanItemKeys_def Let_def search_exact(1))
qed

lemma plan_graph_set:
  assumes "set p = set q" and "distinct (map pi_key p)" and "distinct (map pi_key q)"
  shows "cyclicPlanItemKeys p = [] \<longleftrightarrow> cyclicPlanItemKeys q = []"
proof -
  have m: "map_of (dependency_map x) = map_of (plan_entries x)" if "distinct (map pi_key x)" for x
    unfolding dependency_map_def plan_entries_def [symmetric]
    by (rule map_of_js_map_distinct [OF plan_entries_keys [OF that]])
  have "map_of (plan_entries p) = map_of (plan_entries q)"
    using assms by (subst map_of_inject_set) (auto simp: plan_entries_keys set_plan_entries)
  then have "depends (dependency_map p) = depends (dependency_map q)"
    by (simp add: depends_def followed_def m assms)
  then show ?thesis by (simp add: no_cycle_iff)
qed

definition plan_id :: "string \<times> plan_item \<Rightarrow> string \<times> string" where
  "plan_id row = (fst row, pi_key (snd row))"

definition plan_inv :: "work_db \<Rightarrow> bool" where
  "plan_inv s \<longleftrightarrow> distinct (map plan_id (wd_plan s)) \<and> (\<forall>runId. cyclicPlanItemKeys (plan_of s runId) = [])"

lemma set_plan_of: "set (plan_of s runId) = {i. (runId, i) \<in> set (wd_plan s)}"
  by (auto simp: plan_of_def image_iff)

lemma plan_of_keys: "distinct (map plan_id (wd_plan s)) \<Longrightarrow> distinct (map pi_key (plan_of s runId))"
proof -
  assume d: "distinct (map plan_id (wd_plan s))"
  let ?rows = "filter (\<lambda>row. fst row = runId) (wd_plan s)"
  have "distinct (map plan_id ?rows)" using d by (simp add: distinct_map inj_on_def)
  then have "distinct (map (\<lambda>row. pi_key (snd row)) ?rows)"
    by (auto simp: distinct_map inj_on_def plan_id_def)
  then have "distinct (map snd ?rows)" "inj_on pi_key (set (map snd ?rows))"
    by (auto simp: distinct_map inj_on_def)
  then show ?thesis by (simp add: plan_of_def distinct_map del: set_map)
qed

text \<open>What writing an item does to the rows.\<close>

lemma put_plan_rows:
  assumes "put_plan runId item s = Inr s'" and "distinct (map plan_id (wd_plan s))"
  shows "distinct (map plan_id (wd_plan s'))"
    and "set (wd_plan s') = insert (runId, item) {row \<in> set (wd_plan s). plan_id row \<noteq> (runId, pi_key item)}"
    and "wd_core s' = wd_core s"
proof -
  let ?P = "\<lambda>row. fst row = runId \<and> pi_key (snd row) = pi_key item"
  have P: "?P row \<longleftrightarrow> plan_id row = (runId, pi_key item)" for row by (auto simp: plan_id_def)
  have absent: "find_plan s runId (pi_key item) = None \<longleftrightarrow> (runId, pi_key item) \<notin> plan_id ` set (wd_plan s)"
    by (auto simp: find_plan_def P find_None_iff image_iff) blast
  have new: "plan_id (runId, item) = (runId, pi_key item)" by (simp add: plan_id_def)
  have keep: "map plan_id (upd ?P (\<lambda>_. (runId, item)) t) = map plan_id t" for t
    by (induction t) (auto simp: plan_id_def)
  have rows: "wd_plan s' = (if find_plan s runId (pi_key item) = None then wd_plan s @ [(runId, item)]
                else upd ?P (\<lambda>_. (runId, item)) (wd_plan s))"
    using assms(1) by (auto simp: put_plan_def)
  show "wd_core s' = wd_core s" using assms(1) by (auto simp: put_plan_def)
  show "distinct (map plan_id (wd_plan s'))"
    using assms(2) absent new by (auto simp: rows keep)
  show "set (wd_plan s') = insert (runId, item) {row \<in> set (wd_plan s). plan_id row \<noteq> (runId, pi_key item)}"
    using absent by (auto simp: rows set_upd P image_iff)
qed

lemma put_plan_inv:
  assumes put: "put_plan runId item s = Inr s'" and acyc: "assertProspectivePlanAcyclic runId item s = Inr ()"
    and inv: "plan_inv s"
  shows "plan_inv s'"
proof -
  have keys: "distinct (map plan_id (wd_plan s))" using inv by (simp add: plan_inv_def)
  note rows = put_plan_rows [OF put keys]
  have "cyclicPlanItemKeys (plan_of s' r) = []" for r
  proof (cases "r = runId")
    case True
    let ?others = "map snd (filter (\<lambda>row. fst row = runId \<and> pi_key (snd row) \<noteq> pi_key item) (wd_plan s))"
    have same: "set (plan_of s' r) = set (?others @ [item])"
      unfolding set_plan_of rows(2) by (auto simp: True plan_id_def image_iff)
    have sub: "set ?others \<subseteq> set (plan_of s runId)" by (auto simp: set_plan_of)
    have "distinct (map pi_key ?others)"
    proof -
      have "distinct (map plan_id (filter (\<lambda>row. fst row = runId \<and> pi_key (snd row) \<noteq> pi_key item) (wd_plan s)))"
        using keys by (simp add: distinct_map inj_on_def)
      then show ?thesis by (auto simp: distinct_map inj_on_def plan_id_def)
    qed
    then have "distinct (map pi_key (?others @ [item]))" by auto
    from plan_graph_set [OF same plan_of_keys [OF rows(1)] this] acyc
    show ?thesis by (simp add: assertProspectivePlanAcyclic_def Let_def)
  next
    case False
    have same: "set (plan_of s' r) = set (plan_of s r)"
      unfolding set_plan_of rows(2) using False by (auto simp: plan_id_def)
    from plan_graph_set [OF same plan_of_keys [OF rows(1)] plan_of_keys [OF keys]] inv
    show ?thesis by (simp add: plan_inv_def)
  qed
  with rows(1) show ?thesis by (simp add: plan_inv_def)
qed

lemma plan_inv_cong: "wd_plan s' = wd_plan s \<Longrightarrow> plan_inv s' = plan_inv s"
  by (simp add: plan_inv_def plan_of_def)

lemma set_core_simps [simp]:
  "wd_core (set_core f s) = f (wd_core s)"
  "wd_plan (set_core f s) = wd_plan s"
  "wd_checks (set_core f s) = wd_checks s"
  "wd_revisions (set_core f s) = wd_revisions s"
  "wd_transcript (set_core f s) = wd_transcript s"
  "wd_artifacts (set_core f s) = wd_artifacts s"
  "wd_manifests (set_core f s) = wd_manifests s"
  "wd_sources (set_core f s) = wd_sources s"
  by (simp_all add: set_core_def)

lemma add_revision_plan: "add_revision sha256 t runId item prior snap m s = Inr s' \<Longrightarrow> wd_plan s' = wd_plan s \<and> wd_core s' = wd_core s"
  by (auto simp: add_revision_def Let_def)

lemma upsertPlanItem_effect:
  assumes "upsertPlanItem sha256 t phaseAt runId item s = Inr (r, s')"
  obtains snapshot s1 where "assertProspectivePlanAcyclic runId snapshot s = Inr ()" and "put_plan runId snapshot s = Inr s1"
    and "wd_plan s' = wd_plan s1" and "pi_key snapshot = in_key item"
    and "wd_core s' = snd (advanceRunPhase phaseAt runId (if in_status item = Plan_pending then Ph_plan else Ph_implement) (wd_core s))"
proof -
  let ?snap = "\<lambda>md. \<lparr>pi_key = in_key item, pi_title = in_title item, pi_status = in_status item,
       pi_required = in_required item, pi_position = in_position item, pi_meta = md\<rparr>"
  from assms obtain md snapJ prior s1 s2 where
    "assertProspectivePlanAcyclic runId (?snap md) s = Inr ()" and put: "put_plan runId (?snap md) s = Inr s1"
    and rev: "(case md of None \<Rightarrow> Inr s1 | Some m \<Rightarrow> if prior \<noteq> Some snapJ
            then add_revision sha256 t runId item (find_plan s runId (in_key item)) snapJ m s1 else Inr s1) = Inr s2"
    and s': "s' = set_core (\<lambda>d. snd (advanceRunPhase phaseAt runId (if in_status item = Plan_pending then Ph_plan else Ph_implement) d)) s2"
    by (auto simp: upsertPlanItem_def Let_def)
  moreover have "wd_plan s2 = wd_plan s1 \<and> wd_core s2 = wd_core s1"
    using rev by (auto split: option.splits if_splits dest: add_revision_plan)
  moreover have "wd_core s1 = wd_core s" using put by (auto simp: put_plan_def)
  ultimately show thesis by (intro that [of "?snap md" s1]) simp_all
qed

lemma upsertPlanItem_plan_inv: "plan_inv s \<Longrightarrow> upsertPlanItem sha256 t phaseAt runId item s = Inr (r, s') \<Longrightarrow> plan_inv s'"
  by (erule upsertPlanItem_effect) (metis plan_inv_cong put_plan_inv)

section \<open>The invariant of the work tables\<close>

text \<open>Numbers handed out as \<open>MAX + 1\<close> are consecutive.\<close>

definition numbered :: "int list \<Rightarrow> bool" where
  "numbered ns \<longleftrightarrow> ns = map int [1..<Suc (length ns)]"

lemma numbered_Nil [simp]: "numbered []"
  by (simp add: numbered_def)

lemma numbered_max: "numbered ns \<Longrightarrow> fold max ns 0 = int (length ns)"
proof -
  have "fold max (map int [1..<Suc n]) 0 = int n" for n by (induction n) simp_all
  then show "numbered ns \<Longrightarrow> fold max ns 0 = int (length ns)" by (metis numbered_def)
qed

lemma numbered_snoc: "numbered ns \<Longrightarrow> numbered (ns @ [fold max ns 0 + 1])"
  by (simp add: numbered_max) (simp add: numbered_def)

definition check_id :: "string \<times> run_check \<Rightarrow> string \<times> string" where
  "check_id row = (fst row, ck_key (snd row))"

definition revisions_of :: "work_db \<Rightarrow> string \<Rightarrow> string \<Rightarrow> int list" where
  "revisions_of s runId key = map pr_revision (filter (\<lambda>r. pr_runId r = runId \<and> pr_itemKey r = key) (wd_revisions s))"

definition transcript_of :: "work_db \<Rightarrow> string \<Rightarrow> int list" where
  "transcript_of s runId = map te_seq (filter (\<lambda>e. te_runId e = runId) (wd_transcript s))"

definition work_inv :: "work_db \<Rightarrow> bool" where
  "work_inv s \<longleftrightarrow>
     store_inv (wd_core s) \<and> plan_inv s \<and> distinct (map check_id (wd_checks s)) \<and> distinct (map af_id (wd_artifacts s))
     \<and> (\<forall>runId key. numbered (revisions_of s runId key)) \<and> (\<forall>runId. numbered (transcript_of s runId))"

text \<open>An operation on one of the tables keeps what the others promise.\<close>

lemma work_inv_core: "work_inv s \<Longrightarrow> store_inv d \<Longrightarrow> work_inv (s\<lparr>wd_core := d\<rparr>)"
  by (simp add: work_inv_def plan_inv_def plan_of_def revisions_of_def transcript_of_def)

lemma set_core_inv: "work_inv s \<Longrightarrow> (store_inv (wd_core s) \<Longrightarrow> store_inv (f (wd_core s))) \<Longrightarrow> work_inv (set_core f s)"
  unfolding set_core_def by (rule work_inv_core) (simp_all add: work_inv_def)

lemma touch_run_inv: "store_inv d \<Longrightarrow> store_inv (set_run runId P (\<lambda>r. r\<lparr>r_updatedAt := t\<rparr>) d)"
  unfolding set_run_def by (rule store_inv_upd_runs) simp_all

lemma revisions_of_snoc:
  "revisions_of (s\<lparr>wd_revisions := wd_revisions s @ [r]\<rparr>) runId key =
     revisions_of s runId key @ (if pr_runId r = runId \<and> pr_itemKey r = key then [pr_revision r] else [])"
  by (simp add: revisions_of_def)

lemma put_plan_frame:
  "put_plan runId item s = Inr s' \<Longrightarrow>
     wd_revisions s' = wd_revisions s \<and> wd_checks s' = wd_checks s \<and> wd_artifacts s' = wd_artifacts s
     \<and> wd_transcript s' = wd_transcript s \<and> wd_core s' = wd_core s"
  by (auto simp: put_plan_def)

lemma put_plan_work_inv:
  assumes "put_plan runId item s = Inr s'" and "assertProspectivePlanAcyclic runId item s = Inr ()" and "work_inv s"
  shows "work_inv s'"
  using put_plan_inv [OF assms(1,2)] put_plan_frame [OF assms(1)] assms(3)
  by (simp add: work_inv_def revisions_of_def transcript_of_def)

lemma add_revision_inv: "add_revision sha256 t runId item prior snap m s = Inr s' \<Longrightarrow> work_inv s \<Longrightarrow> work_inv s'"
proof -
  assume "add_revision sha256 t runId item prior snap m s = Inr s'" and inv: "work_inv s"
  then obtain r where s': "s' = s\<lparr>wd_revisions := wd_revisions s @ [r]\<rparr>" and r: "pr_runId r = runId" "pr_itemKey r = in_key item"
      "pr_revision r = fold max (revisions_of s runId (in_key item)) 0 + 1"
    by (auto simp: add_revision_def Let_def revisions_of_def)
  show "work_inv s'"
    using inv numbered_snoc r unfolding work_inv_def s' revisions_of_snoc
    by (auto simp: plan_inv_def plan_of_def transcript_of_def)
qed

lemma upsertPlanItem_inv:
  assumes "upsertPlanItem sha256 t phaseAt runId item s = Inr (r, s')" and inv: "work_inv s"
  shows "work_inv s'"
proof -
  from assms(1) obtain snapshot md snapJ prior s1 s2 where
    acyc: "assertProspectivePlanAcyclic runId snapshot s = Inr ()" and put: "put_plan runId snapshot s = Inr s1"
    and rev: "(case md of None \<Rightarrow> Inr s1 | Some m \<Rightarrow> if prior \<noteq> Some snapJ
            then add_revision sha256 t runId item (find_plan s runId (in_key item)) snapJ m s1 else Inr s1) = Inr s2"
    and s': "s' = set_core (\<lambda>d. snd (advanceRunPhase phaseAt runId (if in_status item = Plan_pending then Ph_plan else Ph_implement) d)) s2"
    by (auto simp: upsertPlanItem_def Let_def)
  have "work_inv s1" by (rule put_plan_work_inv [OF put acyc inv])
  then have "work_inv s2" using rev by (auto split: option.splits if_splits dest: add_revision_inv)
  then show ?thesis unfolding s' by (rule set_core_inv) (rule advanceRunPhase_inv)
qed

lemma work_inv_checks:
  "work_inv s \<Longrightarrow> distinct (map check_id cs) \<Longrightarrow> work_inv (s\<lparr>wd_checks := cs\<rparr>)"
  by (simp add: work_inv_def plan_inv_def plan_of_def revisions_of_def transcript_of_def)

lemma upsertCheck_effect:
  assumes "upsertCheck digest t runId check s = Inr (r, s')"
  obtains bound cs where "bindTrustedCheckEvidence digest runId check s = Inr bound"
    and "s' = set_core (\<lambda>d. snd (advanceRunPhase t runId (if ck_status bound = Check_pending then Ph_implement else Ph_verify) d))
           (s\<lparr>wd_checks := cs\<rparr>)"
    and "cs = (if find_check s runId (ck_key bound) = None then wd_checks s @ [(runId, bound)]
               else upd (\<lambda>row. fst row = runId \<and> ck_key (snd row) = ck_key bound) (\<lambda>_. (runId, bound)) (wd_checks s))"
  using assms by (auto simp: upsertCheck_def Let_def)

lemma upsertCheck_inv: "upsertCheck digest t runId check s = Inr (r, s') \<Longrightarrow> work_inv s \<Longrightarrow> work_inv s'"
proof (erule upsertCheck_effect)
  fix bound cs
  assume inv: "work_inv s" and s': "s' = set_core (\<lambda>d. snd (advanceRunPhase t runId
        (if ck_status bound = Check_pending then Ph_implement else Ph_verify) d)) (s\<lparr>wd_checks := cs\<rparr>)"
    and cs: "cs = (if find_check s runId (ck_key bound) = None then wd_checks s @ [(runId, bound)]
               else upd (\<lambda>row. fst row = runId \<and> ck_key (snd row) = ck_key bound) (\<lambda>_. (runId, bound)) (wd_checks s))"
  have keep: "map check_id (upd (\<lambda>row. fst row = runId \<and> ck_key (snd row) = ck_key bound) (\<lambda>_. (runId, bound)) rows)
      = map check_id rows" for rows by (induction rows) (auto simp: check_id_def)
  have "distinct (map check_id (wd_checks s))" using inv by (simp add: work_inv_def)
  then have "distinct (map check_id cs)"
    by (auto simp: cs keep find_check_def find_None_iff check_id_def image_iff)
  then show "work_inv s'" unfolding s' using inv by (intro set_core_inv work_inv_checks advanceRunPhase_inv) simp_all
qed

lemma markChecksStale_inv: "work_inv s \<Longrightarrow> work_inv (snd (markChecksStale t runId s))"
proof -
  assume inv: "work_inv s"
  let ?P = "\<lambda>row. fst row = runId \<and> ck_status (snd row) = Check_passed"
  have "map check_id (upd ?P (\<lambda>row. (fst row, (snd row)\<lparr>ck_stale := True\<rparr>)) (wd_checks s)) = map check_id (wd_checks s)"
    by (rule map_upd) (simp add: check_id_def)
  then have "work_inv (s\<lparr>wd_checks := upd ?P (\<lambda>row. (fst row, (snd row)\<lparr>ck_stale := True\<rparr>)) (wd_checks s)\<rparr>)"
    using inv by (intro work_inv_checks) (simp_all add: work_inv_def)
  then show ?thesis by (auto simp: markChecksStale_def Let_def intro: set_core_inv touch_run_inv)
qed

lemma addArtifact_inv: "addArtifact t artifact s = Inr (r, s') \<Longrightarrow> work_inv s \<Longrightarrow> work_inv s'"
  by (auto simp: addArtifact_def Let_def work_inv_def plan_inv_def plan_of_def revisions_of_def transcript_of_def list_ex_iff) blast

lemma store_inv_transcript: "store_inv d \<Longrightarrow> store_inv (d\<lparr>db_transcript := ts\<rparr>)"
  by (rule store_inv_rows [where F = "\<lambda>r. r"]) simp_all

lemma appendTranscript_inv:
  assumes "appendTranscript t t2 runId attempt message s = Inr (seq, s')" and inv: "work_inv s"
  shows "work_inv s'"
proof -
  from assms(1) obtain role where role: "message_role message = Some role" by (auto simp: appendTranscript_def)
  let ?e = "\<lparr>te_runId = runId, te_seq = seq, te_attempt = attempt, te_role = role, te_message = message, te_createdAt = t\<rparr>"
  let ?s1 = "set_core (\<lambda>d. d\<lparr>db_transcript := db_transcript d @ [(runId, seq)]\<rparr>) (s\<lparr>wd_transcript := wd_transcript s @ [?e]\<rparr>)"
  have seq: "seq = fold max (transcript_of s runId) 0 + 1"
    and s': "s' = (if role = ''assistant'' then set_core (set_run runId (\<lambda>_. True) (\<lambda>r. r\<lparr>r_updatedAt := t2\<rparr>)) ?s1 else ?s1)"
    using assms(1) role by (auto simp: appendTranscript_def last_transcript_seq_def transcript_of_def Let_def)
  have snoc: "transcript_of (s\<lparr>wd_transcript := wd_transcript s @ [?e]\<rparr>) x = transcript_of s x @ (if x = runId then [seq] else [])" for x
    by (simp add: transcript_of_def)
  have "work_inv (s\<lparr>wd_transcript := wd_transcript s @ [?e]\<rparr>)"
    using inv numbered_snoc unfolding work_inv_def snoc by (auto simp: plan_inv_def plan_of_def revisions_of_def seq)
  then have "work_inv ?s1" by (rule set_core_inv) (rule store_inv_transcript)
  then show ?thesis unfolding s' by (auto intro: set_core_inv touch_run_inv)
qed

lemma recordContextManifest_inv:
  "recordContextManifest sha256 manifest sources s = Inr (m, s') \<Longrightarrow> work_inv s \<Longrightarrow> work_inv s'"
  by (auto simp: recordContextManifest_def Let_def work_inv_def plan_inv_def plan_of_def revisions_of_def transcript_of_def)

lemma apply_mutation_inv: "apply_mutation sha256 digest runId m s = Inr (r, s') \<Longrightarrow> work_inv s \<Longrightarrow> work_inv s'"
  by (cases m) (auto intro: set_core_inv setRunPhase_inv upsertPlanItem_inv upsertCheck_inv markChecksStale_inv addArtifact_inv)

lemma apply_batch_inv: "apply_batch sha256 digest runId ms s = Inr (r, s') \<Longrightarrow> work_inv s \<Longrightarrow> work_inv s'"
  by (induction ms arbitrary: s) (auto dest: apply_mutation_inv)

section \<open>The machine of core and work tables\<close>

datatype evidence_command =
    E_transcript int int int execution_fence jsval
  | E_plan "string \<Rightarrow> string" int int int execution_fence plan_input
  | E_stale int int execution_fence
  | E_check "jsval \<Rightarrow> string" int int execution_fence run_check
  | E_artifact int int execution_fence artifact
  | E_batch "string \<Rightarrow> string" "jsval \<Rightarrow> string" int execution_fence "task_mutation list"
  | E_unfenced "string \<Rightarrow> string" "jsval \<Rightarrow> string" string task_mutation
  | E_manifest "string \<Rightarrow> string" context_manifest "evidence_source list"
  | E_core store_command

definition forget_work :: "store_error + 'r \<times> work_db \<Rightarrow> store_error + unit \<times> work_db" where
  "forget_work res = and_then res (\<lambda>(_, s). Inr ((), s))"

fun exec_evidence :: "evidence_command \<Rightarrow> work_db \<Rightarrow> store_error + unit \<times> work_db" where
  "exec_evidence (E_transcript t t2 dbNow ctx msg) s = forget_work (fenced_appendTranscript t t2 dbNow ctx msg s)"
| "exec_evidence (E_plan sha t p dbNow ctx item) s = fenced_upsertPlanItem sha t p dbNow ctx item s"
| "exec_evidence (E_stale t dbNow ctx) s = forget_work (fenced_markChecksStale t dbNow ctx s)"
| "exec_evidence (E_check digest t dbNow ctx check) s = fenced_upsertCheck digest t dbNow ctx check s"
| "exec_evidence (E_artifact t dbNow ctx a) s = forget_work (fenced_addArtifact t dbNow ctx a s)"
| "exec_evidence (E_batch sha digest dbNow ctx ms) s = applyTaskRunBatch sha digest dbNow ctx ms s"
| "exec_evidence (E_unfenced sha digest runId m) s = apply_mutation sha digest runId m s"
| "exec_evidence (E_manifest sha m sources) s = forget_work (recordContextManifest sha m sources s)"
| "exec_evidence (E_core c) s = and_then (exec_command c (wd_core s)) (\<lambda>(_, d). Inr ((), s\<lparr>wd_core := d\<rparr>))"

lemma forget_work_Inr [simp]: "forget_work res = Inr (u, s') \<longleftrightarrow> (\<exists>r. res = Inr (r, s'))"
  by (auto simp: forget_work_def)

lemma withWorkFence_Inr [simp]:
  "withWorkFence dbNow ctx work s = Inr (r, s') \<longleftrightarrow>
   (\<exists>scope. validate dbNow ctx (wd_core s) = Inr scope \<and> work scope s = Inr (r, s'))"
  by (simp add: withWorkFence_def)

lemmas fenced_work_defs = fenced_appendTranscript_def fenced_upsertPlanItem_def fenced_markChecksStale_def
  fenced_upsertCheck_def fenced_addArtifact_def applyTaskRunBatch_def

lemma exec_evidence_inv: "work_inv s \<Longrightarrow> exec_evidence c s = Inr (u, s') \<Longrightarrow> work_inv s'"
proof (cases c)
  case (E_core k)
  assume inv: "work_inv s" and run: "exec_evidence c s = Inr (u, s')"
  then obtain x d where "exec_command k (wd_core s) = Inr (x, d)" and s': "s' = s\<lparr>wd_core := d\<rparr>"
    by (auto simp: E_core)
  then have "store_inv d" using inv by (auto simp: work_inv_def dest: store_machine.exec_inv)
  then show "work_inv s'" using inv unfolding s' by (intro work_inv_core)
qed (auto simp: fenced_work_defs dest: appendTranscript_inv upsertPlanItem_inv upsertCheck_inv addArtifact_inv
    apply_batch_inv apply_mutation_inv recordContextManifest_inv, metis markChecksStale_inv snd_conv)

interpretation evidence_machine: invariant_machine exec_evidence work_inv
  by unfold_locales (rule exec_evidence_inv)

text \<open>The fence in front of the work tables is the one in front of the core tables.\<close>

definition holds_work_lease :: "int \<times> execution_fence \<Rightarrow> work_db \<Rightarrow> bool" where
  "holds_work_lease c s = ok (validate (fst c) (snd c) (wd_core s))"

definition enter_work_fence ::
  "int \<times> execution_fence \<Rightarrow> (work_db \<Rightarrow> store_error + 'r \<times> work_db) \<Rightarrow> work_db \<Rightarrow> store_error + 'r \<times> work_db" where
  "enter_work_fence c work = withWorkFence (fst c) (snd c) (\<lambda>_. work)"

interpretation work_port: guarded_port holds_work_lease enter_work_fence
proof
  fix c :: "int \<times> execution_fence" and s and work :: "work_db \<Rightarrow> store_error + 'r \<times> work_db"
  assume "\<not> holds_work_lease c s"
  then show "\<exists>e. enter_work_fence c work s = Inl e"
    by (cases "validate (fst c) (snd c) (wd_core s)")
      (auto simp: holds_work_lease_def enter_work_fence_def withWorkFence_def and_then_def)
next
  fix c :: "int \<times> execution_fence" and s s' and r :: 'r and work
  assume "enter_work_fence c work s = Inr (r, s')"
  then show "work s = Inr (r, s')" by (auto simp: enter_work_fence_def)
qed

section \<open>A check bound to a receipt is the check the gate trusts\<close>

lemma js_trim_idem [simp]: "js_trim (js_trim s) = js_trim s"
proof -
  define a where "a = dropWhile js_space s"
  define b where "b = js_trim s"
  have b: "b = rev (dropWhile js_space (rev a))" by (simp add: a_def b_def js_trim_def)
  obtain e where pre: "a = b @ e"
    using takeWhile_dropWhile_id [of js_space "rev a"] unfolding b by (metis rev_append rev_rev_ident)
  have "dropWhile js_space b = b"
  proof (cases b)
    case (Cons c cs)
    then have "\<not> js_space c" using pre hd_dropWhile [of js_space s] by (auto simp: a_def)
    then show ?thesis using Cons by simp
  qed simp
  moreover have "dropWhile js_space (rev b) = rev b" by (simp add: b dropWhile_idem)
  ultimately have "js_trim b = b" by (simp add: js_trim_def)
  then show ?thesis by (simp add: b_def)
qed

lemma set_js_set [simp]: "set (js_set xs) = set xs"
  by (simp add: js_set_def)

lemma js_set_Nil_iff [simp]: "js_set xs = [] \<longleftrightarrow> xs = []"
  by (simp add: js_set_def)

lemma distinct_map_sort_key: "distinct (map f (sort_key g xs)) = distinct (map f xs)"
  by (simp add: distinct_map)

lemma operationById_wanted:
  assumes op: "getOperation d source = Some x" and run: "op_runId x = gv_id view" and ids: "distinct (map op_id (db_operations d))"
    and check: "c \<in> set (gv_checks view)" "ck_required c" "ck_sourceOperationId c = Some source"
    and source: "js_trim source = source" "source \<noteq> ''''"
  shows "operationById d view source = Some x"
proof -
  have x: "x \<in> set (db_operations d)" "op_id x = source" using find_SomeD [OF op [unfolded getOperation_def]] by auto
  define refs where "refs = List.map_filter (\<lambda>c. case ck_sourceOperationId c of None \<Rightarrow> None | Some i \<Rightarrow> if i = '''' then None else Some i)
         (filter ck_required (gv_checks view))"
  have "source \<in> set refs" using check source by (force simp: refs_def map_filter_def image_iff)
  then have wanted: "source \<in> set (js_set (filter (\<lambda>i. i \<noteq> '''') (map js_trim refs)))" using source by force
  define rows where "rows = listOperations d (gv_id view) None refs"
  have "x \<in> set rows" using x run wanted by (auto simp: rows_def listOperations_def Let_def)
  moreover have "distinct (map op_id rows)"
    using ids by (auto simp: rows_def listOperations_def Let_def distinct_map inj_on_def)
  ultimately have "map_of (map (\<lambda>x. (op_id x, x)) rows) source = Some x"
    using x(2) by (intro map_of_is_SomeI) (force simp: comp_def)+
  moreover have "map_of (js_map (map (\<lambda>x. (op_id x, x)) rows)) = map_of (map (\<lambda>x. (op_id x, x)) rows)"
    using \<open>distinct (map op_id rows)\<close> by (intro map_of_js_map_distinct) (simp add: comp_def)
  ultimately show ?thesis by (simp add: operationById_def rows_def refs_def)
qed

lemma bound_evidence_text [simp]: "js_trim (bound_evidence digest source command x) \<noteq> ''''"
proof -
  have brace: "js_trim (CHR ''{'' # s) \<noteq> ''''" for s by (simp add: js_trim_def js_space_def)
  have "\<exists>s. bound_evidence digest source command x = CHR ''{'' # s" by (simp add: bound_evidence_def Let_def)
  then show ?thesis using brace by auto
qed

text \<open>The two outcomes of binding.\<close>

lemma bind_unsourced:
  "ck_status check \<noteq> Check_passed \<or> (case ck_sourceOperationId check of None \<Rightarrow> '''' | Some i \<Rightarrow> js_trim i) = ''''
   \<Longrightarrow> bindTrustedCheckEvidence digest runId check s = Inr (check\<lparr>ck_sourceOperationId := None, ck_observedAt := None\<rparr>)"
  by (simp add: bindTrustedCheckEvidence_def Let_def)

lemma bind_sourced:
  assumes bind: "bindTrustedCheckEvidence digest runId check s = Inr bound"
    and check: "ck_status check = Check_passed" "ck_sourceOperationId check = Some i" "js_trim i \<noteq> ''''"
  obtains run x c where "get_run (wd_core s) runId = Some run" and "getOperation (wd_core s) (js_trim i) = Some x"
    and "op_runId x = runId" and "op_attempt x = r_attempt run" and "op_type x = ''tool.bash''" and "op_status x = ''succeeded''"
    and "completed x" and "op_result x \<noteq> None" and "receipt_command x = Some c" and "js_trim c \<noteq> ''''"
    and "js_zero (js_field (receipt_details x) ''exitCode'')"
    and "bound = check\<lparr>ck_command := js_trim c, ck_evidence := bound_evidence digest (js_trim i) (js_trim c) x,
                       ck_stale := False, ck_sourceOperationId := Some (js_trim i), ck_observedAt := op_completedAt x\<rparr>"
proof -
  from bind check obtain run x where *: "get_run (wd_core s) runId = Some run" "getOperation (wd_core s) (js_trim i) = Some x"
    "op_runId x = runId" "op_attempt x = r_attempt run" "op_type x = ''tool.bash''" "op_status x = ''succeeded''"
    "completed x" "op_result x \<noteq> None" "js_zero (js_field (receipt_details x) ''exitCode'')"
    and cmd: "(case receipt_command x of None \<Rightarrow> '''' | Some c \<Rightarrow> js_trim c) \<noteq> ''''"
    and b: "bound = check\<lparr>ck_command := (case receipt_command x of None \<Rightarrow> '''' | Some c \<Rightarrow> js_trim c),
              ck_evidence := bound_evidence digest (js_trim i) (case receipt_command x of None \<Rightarrow> '''' | Some c \<Rightarrow> js_trim c) x,
              ck_stale := False, ck_sourceOperationId := Some (js_trim i), ck_observedAt := op_completedAt x\<rparr>"
    by (auto simp: bindTrustedCheckEvidence_def Let_def)
  from cmd obtain c where "receipt_command x = Some c" by (cases "receipt_command x") auto
  with * cmd b show thesis by (intro that [of run x c]) simp_all
qed

lemma advanceRunPhase_frame:
  "db_operations (snd (advanceRunPhase t runId ph d)) = db_operations d"
  "get_run (snd (advanceRunPhase t runId ph d)) rid =
     map_option (\<lambda>r. if r_id r = runId \<and> r_status r = Running \<and> phase_rank (r_phase r) < phase_rank ph
                     then r\<lparr>r_phase := ph, r_updatedAt := t\<rparr> else r) (get_run d rid)"
  by (simp_all add: advanceRunPhase_def Let_def set_run_def get_run_def table_simps)

lemma upsertCheck_stores:
  assumes up: "upsertCheck digest t runId check s = Inr (u, s')" and view: "completion_view s' runId = Some view"
  obtains bound run where "bindTrustedCheckEvidence digest runId check s = Inr bound" and "bound \<in> set (gv_checks view)"
    and "get_run (wd_core s) runId = Some run" and "gv_attempt view = r_attempt run" and "gv_id view = runId"
    and "db_operations (wd_core s') = db_operations (wd_core s)"
  using up
proof (rule upsertCheck_effect)
  fix bound cs
  assume bind: "bindTrustedCheckEvidence digest runId check s = Inr bound"
    and s': "s' = set_core (\<lambda>d. snd (advanceRunPhase t runId (if ck_status bound = Check_pending then Ph_implement else Ph_verify) d))
           (s\<lparr>wd_checks := cs\<rparr>)"
    and cs: "cs = (if find_check s runId (ck_key bound) = None then wd_checks s @ [(runId, bound)]
               else upd (\<lambda>row. fst row = runId \<and> ck_key (snd row) = ck_key bound) (\<lambda>_. (runId, bound)) (wd_checks s))"
  have stored: "(runId, bound) \<in> set cs"
  proof (cases "find_check s runId (ck_key bound)")
    case (Some c)
    then obtain row where "row \<in> set (wd_checks s)" "fst row = runId \<and> ck_key (snd row) = ck_key bound"
      by (auto simp: find_check_def dest: find_SomeD)
    then show ?thesis using Some by (force simp: cs set_upd image_iff)
  qed (simp add: cs)
  obtain run where run: "get_run (wd_core s) runId = Some run" and v: "gv_attempt view = r_attempt run" "gv_id view = r_id run"
      "gv_checks view = checks_of s' runId"
    using view by (auto simp: completion_view_def s' advanceRunPhase_frame)
  have "r_id run = runId" using run by (auto simp: get_run_def dest: find_SomeD)
  moreover have "bound \<in> set (gv_checks view)" using stored by (force simp: v s' checks_of_def image_iff)
  ultimately show thesis using bind run v by (intro that [of bound run]) (simp_all add: s' advanceRunPhase_frame)
qed

lemma upsertCheck_trusted:
  assumes up: "upsertCheck digest t runId check s = Inr (u, s')" and view: "completion_view s' runId = Some view"
    and ids: "distinct (map op_id (db_operations (wd_core s)))"
    and check: "ck_status check = Check_passed" "ck_required check" "ck_sourceOperationId check = Some i" "js_trim i \<noteq> ''''"
  shows "\<exists>c \<in> set (gv_checks view). ck_key c = ck_key check \<and> ck_required c \<and> trustedCheck (wd_core s') view c"
proof -
  obtain bound run where bind: "bindTrustedCheckEvidence digest runId check s = Inr bound" and mem: "bound \<in> set (gv_checks view)"
    and run: "get_run (wd_core s) runId = Some run" and v: "gv_attempt view = r_attempt run" "gv_id view = runId"
    and ops: "db_operations (wd_core s') = db_operations (wd_core s)"
    using upsertCheck_stores [OF up view] by metis
  show ?thesis using bind check(1,3,4)
  proof (rule bind_sourced)
    fix run' x c
    assume r': "get_run (wd_core s) runId = Some run'" and x: "getOperation (wd_core s) (js_trim i) = Some x" "op_runId x = runId"
      "op_attempt x = r_attempt run'" "op_type x = ''tool.bash''" "op_status x = ''succeeded''" "completed x" "op_result x \<noteq> None"
      "receipt_command x = Some c" "js_trim c \<noteq> ''''" "js_zero (js_field (receipt_details x) ''exitCode'')"
      and b: "bound = check\<lparr>ck_command := js_trim c, ck_evidence := bound_evidence digest (js_trim i) (js_trim c) x,
                       ck_stale := False, ck_sourceOperationId := Some (js_trim i), ck_observedAt := op_completedAt x\<rparr>"
    obtain n where n: "op_completedAt x = Some n" "n \<noteq> 0" using x(6) by (auto simp: completed_def split: option.splits)
    have "operationById (wd_core s') view (js_trim i) = Some x"
      by (rule operationById_wanted [of _ _ _ _ bound])
        (use x(1,2) ids mem check b ops v in \<open>simp_all add: getOperation_def\<close>)
    then have "trustedCheck (wd_core s') view bound"
      using x n check b v run r' by (simp add: trustedCheck_def)
    then show ?thesis using mem b check(2) by (intro bexI [of _ bound]) simp_all
  qed
qed

section \<open>What the gate passes\<close>

lemma collect_results_Inr: "collect_results rs = Inr ys \<longleftrightarrow> rs = map Inr ys"
  by (induction rs arbitrary: ys rule: collect_results.induct) (auto split: sum.splits, blast)

lemma latest_source_ref: "latest_source s runId ref = Some x \<Longrightarrow> es_sourceRef x = ref"
proof -
  assume some: "latest_source s runId ref = Some x"
  let ?rows = "sort_key cs_createdAt (sort_key cs_manifestId
                   (filter (\<lambda>c. cs_runId c = runId \<and> es_sourceRef (cs_source c) = ref) (wd_sources s)))"
  have "?rows \<noteq> []" "x = cs_source (last ?rows)" using some by (auto simp: latest_source_def Let_def split: if_splits)
  then show ?thesis using last_in_set [of ?rows] by auto
qed

lemma resolve_ref_source: "resolve_ref sha256 s runId ref = Inr xs \<Longrightarrow> xs = [] \<or> (\<exists>x. xs = [x] \<and> es_sourceRef x = ref)"
  by (auto simp: resolve_ref_def createEvidenceSource_def latest_source_ref split: if_splits option.splits list.splits prod.splits)

text \<open>A reference stands for evidence the run has.\<close>

definition evidence_available :: "(string \<Rightarrow> string) \<Rightarrow> work_db \<Rightarrow> gate_view \<Rightarrow> string \<Rightarrow> bool" where
  "evidence_available sha256 s run ref \<longleftrightarrow>
     accepted_ref s run ref
     \<or> (ref \<noteq> '''' \<and> js_trim ref = ref \<and> (\<exists>x. resolve_ref sha256 s (gv_id run) ref = Inr [x]))"

lemma resolved_refs:
  assumes "resolveEvidenceSources sha256 s runId refs = Inr sources" and "ref \<in> set refs"
  shows "ref \<in> set (map es_sourceRef sources) \<longleftrightarrow>
         ref \<noteq> '''' \<and> js_trim ref = ref \<and> (\<exists>x. resolve_ref sha256 s runId ref = Inr [x])"
proof -
  let ?keys = "js_set (filter (\<lambda>r. r \<noteq> '''') (map js_trim refs))"
  obtain found where found: "map (resolve_ref sha256 s runId) ?keys = map Inr found" and src: "sources = concat found"
    using assms(1) by (auto simp: resolveEvidenceSources_def collect_results_Inr)
  have key: "\<exists>xs \<in> set found. resolve_ref sha256 s runId k = Inr xs" if "k \<in> set ?keys" for k
    using that arg_cong [OF found, of set] by (metis (no_types, lifting) image_iff list.set_map)
  have origin: "\<exists>k \<in> set ?keys. resolve_ref sha256 s runId k = Inr xs" if "xs \<in> set found" for xs
    using that arg_cong [OF found, of set] by (metis (no_types, lifting) image_iff list.set_map)
  show ?thesis
  proof
    assume "ref \<in> set (map es_sourceRef sources)"
    then obtain xs x where xs: "xs \<in> set found" "x \<in> set xs" "es_sourceRef x = ref" by (auto simp: src)
    from origin [OF xs(1)] obtain k where k: "k \<in> set ?keys" "resolve_ref sha256 s runId k = Inr xs" by blast
    with resolve_ref_source [OF k(2)] xs have "k = ref" "xs = [x]" by auto
    with k show "ref \<noteq> '''' \<and> js_trim ref = ref \<and> (\<exists>x. resolve_ref sha256 s runId ref = Inr [x])" by auto
  next
    assume r: "ref \<noteq> '''' \<and> js_trim ref = ref \<and> (\<exists>x. resolve_ref sha256 s runId ref = Inr [x])"
    then obtain x where x: "resolve_ref sha256 s runId ref = Inr [x]" by blast
    have "ref \<in> set ?keys" using r assms(2) by force
    from key [OF this] x have "[x] \<in> set found" by auto
    moreover have "es_sourceRef x = ref" using resolve_ref_source [OF x] by simp
    ultimately show "ref \<in> set (map es_sourceRef sources)" by (force simp: src)
  qed
qed

lemma evidence_failures_pass:
  assumes "evidence_failures sha256 s run item = Inr fs"
  shows "fs = [] \<longleftrightarrow> evidence_of item \<noteq> [] \<and> (\<forall>ref \<in> set (evidence_of item). evidence_available sha256 s run ref)"
proof (cases "evidence_of item = []")
  case False
  then obtain sources where "resolveEvidenceSources sha256 s (gv_id run) (evidence_of item) = Inr sources"
    and "fs = map (\<lambda>ref. failure ''plan_evidence'' (pi_key item) (''Completion evidence '' @ ref @ '' is unavailable for this TaskRun''))
          (filter (\<lambda>ref. ref \<notin> set (map es_sourceRef sources) \<and> \<not> accepted_ref s run ref) (evidence_of item))"
    using assms by (auto simp: evidence_failures_def)
  then show ?thesis using False resolved_refs
    by (simp add: filter_empty_conv evidence_available_def del: set_map) blast
qed (use assms in \<open>auto simp: evidence_failures_def\<close>)

lemma dependency_failures_pass:
  assumes "distinct (map pi_key plan)" and "pi_status item = Plan_done"
  shows "dependency_failures plan item = [] \<longleftrightarrow>
    (\<forall>dep \<in> set (dependencies_of item). \<exists>target \<in> set plan. pi_key target = dep \<and> pi_status target = Plan_done)"
proof -
  have look: "map_of (js_map (map (\<lambda>i. (pi_key i, i)) plan)) dep = Some target \<longleftrightarrow> target \<in> set plan \<and> pi_key target = dep" for dep target
  proof -
    have d: "distinct (map fst (map (\<lambda>i. (pi_key i, i)) plan))" using assms(1) by (simp add: comp_def)
    show ?thesis unfolding map_of_js_map_distinct [OF d] map_of_eq_Some_iff [OF d] by auto
  qed
  have "dependency_failures plan item = [] \<longleftrightarrow>
    (\<forall>dep \<in> set (dependencies_of item). \<exists>target. map_of (js_map (map (\<lambda>i. (pi_key i, i)) plan)) dep = Some target \<and> pi_status target = Plan_done)"
    by (auto simp: dependency_failures_def assms(2) split: option.splits if_splits)
  then show ?thesis unfolding look by blast
qed

lemma check_failures_pass: "check_failures d run check = [] \<longleftrightarrow> trustedCheck d run check"
  by (auto simp: check_failures_def trustedCheck_def)

text \<open>The specification of the gate.\<close>

definition planned :: "gate_view \<Rightarrow> plan_item set" where
  "planned run = {i \<in> set (gv_plan run). pi_required i}"

definition semantic :: "gate_view \<Rightarrow> plan_item set" where
  "semantic run = {i \<in> planned run. pi_meta i \<noteq> None}"

definition item_proved :: "(string \<Rightarrow> string) \<Rightarrow> work_db \<Rightarrow> gate_view \<Rightarrow> plan_item \<Rightarrow> bool" where
  "item_proved sha256 s run i \<longleftrightarrow>
     (\<forall>dep \<in> set (dependencies_of i). \<exists>target \<in> set (gv_plan run). pi_key target = dep \<and> pi_status target = Plan_done)
     \<and> evidence_of i \<noteq> [] \<and> (\<forall>ref \<in> set (evidence_of i). evidence_available sha256 s run ref)"

definition covers :: "gate_view \<Rightarrow> bool" where
  "covers run \<longleftrightarrow>
     (\<forall>k. gv_contract run = Some k \<longrightarrow> (\<forall>x \<in> set (k_objectives k). o_timing x = T_current \<longrightarrow>
        (\<exists>i \<in> semantic run. \<exists>m. pi_meta i = Some m \<and> o_id x \<in> set (pm_objectiveIds m))))
     \<and> (\<forall>c \<in> set (criterion_ids (gv_contract run)). \<exists>i \<in> semantic run. \<exists>m. pi_meta i = Some m \<and> c \<in> set (pm_criterionIds m))"

definition gate_spec :: "(string \<Rightarrow> string) \<Rightarrow> work_db \<Rightarrow> gate_view \<Rightarrow> bool" where
  "gate_spec sha256 s run \<longleftrightarrow>
     (p_mode (gate_policy (wd_core s) run) \<in> {Read_only_analysis, Workspace_mutation, External_action} \<longrightarrow> planned run \<noteq> {})
     \<and> (\<forall>i \<in> planned run. pi_status i = Plan_done)
     \<and> (semantic run \<noteq> {} \<longrightarrow> acyclic (depends (dependency_map (gv_plan run)))
          \<and> (\<forall>i \<in> semantic run. item_proved sha256 s run i) \<and> covers run)
     \<and> (\<forall>c \<in> set (gv_checks run). ck_required c \<longrightarrow> trustedCheck (wd_core s) run c)
     \<and> (p_evidencePolicy (gate_policy (wd_core s) run) = Ev_trusted_check \<longrightarrow> (\<exists>c \<in> set (gv_checks run). ck_required c))"

lemma coverage_failures_pass:
  "coverage_failures run (filter (\<lambda>i. pi_meta i \<noteq> None) (filter pi_required (gv_plan run))) = [] \<longleftrightarrow> covers run"
proof -
  let ?sem = "filter (\<lambda>i. pi_meta i \<noteq> None) (filter pi_required (gv_plan run))"
  have sem: "set ?sem = semantic run" by (auto simp: semantic_def planned_def)
  have cover: "set (concat (map (\<lambda>i. case pi_meta i of None \<Rightarrow> [] | Some m \<Rightarrow> f m) ?sem))
      = {x. \<exists>i \<in> semantic run. \<exists>m. pi_meta i = Some m \<and> x \<in> set (f m)}" for f :: "plan_metadata \<Rightarrow> string list"
    unfolding sem [symmetric] by (force split: option.splits)
  show ?thesis
    unfolding coverage_failures_def Let_def append_is_Nil_conv map_is_Nil_conv filter_empty_conv set_js_set cover covers_def
    by (cases "gv_contract run") auto
qed

lemma semantic_failures_pass:
  assumes run: "semantic_failures sha256 s run (filter (\<lambda>i. pi_meta i \<noteq> None) (filter pi_required (gv_plan run))) = Inr fs"
    and keys: "distinct (map pi_key (gv_plan run))" and complete: "\<forall>i \<in> planned run. pi_status i = Plan_done"
  shows "fs = [] \<longleftrightarrow> acyclic (depends (dependency_map (gv_plan run))) \<and> (\<forall>i \<in> semantic run. item_proved sha256 s run i) \<and> covers run"
proof -
  let ?sem = "filter (\<lambda>i. pi_meta i \<noteq> None) (filter pi_required (gv_plan run))"
  have sem: "set ?sem = semantic run" by (auto simp: semantic_def planned_def)
  have all_done: "pi_status i = Plan_done" if "i \<in> semantic run" for i using that complete by (simp add: semantic_def)
  have same: "filter (\<lambda>i. pi_status i = Plan_done) ?sem = ?sem"
    using all_done sem by (intro filter_True) blast
  obtain evidence where ev: "map (evidence_failures sha256 s run) ?sem = map Inr evidence"
    and fs: "fs = map (\<lambda>key. failure ''plan_dependency'' key ''Plan dependency graph contains a cycle'') (cyclicPlanItemKeys (gv_plan run))
             @ concat (map (dependency_failures (gv_plan run)) ?sem) @ concat evidence @ coverage_failures run ?sem"
    using run unfolding semantic_failures_def same by (auto simp: collect_results_Inr)
  have evs: "concat evidence = [] \<longleftrightarrow> (\<forall>i \<in> semantic run. evidence_of i \<noteq> [] \<and> (\<forall>ref \<in> set (evidence_of i). evidence_available sha256 s run ref))"
  proof -
    have "concat evidence = [] \<longleftrightarrow> (\<forall>r \<in> set (map Inr evidence :: (store_error + gate_failure list) list). r = Inr [])" by auto
    also have "\<dots> \<longleftrightarrow> (\<forall>i \<in> semantic run. evidence_failures sha256 s run i = Inr [])"
      unfolding ev [symmetric] sem [symmetric] by simp
    also have "\<dots> \<longleftrightarrow> (\<forall>i \<in> semantic run. evidence_of i \<noteq> [] \<and> (\<forall>ref \<in> set (evidence_of i). evidence_available sha256 s run ref))"
    proof (rule ball_cong [OF refl])
      fix i assume "i \<in> semantic run"
      then have "evidence_failures sha256 s run i \<in> set (map Inr evidence)" unfolding ev [symmetric] sem [symmetric] by simp
      then obtain g where "evidence_failures sha256 s run i = Inr g" by auto
      then show "evidence_failures sha256 s run i = Inr [] \<longleftrightarrow>
          evidence_of i \<noteq> [] \<and> (\<forall>ref \<in> set (evidence_of i). evidence_available sha256 s run ref)"
        using evidence_failures_pass by fastforce
    qed
    finally show ?thesis .
  qed
  have deps: "concat (map (dependency_failures (gv_plan run)) ?sem) = [] \<longleftrightarrow>
      (\<forall>i \<in> semantic run. \<forall>dep \<in> set (dependencies_of i). \<exists>target \<in> set (gv_plan run). pi_key target = dep \<and> pi_status target = Plan_done)"
    using dependency_failures_pass [OF keys all_done] by (simp add: concat_eq_Nil_conv flip: sem)
  show ?thesis
    unfolding fs append_is_Nil_conv map_is_Nil_conv no_cycle_iff deps evs coverage_failures_pass item_proved_def by blast
qed

lemma evaluateGate_spec:
  assumes gate: "evaluateGate sha256 run s = Inr g" and keys: "distinct (map pi_key (gv_plan run))"
    and strict: "gv_gateRequired run" "effectiveGateProfile (gv_contract run) \<noteq> Gate_relaxed"
  shows "cg_passed g \<longleftrightarrow> gate_spec sha256 s run"
proof -
  let ?req = "filter pi_required (gv_plan run)"
  let ?sem = "filter (\<lambda>i. pi_meta i \<noteq> None) ?req"
  let ?checks = "filter ck_required (gv_checks run)"
  let ?policy = "gate_policy (wd_core s) run"
  have req: "set ?req = planned run" by (auto simp: planned_def)
  have sem: "set ?sem = semantic run" by (auto simp: semantic_def planned_def)
  let ?F = "\<lambda>fs. (if ?req = [] \<and> p_mode ?policy \<in> set [Read_only_analysis, Workspace_mutation, External_action]
                  then [failure ''plan'' ''plan'' ''No required plan items''] else [])
                 @ map (\<lambda>i. failure ''plan_item'' (pi_key i) (''Required plan item is '' @ plan_status_name (pi_status i)))
                     (filter (\<lambda>i. pi_status i \<noteq> Plan_done) ?req)
                 @ fs
                 @ concat (map (check_failures (wd_core s) run) ?checks)
                 @ (if p_evidencePolicy ?policy = Ev_trusted_check \<and> ?checks = []
                    then [failure ''check'' ''trusted_evidence''
                           ''Change, verify, and release work requires at least one trusted required check'']
                    else [])"
  have "and_then (if ?sem = [] then Inr [] else semantic_failures sha256 s run ?sem)
          (\<lambda>fs. Inr \<lparr>cg_passed = (?F fs = []), cg_failures = ?F fs\<rparr>) = Inr g"
    using gate strict unfolding evaluateGate_def Let_def by (simp only: simp_thms if_False)
  then obtain fs where fs: "(if ?sem = [] then Inr [] else semantic_failures sha256 s run ?sem) = Inr fs"
    and passed: "g = \<lparr>cg_passed = (?F fs = []), cg_failures = ?F fs\<rparr>"
    unfolding and_then_Inr by blast
  have nil: "(if b then [x] else []) = [] \<longleftrightarrow> \<not> b" for b :: bool and x :: gate_failure by simp
  have g: "cg_passed g \<longleftrightarrow>
       \<not> (?req = [] \<and> p_mode ?policy \<in> {Read_only_analysis, Workspace_mutation, External_action})
       \<and> filter (\<lambda>i. pi_status i \<noteq> Plan_done) ?req = [] \<and> fs = []
       \<and> concat (map (check_failures (wd_core s) run) ?checks) = []
       \<and> \<not> (p_evidencePolicy ?policy = Ev_trusted_check \<and> ?checks = [])"
    unfolding passed completion_gate.select_convs append_is_Nil_conv map_is_Nil_conv nil by simp
  have none: "?req = [] \<longleftrightarrow> planned run = {}" by (auto simp: planned_def filter_empty_conv)
  have nosem: "?sem = [] \<longleftrightarrow> semantic run = {}" by (auto simp: semantic_def planned_def filter_empty_conv)
  have complete: "filter (\<lambda>i. pi_status i \<noteq> Plan_done) ?req = [] \<longleftrightarrow> (\<forall>i \<in> planned run. pi_status i = Plan_done)"
    unfolding filter_empty_conv req by simp
  have checks: "concat (map (check_failures (wd_core s) run) ?checks) = [] \<longleftrightarrow>
      (\<forall>c \<in> set (gv_checks run). ck_required c \<longrightarrow> trustedCheck (wd_core s) run c)"
    by (auto simp: check_failures_pass)
  have nochecks: "?checks = [] \<longleftrightarrow> \<not> (\<exists>c \<in> set (gv_checks run). ck_required c)" by (auto simp: filter_empty_conv)
  have "fs = [] \<longleftrightarrow> (semantic run \<noteq> {} \<longrightarrow> acyclic (depends (dependency_map (gv_plan run)))
          \<and> (\<forall>i \<in> semantic run. item_proved sha256 s run i) \<and> covers run)" if "\<forall>i \<in> planned run. pi_status i = Plan_done"
    using fs semantic_failures_pass [OF _ keys that, of sha256 s fs] nosem by (cases "?sem = []") simp_all
  then show ?thesis unfolding g none complete checks nochecks gate_spec_def by blast
qed

lemma completion_view_keys: "work_inv s \<Longrightarrow> completion_view s runId = Some run \<Longrightarrow> distinct (map pi_key (gv_plan run))"
  by (auto simp: completion_view_def work_inv_def plan_inv_def intro: plan_of_keys)

section \<open>Further consequences\<close>

definition empty_work :: "db \<Rightarrow> work_db" where
  "empty_work d = \<lparr>wd_core = d, wd_plan = [], wd_revisions = [], wd_checks = [], wd_artifacts = [], wd_transcript = [],
     wd_manifests = [], wd_sources = []\<rparr>"

lemma empty_work_inv: "store_inv d \<Longrightarrow> work_inv (empty_work d)"
proof -
  have "cyclicPlanItemKeys [] = []" by (simp add: cyclicPlanItemKeys_def dependency_map_def js_map_def map_filter_simps)
  then show "store_inv d \<Longrightarrow> work_inv (empty_work d)"
    by (simp add: empty_work_def work_inv_def plan_inv_def plan_of_def revisions_of_def transcript_of_def)
qed

definition operation_view :: "operation_row \<Rightarrow> policy_operation_view" where
  "operation_view x = \<lparr>ov_operationType = op_type x, ov_status = op_status x, ov_attempt = op_attempt x, ov_effects = Some (op_effects x)\<rparr>"

text \<open>What the gate's query observes, the policy observes too.\<close>

lemma json_extract_record: "json_extract e k = Some v \<longleftrightarrow> (\<exists>kvs. js_record e = Some kvs \<and> map_of kvs k = Some v)"
  by (cases e) auto

lemma gate_observes_sound: "gate_observes x \<Longrightarrow> operationMayMutate (operation_view x)"
  by (auto simp: gate_observes_def operationMayMutate_def operation_view_def list_ex_iff map_filter_def json_extract_record Let_def)

lemma gate_policy_mutation:
  "gate_mutationObserved d (gv_id run) (gv_attempt run) \<Longrightarrow> p_evidencePolicy (gate_policy d run) = Ev_trusted_check"
  unfolding gate_policy_def effective_fields
  by (cases "normalizedMode (policySource (gv_contract run))")
    (simp_all add: raised_mode_def mutationObserved_def operationMayMutate_def)

text \<open>What an accepted manifest stores for each memory item it selects.\<close>

definition committed :: "(string \<Rightarrow> string) \<Rightarrow> (string \<times> manifest_item) list \<Rightarrow> evidence_source \<Rightarrow> bool" where
  "committed sha256 items x \<longleftrightarrow>
     (\<exists>item. map_of items (es_sourceRef x) = Some item \<and> es_sourceHash x = evidenceSourceHash sha256 (es_content x)
        \<and> mi_projectedContentHash item = Some (sha256 (es_content x)) \<and> mi_sourceRevision item = Some (es_sourceRevision x))"

lemma accept_sources_sound:
  "accept_sources sha256 items seen rest = Inr sources \<Longrightarrow> list_all (committed sha256 items) seen
   \<Longrightarrow> list_all (committed sha256 items) sources"
proof (induction rest arbitrary: seen)
  case (Cons src rest)
  then have "committed sha256 items src" and "accept_sources sha256 items (seen @ [src]) rest = Inr sources"
    by (auto simp: committed_def)
  then show ?case using Cons.IH [of "seen @ [src]"] Cons.prems(2) by simp
qed simp

lemma recordContextManifest_sources:
  assumes run: "recordContextManifest sha256 manifest evidenceSources s = Inr (m, s')"
    and item: "map_of (memory_items manifest) ref = Some item"
  shows "\<exists>row \<in> set (wd_sources s'). cs_manifestId row = cx_id manifest \<and> cs_runId row = cx_runId manifest
     \<and> es_sourceRef (cs_source row) = ref \<and> Some (sha256 (es_content (cs_source row))) = mi_projectedContentHash item
     \<and> Some (es_sourceRevision (cs_source row)) = mi_sourceRevision item
     \<and> es_sourceHash (cs_source row) = evidenceSourceHash sha256 (es_content (cs_source row))"
proof -
  obtain sources where acc: "accept_sources sha256 (memory_items manifest) [] evidenceSources = Inr sources"
    and all: "filter (\<lambda>ref. \<not> list_ex (\<lambda>x. es_sourceRef x = ref) sources) (map fst (memory_items manifest)) = []"
    and s': "s' = s\<lparr>wd_manifests := wd_manifests s @ [manifest],
              wd_sources := wd_sources s @ map (\<lambda>x. \<lparr>cs_manifestId = cx_id manifest, cs_runId = cx_runId manifest,
                                                      cs_source = x, cs_createdAt = cx_createdAt manifest\<rparr>) sources\<rparr>"
    using run unfolding recordContextManifest_def Let_def by auto
  have "ref \<in> set (map fst (memory_items manifest))" using map_of_SomeD [OF item] by force
  with all obtain x where x: "x \<in> set sources" "es_sourceRef x = ref"
    by (auto simp: filter_empty_conv list_ex_iff simp del: set_map)
  have "committed sha256 (memory_items manifest) x"
    using accept_sources_sound [OF acc] x(1) by (simp add: list_all_iff)
  with item x(2) have "es_sourceHash x = evidenceSourceHash sha256 (es_content x)" "mi_projectedContentHash item = Some (sha256 (es_content x))"
    "mi_sourceRevision item = Some (es_sourceRevision x)" by (auto simp: committed_def)
  then show ?thesis using x unfolding s' by (intro bexI [of _ "\<lparr>cs_manifestId = cx_id manifest, cs_runId = cx_runId manifest,
      cs_source = x, cs_createdAt = cx_createdAt manifest\<rparr>"]) auto
qed

text \<open>A stored memory source answers its reference.\<close>

lemma resolve_memory:
  assumes "row \<in> set (wd_sources s)" and "cs_runId row = runId" and "es_sourceRef (cs_source row) = ref" and "starts_with ''memory:'' ref"
  shows "\<exists>x. resolve_ref sha256 s runId ref = Inr [x]"
proof -
  have m: "hd ref = CHR ''m''" using assms(4) by (cases ref) (auto simp: starts_with_def)
  then have other: "\<not> starts_with ''artifact:'' ref" "\<not> starts_with ''operation:'' ref" "\<not> starts_with ''transcript:'' ref"
    by (cases ref; auto simp: starts_with_def)+
  have "latest_source s runId ref \<noteq> None" using assms(1-3) by (auto simp: latest_source_def Let_def filter_empty_conv simp flip: set_empty)
  then show ?thesis using other assms(4) by (auto simp: resolve_ref_def transcript_ref_def)
qed

lemma memory_items_prefix: "map_of (memory_items manifest) ref = Some item \<Longrightarrow> starts_with ''memory:'' ref"
  unfolding memory_items_def map_of_js_map by (drule map_of_SomeD) (auto simp: starts_with_def)

text \<open>The receipt behind a trusted check.\<close>

lemma trusted_receipt:
  assumes "trustedCheck d run check"
  shows "\<exists>x \<in> set (db_operations d). ck_sourceOperationId check = Some (op_id x) \<and> op_runId x = gv_id run
     \<and> op_attempt x = gv_attempt run \<and> op_type x = ''tool.bash'' \<and> op_status x = ''succeeded''
     \<and> js_zero (js_field (receipt_details x) ''exitCode'')
     \<and> (\<exists>c. receipt_command x = Some c \<and> js_trim c = js_trim (ck_command check))"
proof -
  obtain source x where look: "ck_sourceOperationId check = Some source" "operationById d run source = Some x"
    and x: "op_runId x = gv_id run" "op_attempt x = gv_attempt run" "op_type x = ''tool.bash''" "op_status x = ''succeeded''"
    "js_zero (js_field (receipt_details x) ''exitCode'')"
    "\<exists>c. receipt_command x = Some c \<and> js_trim c = js_trim (ck_command check)"
    using assms by (auto simp: trustedCheck_def split: option.splits)
  have "op_id x = source" and "x \<in> set (db_operations d)"
    using look(2) unfolding operationById_def map_of_js_map
    by (auto dest!: map_of_SomeD simp: listOperations_def Let_def split: if_splits)
  then show ?thesis using look(1) x by blast
qed

end
