(* ===== verification/Transcripts.thy ===== *)
theory Transcripts
  imports Gate_Correctness
begin

text \<open>
  Repair of a transcript at an attempt boundary (\<open>repairTranscript\<close> of
  \<open>adapters/persistence-sqlite/src/sqlite/transcript-repository.ts\<close>): every tool call that got
  no result receives a synthetic one. The repaired transcript has no dangling call, so that a
  provider accepts it, and a second repair adds nothing.
\<close>

section \<open>Messages\<close>

definition getTranscriptCount :: "work_db \<Rightarrow> string \<Rightarrow> int" where
  "getTranscriptCount = last_transcript_seq"

definition listTranscript :: "work_db \<Rightarrow> string \<Rightarrow> jsval list" where
  "listTranscript s runId = map te_message (listTranscriptEntries s runId any_entry)"

text \<open>The tool calls of an assistant message, by id and name.\<close>

definition tool_call :: "jsval \<Rightarrow> (string \<times> string) option" where
  "tool_call part =
     (case (json_extract part ''type'', json_extract part ''id'', json_extract part ''name'') of
        (Some (JStr k), Some (JStr i), Some (JStr n)) \<Rightarrow> if k = ''toolCall'' then Some (i, n) else None
      | _ \<Rightarrow> None)"

definition tool_calls :: "jsval \<Rightarrow> (string \<times> string) list" where
  "tool_calls message =
     (case json_extract message ''content'' of Some (JArr parts) \<Rightarrow> List.map_filter tool_call parts | _ \<Rightarrow> [])"

text \<open>One round of the loop that collects the calls without a result.\<close>

definition note_message :: "jsval \<Rightarrow> (string \<times> string) list \<Rightarrow> (string \<times> string) list" where
  "note_message message pending =
     (if message_role message = Some ''assistant'' then fold js_map_set (tool_calls message) pending
      else if message_role message = Some ''toolResult''
      then filter (\<lambda>kv. Some (fst kv) \<noteq> js_string (json_extract message ''toolCallId'')) pending
      else pending)"

definition pending_calls :: "work_db \<Rightarrow> string \<Rightarrow> (string \<times> string) list" where
  "pending_calls s runId = fold note_message (listTranscript s runId) []"

section \<open>Repair\<close>

datatype repair_reason = Repair_cancelled | Repair_resume | Repair_continuation

fun repair_name :: "repair_reason \<Rightarrow> string" where
  "repair_name Repair_cancelled = ''cancelled''"
| "repair_name Repair_resume = ''resume''"
| "repair_name Repair_continuation = ''continuation''"

definition synthetic_result :: "repair_reason \<Rightarrow> int \<Rightarrow> string \<times> string \<Rightarrow> jsval" where
  "synthetic_result reason timestamp call =
     JObj [(''role'', JStr ''toolResult''), (''toolCallId'', JStr (fst call)), (''toolName'', JStr (snd call)),
           (''content'', JArr [JObj [(''type'', JStr ''text''),
              (''text'', JStr (''Tool result synthesized by TAgent Core because the '' @ repair_name reason
                              @ '' boundary interrupted this call.''))]]),
           (''details'', JObj [(''synthetic'', JBool True), (''reason'', JStr (repair_name reason))]),
           (''isError'', JBool True),
           (''error'', JObj [(''name'', JStr ''ToolExecutionError''), (''code'', JStr ''ABORTED''),
              (''message'', JStr (''Tool call interrupted by '' @ repair_name reason @ '' boundary''))]),
           (''timestamp'', JNum (JInt timestamp))]"

fun append_results ::
  "repair_reason \<Rightarrow> int \<Rightarrow> string \<Rightarrow> int \<Rightarrow> (string \<times> string) list \<Rightarrow> work_db \<Rightarrow> store_error + work_db" where
  "append_results reason t runId attempt [] s = Inr s"
| "append_results reason t runId attempt (call # calls) s =
     and_then (appendTranscript t t runId attempt (synthetic_result reason t call) s) (\<lambda>(_, s').
       append_results reason t runId attempt calls s')"

definition repairTranscript ::
  "repair_reason \<Rightarrow> int \<Rightarrow> string \<Rightarrow> work_db \<Rightarrow> store_error + (string \<times> string) list \<times> work_db" where
  "repairTranscript reason t runId s =
     fetch (get_run (wd_core s) runId) (Thrown (''Unknown run '' @ runId)) (\<lambda>run.
     and_then (append_results reason t runId (r_attempt run) (pending_calls s runId) s) (\<lambda>s'.
     Inr (pending_calls s runId, s')))"

section \<open>A repaired transcript has no dangling call\<close>

lemma synthetic_role [simp]: "message_role (synthetic_result reason t call) = Some ''toolResult''"
  by (simp add: message_role_def synthetic_result_def)

lemma note_synthetic: "note_message (synthetic_result reason t call) pending = filter (\<lambda>kv. fst kv \<noteq> fst call) pending"
proof -
  have "json_extract (synthetic_result reason t call) ''toolCallId'' = Some (JStr (fst call))"
    by (simp add: synthetic_result_def)
  then show ?thesis by (simp add: note_message_def)
qed

lemma any_entry_filter [simp]: "transcriptFilterSql any_entry e" "tq_after any_entry = None" "tq_limit any_entry = None"
  by (simp_all add: transcriptFilterSql_def any_entry_def)

lemma numbered_sorted: "numbered ns \<Longrightarrow> sorted ns"
  unfolding numbered_def by (metis sorted_map sorted_upt sorted_wrt_map_mono of_nat_le_iff sorted_wrt_mono_rel)

lemma listTranscript_order:
  "work_inv s \<Longrightarrow> listTranscript s runId = map te_message (filter (\<lambda>e. te_runId e = runId) (wd_transcript s))"
  using numbered_sorted [of "transcript_of s runId"]
  by (simp add: listTranscript_def listTranscriptEntries_def Let_def work_inv_def transcript_of_def sorted_sort_id sort_key_id_if_sorted)

lemma appendTranscript_messages:
  assumes "appendTranscript t t2 runId attempt message s = Inr (seq, s')" and "work_inv s"
  shows "listTranscript s' rid = listTranscript s rid @ (if rid = runId then [message] else [])"
  using appendTranscript_inv [OF assms] assms
  by (auto simp: listTranscript_order appendTranscript_def Let_def)

lemma append_results_messages:
  "append_results reason t runId attempt calls s = Inr s' \<Longrightarrow> work_inv s \<Longrightarrow>
   work_inv s' \<and> listTranscript s' runId = listTranscript s runId @ map (synthetic_result reason t) calls"
proof (induction calls arbitrary: s)
  case (Cons call calls)
  then obtain n s1 where step: "appendTranscript t t runId attempt (synthetic_result reason t call) s = Inr (n, s1)"
    and rest: "append_results reason t runId attempt calls s1 = Inr s'" by auto
  have "work_inv s1" by (rule appendTranscript_inv [OF step Cons.prems(2)])
  with Cons.IH [OF rest this] appendTranscript_messages [OF step Cons.prems(2), of runId] show ?case by simp
qed simp

lemma fold_synthetic:
  "fold note_message (map (synthetic_result reason t) calls) pending = filter (\<lambda>kv. fst kv \<notin> fst ` set calls) pending"
  by (induction calls arbitrary: pending) (auto simp: note_synthetic intro: filter_cong)

lemma repair_pending:
  assumes "repairTranscript reason t runId s = Inr (calls, s')" and "work_inv s"
  shows "work_inv s' \<and> calls = pending_calls s runId \<and> pending_calls s' runId = []
     \<and> listTranscript s' runId = listTranscript s runId @ map (synthetic_result reason t) calls"
proof -
  obtain n where c: "calls = pending_calls s runId" and r: "append_results reason t runId n calls s = Inr s'"
    using assms(1) by (auto simp: repairTranscript_def)
  have m: "work_inv s'" "listTranscript s' runId = listTranscript s runId @ map (synthetic_result reason t) calls"
    using append_results_messages [OF r assms(2)] by auto
  have "pending_calls s' runId = filter (\<lambda>kv. fst kv \<notin> fst ` set calls) calls"
    by (simp add: pending_calls_def m(2) fold_synthetic) (simp add: c pending_calls_def)
  then have "pending_calls s' runId = []" by (auto simp: filter_empty_conv)
  then show ?thesis using m c by simp
qed

text \<open>Repair returns for every known run.\<close>

lemma append_results_ok:
  "has_run (wd_core s) runId \<Longrightarrow> \<exists>s'. append_results reason t runId attempt calls s = Inr s' \<and> has_run (wd_core s') runId"
proof (induction calls arbitrary: s)
  case (Cons call calls)
  then obtain n s1 where s1: "appendTranscript t t runId attempt (synthetic_result reason t call) s = Inr (n, s1)"
    and "has_run (wd_core s1) runId"
    by (auto simp: appendTranscript_def Let_def result_eval has_run_def)
  from Cons.IH [OF this(2)] s1 show ?case by (simp add: and_then_def)
qed simp

lemma has_run_get: "has_run d runId \<longleftrightarrow> get_run d runId \<noteq> None"
  by (auto simp: has_run_def get_run_def find_None_iff list_ex_iff)

lemma repair_ok:
  assumes "has_run (wd_core s) runId"
  shows "\<exists>calls s'. repairTranscript reason t runId s = Inr (calls, s') \<and> has_run (wd_core s') runId"
proof -
  obtain run where run: "get_run (wd_core s) runId = Some run" using assms by (auto simp: has_run_get)
  from append_results_ok [OF assms, of reason t "r_attempt run" "pending_calls s runId"] obtain s' where
    "append_results reason t runId (r_attempt run) (pending_calls s runId) s = Inr s'" "has_run (wd_core s') runId" by blast
  then show ?thesis by (simp add: repairTranscript_def run)
qed

end
