(* ===== verification/Gate_Scenarios.thy ===== *)
theory Gate_Scenarios
  imports Scenarios Transcripts
begin

text \<open>
  Concrete work tables for the witnesses about plans, checks and the completion gate: a run
  with a contract whose runtime recorded one Bash receipt.
\<close>

definition sc_policy :: task_policy where
  "sc_policy = \<lparr>p_mode = Semantic_delivery, p_sideEffectRisk = Risk_none, p_evidencePolicy = Ev_semantic,
     p_reviewPolicy = Rev_semantic_lite, p_policyVersion = ''v1'', p_confidence = JInt 1, p_reason = '''',
     p_gateProfile = None, p_exactOutput = None\<rparr>"

definition sc_contract :: contract where
  "sc_contract = \<lparr>k_objectives = [\<lparr>o_id = ''ob-1'', o_summary = '''', o_timing = T_current, o_kind = K_answer\<rparr>],
     k_workspaceGoal = None, k_executionPolicy = Some sc_policy, k_sourceInput = '''', k_summary = '''',
     k_acceptanceCriteria = [''builds''], k_scope = '''', k_nonGoals = [], k_sourceInboxIds = [], k_parentRunId = None,
     k_relation = Rel_independent, k_intent = Int_new_task, k_decisionReason = '''', k_routerVersion = '''', k_skills = None\<rparr>"

definition sc_effect :: "string \<Rightarrow> jsval" where
  "sc_effect action = JObj [(''kind'', JStr ''workspace''), (''action'', JStr action)]"

text \<open>The receipt of \<open>make\<close>, which exited with code 0.\<close>

definition sc_receipt :: "jsval list \<Rightarrow> operation_update" where
  "sc_receipt effects = \<lparr>ou_status = ''succeeded'', ou_stage = None, ou_effects = Some effects,
     ou_result = Some (JObj [(''content'', JArr []), (''details'', JObj [(''exitCode'', JNum (JInt 0))])]),
     ou_error = None, ou_expectedStatuses = None\<rparr>"

definition sc_built :: "jsval list \<Rightarrow> db" where
  "sc_built effects =
     step_of (updateOperation 4 ''O1'' (sc_receipt effects))
    (step_of (claimOperation (\<lambda>_. ''h'') 3 ''O1'' ''R'' 1 ''tool.bash'' (JObj [(''command'', JStr ''make'')]))
    (step_of (acquireExecutionLease ''tok'' (attemptId ''R'' 1) 1 ''rt'' 1000 2)
    (step_of (createRun ''R'' ''u1'' 1 ''S'' ''goal'' ''q'' (Some sc_contract)) sc_empty)))"

lemma sc_built_run:
  "sc_built effects = run_all exec_command
     [Lifecycle (C_createRun ''R'' ''u1'' 1 ''S'' ''goal'' ''q'' (Some sc_contract)),
      Attempts (C_acquire ''tok'' (attemptId ''R'' 1) 1 ''rt'' 1000 2),
      Work (C_claimOperation (\<lambda>_. ''h'') 3 ''O1'' ''R'' 1 ''tool.bash'' (JObj [(''command'', JStr ''make'')])),
      Work (C_updateOperation 4 ''O1'' (sc_receipt effects))] sc_empty"
  by (simp add: sc_built_def step_of_def)

definition sc_hash :: "string \<Rightarrow> string" where
  "sc_hash _ = replicate 64 (CHR ''0'')"

definition sc_check :: run_check where
  "sc_check = \<lparr>ck_key = ''build'', ck_title = '''', ck_status = Check_passed, ck_required = True, ck_command = '''',
     ck_evidence = '''', ck_stale = False, ck_sourceOperationId = Some ''O1'', ck_observedAt = None\<rparr>"

definition sc_item :: plan_input where
  "sc_item = \<lparr>in_key = ''a'', in_title = ''Build'', in_status = Plan_done, in_required = True, in_position = 1,
     in_schemaVersion = Some 2, in_objectiveIds = Some [''ob-1''], in_criterionIds = Some [''ac-1''],
     in_dependencies = Some [], in_completionEvidenceRefs = Some [''operation:O1''], in_replanReason = None\<rparr>"

text \<open>The run before and after its runtime reported the plan item and the check.\<close>

definition sc_start :: "jsval list \<Rightarrow> work_db" where
  "sc_start effects = empty_work (sc_built effects)"

definition sc_reported :: work_db where
  "sc_reported = step_of (fenced_upsertCheck (\<lambda>_. ''h'') 6 6 sc_fence sc_check)
     (step_of (fenced_upsertPlanItem sc_hash 5 5 5 sc_fence sc_item) (sc_start []))"

lemma sc_reported_run:
  "sc_reported = run_all exec_evidence
     [E_plan sc_hash 5 5 5 sc_fence sc_item, E_check (\<lambda>_. ''h'') 6 6 sc_fence sc_check] (sc_start [])"
  by (simp add: sc_reported_def step_of_def)

definition sc_memory :: context_manifest where
  "sc_memory = \<lparr>cx_id = ''M'', cx_runId = ''R'', cx_attempt = 1,
     cx_items = [\<lparr>mi_kind = ''memory_card'', mi_sourceId = ''7'', mi_selected = True,
                  mi_projectedContentHash = Some (sc_hash ''card''), mi_sourceRevision = Some ''r1''\<rparr>],
     cx_manifestHash = ''h'', cx_createdAt = 5\<rparr>"

definition sc_sources :: "evidence_source list" where
  "sc_sources = [createEvidenceSource sc_hash Src_memory ''memory:7'' ''r1'' ''card'']"

lemma sc_start_inv: "work_inv (sc_start effects)"
proof -
  have "store_inv sc_empty" by code_simp
  then show ?thesis unfolding sc_start_def sc_built_run by (intro empty_work_inv store_machine.run_all_inv)
qed

text \<open>A transcript interrupted between a tool call and its result.\<close>

definition sc_call :: jsval where
  "sc_call = JObj [(''role'', JStr ''assistant''), (''content'', JArr [JObj [(''type'', JStr ''toolCall''),
     (''id'', JStr ''c1''), (''name'', JStr ''bash'')]])]"

definition sc_interrupted :: work_db where
  "sc_interrupted = step_of (fenced_appendTranscript 5 5 5 sc_fence sc_call) (sc_start [])"

lemma after_forget_work [simp]: "after s (forget_work res) = after s res"
  by (cases res) (auto simp: forget_work_def and_then_def)

lemma sc_interrupted_run: "sc_interrupted = run_all exec_evidence [E_transcript 5 5 5 sc_fence sc_call] (sc_start [])"
  by (simp add: sc_interrupted_def step_of_def)

lemma sc_work_inv: "work_inv sc_reported" "work_inv sc_interrupted"
  unfolding sc_reported_run sc_interrupted_run by (rule evidence_machine.run_all_inv [OF sc_start_inv])+

end
