(* ===== verification/Evidence_Quotes.thy ===== *)
theory Evidence_Quotes
  imports Completion_Gate "HOL-Library.Sublist"
begin

text \<open>
  Quotes a model proposes from evidence sources
  (\<open>packages/governance/src/application/evidence-quote-service.ts\<close>). A quote is accepted only
  when it is exactly what its selector selects from the source it names. \<open>JSON.parse\<close>, used by
  one kind of selector, is an argument. The theorems show that an accepted text, line or byte
  quote is a contiguous part of the source, and that a text quote has the occurrences it claims.
\<close>

section \<open>Selectors\<close>

definition MAX_EVIDENCE_QUOTE_BYTES :: nat where
  "MAX_EVIDENCE_QUOTE_BYTES = 16 * 1024"

text \<open>UTF-8 of code units below \<open>U+0100\<close>: one byte below \<open>U+0080\<close>, else two.\<close>

definition utf8_char :: "char \<Rightarrow> nat list" where
  "utf8_char c = (let n = of_char c in if n < 128 then [n] else [192 + n div 64, 128 + n mod 64])"

definition utf8 :: "string \<Rightarrow> nat list" where
  "utf8 s = concat (map utf8_char s)"

text \<open>Decoding of such bytes; \<open>None\<close> where \<open>toString("utf8")\<close> inserts a replacement character.\<close>

fun utf8_decode :: "nat list \<Rightarrow> string option" where
  "utf8_decode [] = Some ''''"
| "utf8_decode [b] = (if b < 128 then Some [char_of b] else None)"
| "utf8_decode (b # c # bs) =
     (if b < 128 then map_option (\<lambda>s. char_of b # s) (utf8_decode (c # bs))
      else if b \<in> {194, 195} \<and> 128 \<le> c \<and> c < 192
      then map_option (\<lambda>s. char_of ((b - 192) * 64 + (c - 128)) # s) (utf8_decode bs)
      else None)"

fun as_integer :: "jsval option \<Rightarrow> int option" where
  "as_integer (Some (JNum (JInt n))) = (if safe_integer n then Some n else None)"
| "as_integer (Some (JNum JNegZero)) = Some 0"
| "as_integer _ = None"

definition positiveInteger :: "jsval option \<Rightarrow> string \<Rightarrow> (int \<Rightarrow> string + 'a) \<Rightarrow> string + 'a" where
  "positiveInteger v label k =
     fetch (as_integer v) (''Evidence quote '' @ label @ '' must be a positive integer'') (\<lambda>n.
     require (1 \<le> n) (''Evidence quote '' @ label @ '' must be a positive integer'') (k n))"

definition nonNegativeInteger :: "jsval option \<Rightarrow> string \<Rightarrow> (int \<Rightarrow> string + 'a) \<Rightarrow> string + 'a" where
  "nonNegativeInteger v label k =
     fetch (as_integer v) (''Evidence quote '' @ label @ '' must be a non-negative integer'') (\<lambda>n.
     require (0 \<le> n) (''Evidence quote '' @ label @ '' must be a non-negative integer'') (k n))"

text \<open>\<open>/~(?:[^01]|$)/\<close> matches.\<close>

fun bad_escape :: "string \<Rightarrow> bool" where
  "bad_escape [] = False"
| "bad_escape [c] = (c = CHR ''~'')"
| "bad_escape (c # d # s) = (c = CHR ''~'' \<and> d \<notin> {CHR ''0'', CHR ''1''} \<or> bad_escape (d # s))"

definition present :: "jsval option \<Rightarrow> bool" where
  "present v = (v \<noteq> None \<and> v \<noteq> Some JUndefined)"

definition parseSelector :: "jsval option \<Rightarrow> string + quote_selector" where
  "parseSelector value =
     fetch (case value of None \<Rightarrow> None | Some v \<Rightarrow> js_record v) ''Evidence quote selector must be an object'' (\<lambda>selector.
     let kind = map_of selector ''kind''
     in if kind = Some (JStr ''text_quote'') then
          fetch (js_string (map_of selector ''exact'')) ''Evidence text quote must contain 1..16384 UTF-8 bytes'' (\<lambda>exact.
          require (exact \<noteq> '''' \<and> length (utf8 exact) \<le> MAX_EVIDENCE_QUOTE_BYTES)
            ''Evidence text quote must contain 1..16384 UTF-8 bytes''
           (if present (map_of selector ''occurrence'')
            then positiveInteger (map_of selector ''occurrence'') ''occurrence'' (\<lambda>n. Inr (Text_quote exact (Some n)))
            else Inr (Text_quote exact None)))
        else if kind = Some (JStr ''line_range'') then
          positiveInteger (map_of selector ''startLine'') ''startLine'' (\<lambda>a.
          positiveInteger (map_of selector ''endLine'') ''endLine'' (\<lambda>b. Inr (Line_range a b)))
        else if kind = Some (JStr ''byte_range'') then
          nonNegativeInteger (map_of selector ''startByte'') ''startByte'' (\<lambda>a.
          nonNegativeInteger (map_of selector ''endByte'') ''endByte'' (\<lambda>b. Inr (Byte_range a b)))
        else if kind = Some (JStr ''json_pointer'') then
          fetch (js_string (map_of selector ''pointer'')) ''Evidence JSON Pointer is invalid'' (\<lambda>pointer.
          require (length pointer \<le> 2000 \<and> (pointer = '''' \<or> hd pointer = CHR ''/'' \<and> \<not> bad_escape pointer))
            ''Evidence JSON Pointer is invalid'' (Inr (Json_pointer pointer)))
        else Inl ''Evidence quote selector kind is unknown'')"

section \<open>What a selector selects\<close>

text \<open>\<open>content.indexOf(exact, i)\<close>.\<close>

fun index_of :: "string \<Rightarrow> string \<Rightarrow> nat \<Rightarrow> nat option" where
  "index_of exact [] i = (if exact = '''' then Some i else None)"
| "index_of exact (c # s) i = (if starts_with exact (c # s) then Some i else index_of exact s (Suc i))"

definition indexOf :: "string \<Rightarrow> string \<Rightarrow> nat \<Rightarrow> nat option" where
  "indexOf content exact i = index_of exact (drop i content) i"

text \<open>The loop over the occurrences, from \<open>index + 1\<close>; it returns the index of the last one.\<close>

fun find_occurrence :: "string \<Rightarrow> string \<Rightarrow> nat \<Rightarrow> nat \<Rightarrow> nat option" where
  "find_occurrence content exact 0 i = Some i"
| "find_occurrence content exact (Suc n) i =
     (case indexOf content exact i of None \<Rightarrow> None | Some j \<Rightarrow> find_occurrence content exact n (Suc j))"

text \<open>The lines of a text, each with the separator \<open>/\r\n|\n|\r/\<close> that follows it.\<close>

fun split_lines :: "string \<Rightarrow> (string \<times> string) list" where
  "split_lines [] = [('''', '''')]"
| "split_lines (c # s) =
     (if c = CHR 0x0D then
        (case s of
           d # t \<Rightarrow> if d = CHR 0x0A then ('''', [CHR 0x0D, CHR 0x0A]) # split_lines t else ('''', [CHR 0x0D]) # split_lines s
         | [] \<Rightarrow> ('''', [CHR 0x0D]) # split_lines s)
      else if c = CHR 0x0A then ('''', [CHR 0x0A]) # split_lines s
      else (case split_lines s of (l, e) # rest \<Rightarrow> (c # l, e) # rest | [] \<Rightarrow> []))"

definition line_text :: "(string \<times> string) list \<Rightarrow> nat \<Rightarrow> nat \<Rightarrow> string" where
  "line_text lines a b =
     (let chosen = take (b - (a - 1)) (drop (a - 1) lines)
      in concat (map (\<lambda>(l, e). l @ e) (butlast chosen)) @ (if chosen = [] then '''' else fst (last chosen)))"

text \<open>\<open>s.split("/")\<close> and the replacement of a two-character escape.\<close>

fun split_slash :: "string \<Rightarrow> string list" where
  "split_slash [] = ['''']"
| "split_slash (c # s) =
     (if c = CHR ''/'' then '''' # split_slash s
      else (case split_slash s of p # ps \<Rightarrow> (c # p) # ps | [] \<Rightarrow> [[c]]))"

fun replace_escape :: "char \<Rightarrow> char \<Rightarrow> string \<Rightarrow> string" where
  "replace_escape d r (a # b # s) =
     (if a = CHR ''~'' \<and> b = d then r # replace_escape d r s else a # replace_escape d r (b # s))"
| "replace_escape d r s = s"

definition pointer_key :: "string \<Rightarrow> string" where
  "pointer_key encoded = replace_escape (CHR ''0'') (CHR ''~'') (replace_escape (CHR ''1'') (CHR ''/'') encoded)"

fun walk_pointer :: "string list \<Rightarrow> jsval \<Rightarrow> string + jsval" where
  "walk_pointer [] v = Inr v"
| "walk_pointer (encoded # rest) v =
     (let key = pointer_key encoded
      in case v of
           JArr vs \<Rightarrow>
             fetch (key_index key) ''Evidence JSON Pointer does not resolve'' (\<lambda>n.
             require (n < length vs) ''Evidence JSON Pointer does not resolve'' (walk_pointer rest (vs ! n)))
         | JObj kvs \<Rightarrow> fetch (map_of kvs key) ''Evidence JSON Pointer does not resolve'' (\<lambda>w. walk_pointer rest w)
         | _ \<Rightarrow> Inl ''Evidence JSON Pointer does not resolve'')"

definition selectedQuote :: "(string \<Rightarrow> jsval option) \<Rightarrow> evidence_source \<Rightarrow> quote_selector \<Rightarrow> string + string" where
  "selectedQuote json_parse source selector =
     (case selector of
        Text_quote exact occurrence \<Rightarrow>
          fetch (find_occurrence (es_content source) exact (case occurrence of None \<Rightarrow> 1 | Some n \<Rightarrow> nat n) 0)
            ''Evidence text quote does not occur in the source'' (\<lambda>_. Inr exact)
      | Line_range a b \<Rightarrow>
          (let lines = split_lines (es_content source)
           in require (a \<le> b \<and> b \<le> int (length lines)) ''Evidence line range is outside the source''
                (Inr (line_text lines (nat a) (nat b))))
      | Byte_range a b \<Rightarrow>
          (let bytes = utf8 (es_content source); part = take (nat b - nat a) (drop (nat a) bytes)
           in require (a < b \<and> b \<le> int (length bytes)) ''Evidence byte range is outside the source''
             (fetch (utf8_decode part) ''Evidence byte range must align to UTF-8 code-point boundaries'' (\<lambda>quote.
              require (quote \<noteq> '''' \<and> utf8 quote = part)
                ''Evidence byte range must align to UTF-8 code-point boundaries'' (Inr quote))))
      | Json_pointer pointer \<Rightarrow>
          fetch (json_parse (es_content source)) ''Evidence JSON Pointer source is not valid JSON'' (\<lambda>root.
          and_then (if pointer = '''' then Inr root else walk_pointer (split_slash (drop 1 pointer)) root) (\<lambda>current.
          (case current of JStr s \<Rightarrow> Inr s | _ \<Rightarrow> stableJson current))))"

definition verifyEvidenceQuote ::
  "(string \<Rightarrow> jsval option) \<Rightarrow> jsval \<Rightarrow> (string \<times> evidence_source) list \<Rightarrow> string + evidence_quote" where
  "verifyEvidenceQuote json_parse value sources =
     fetch (js_record value) ''Evidence quote must be an object'' (\<lambda>proposed.
     fetch (js_string (map_of proposed ''sourceRef'')) ''Evidence quote sourceRef is invalid'' (\<lambda>ref.
     fetch (map_of sources ref) (''Evidence quote source is unavailable: '' @ ref) (\<lambda>source.
     require (map_of proposed ''sourceRevision'' = Some (JStr (es_sourceRevision source))
              \<and> map_of proposed ''sourceHash'' = Some (JStr (es_sourceHash source)))
       (''Evidence quote source revision or hash does not match: '' @ ref)
    (and_then (parseSelector (map_of proposed ''selector'')) (\<lambda>selector.
     and_then (selectedQuote json_parse source selector) (\<lambda>quote.
     require (length (utf8 quote) \<le> MAX_EVIDENCE_QUOTE_BYTES) ''Evidence quote exceeds the 16384-byte limit''
    (require (map_of proposed ''quote'' = Some (JStr quote))
       ''Evidence quote bytes do not match the selected source content''
       (Inr \<lparr>eq_sourceRef = es_sourceRef source, eq_sourceRevision = es_sourceRevision source,
             eq_sourceHash = es_sourceHash source, eq_selector = selector, eq_quote = quote\<rparr>))))))))"

section \<open>What is selected is part of the source\<close>

lemma starts_with_prefix: "starts_with p s \<longleftrightarrow> prefix p s"
  unfolding starts_with_def by (metis append_eq_conv_conj prefix_def)

lemma index_of_Some:
  "index_of exact s i = Some j \<Longrightarrow> i \<le> j \<and> prefix exact (drop (j - i) s)"
proof (induction s arbitrary: i)
  case (Cons c s)
  then show ?case
    by (cases "starts_with exact (c # s)") (auto simp: starts_with_prefix drop_Cons' Suc_le_eq dest!: Cons.IH)
qed (auto split: if_splits)

lemma indexOf_Some:
  assumes "indexOf content exact i = Some j"
  shows "i \<le> j" and "prefix exact (drop j content)"
  using index_of_Some [OF assms [unfolded indexOf_def]] by auto

lemma occurrences_from:
  "find_occurrence content exact n i = Some k \<Longrightarrow> exact \<noteq> '''' \<Longrightarrow>
   n \<le> card {j. i \<le> j \<and> prefix exact (drop j content)}"
proof (induction n arbitrary: i)
  case (Suc n)
  then obtain j where j: "indexOf content exact i = Some j"
    and rest: "find_occurrence content exact n (Suc j) = Some k"
    by (auto split: option.splits)
  let ?S = "\<lambda>m. {l. m \<le> l \<and> prefix exact (drop l content)}"
  have "?S m \<subseteq> {..< length content}" for m
    using Suc.prems(2) by (auto simp: prefix_def intro: ccontr)
  then have fin: "finite (?S m)" for m by (rule finite_subset) simp
  have "insert j (?S (Suc j)) \<subseteq> ?S i" using indexOf_Some [OF j] by auto
  then have "card (insert j (?S (Suc j))) \<le> card (?S i)" by (rule card_mono [OF fin])
  with Suc.IH [OF rest Suc.prems(2)] fin show ?case by simp
qed simp

declare split_lines.simps(2) [simp del]

lemma split_lines_concat:
  "split_lines s \<noteq> [] \<and> concat (map (\<lambda>(l, e). l @ e) (split_lines s)) = s"
proof (induction s rule: split_lines.induct)
  case (2 c s)
  show ?case
  proof (cases "c = CHR 0x0D")
    case True
    with 2 show ?thesis by (subst (1 2) split_lines.simps) (simp split: list.split)
  next
    case False
    with 2 have IH: "split_lines s \<noteq> []" "concat (map (\<lambda>(l, e). l @ e) (split_lines s)) = s"
      by (cases "c = CHR 0x0A"; simp)+
    then obtain l e rest where "split_lines s = (l, e) # rest" by (cases "split_lines s") auto
    with IH False show ?thesis by (subst (1 2) split_lines.simps) auto
  qed
qed simp

lemma line_text_sublist: "sublist (line_text lines a b) (concat (map (\<lambda>(l, e). l @ e) lines))"
proof -
  let ?f = "\<lambda>(l, e). l @ e" and ?c = "take (b - (a - 1)) (drop (a - 1) lines)"
  have "lines = take (a - 1) lines @ ?c @ drop (b - (a - 1)) (drop (a - 1) lines)"
    by (metis append_take_drop_id)
  then have "concat (map ?f lines) = concat (map ?f (take (a - 1) lines)) @ concat (map ?f ?c)
      @ concat (map ?f (drop (b - (a - 1)) (drop (a - 1) lines)))"
    by (metis concat_append map_append)
  then have part: "sublist (concat (map ?f ?c)) (concat (map ?f lines))" by (metis sublist_appendI)
  have "prefix (line_text lines a b) (concat (map ?f ?c))"
  proof (cases "?c = []")
    case False
    then have "concat (map ?f ?c) = concat (map ?f (butlast ?c @ [last ?c]))" by simp
    also have "\<dots> = concat (map ?f (butlast ?c)) @ fst (last ?c) @ snd (last ?c)"
      by (simp add: case_prod_beta)
    finally show ?thesis using False unfolding line_text_def Let_def by auto
  next
    case True
    then show ?thesis unfolding line_text_def Let_def True by simp
  qed
  with part show ?thesis by (meson prefix_imp_sublist sublist_order.order_trans)
qed

lemma utf8_simps [simp]: "utf8 '''' = []" "utf8 (c # s) = utf8_char c @ utf8 s"
  by (simp_all add: utf8_def)

lemma utf8_char_cases:
  obtains (one) b where "utf8_char c = [b]" and "b < 128" and "b = of_char c"
  | (two) b d where "utf8_char c = [b, d]" and "192 \<le> b" and "128 \<le> d" and "d < 192"
      and "of_char c = (b - 192) * 64 + (d - 128)"
proof (cases "(of_char c :: nat) < 128")
  case True
  then show thesis by (intro one) (simp_all add: utf8_char_def Let_def)
next
  case False
  then show thesis
    by (intro two [of "192 + of_char c div 64" "128 + of_char c mod 64"]) (simp_all add: utf8_char_def Let_def)
qed

lemma utf8_char_prefix:
  assumes "utf8_char c @ r = utf8_char d @ t"
  shows "c = d \<and> r = t"
proof -
  have "(of_char c :: nat) = of_char d \<and> r = t"
    using assms by (cases c rule: utf8_char_cases; cases d rule: utf8_char_cases) auto
  then show ?thesis by simp
qed

lemma utf8_prefix: "utf8 s = utf8 q @ r \<Longrightarrow> prefix q s"
proof (induction q arbitrary: s)
  case (Cons c q)
  have "utf8_char c \<noteq> []" by (cases c rule: utf8_char_cases) auto
  with Cons.prems obtain d t where s: "s = d # t" by (cases s) auto
  with Cons.prems have "utf8_char d @ utf8 t = utf8_char c @ utf8 q @ r" by simp
  then have "d = c" and "utf8 t = utf8 q @ r" by (auto dest!: utf8_char_prefix)
  with Cons.IH s show ?case by simp
qed simp

text \<open>A decoded part starts at a character boundary: no character starts with a continuation byte.\<close>

lemma utf8_sublist:
  assumes "q \<noteq> ''''"
  shows "utf8 s = a @ utf8 q @ r \<Longrightarrow> sublist q s"
proof (induction s arbitrary: a)
  case Nil
  from assms obtain c q' where "q = c # q'" by (cases q) auto
  with Nil show ?case by (cases c rule: utf8_char_cases) auto
next
  case (Cons c s)
  from assms obtain d q' where q: "q = d # q'" by (cases q) auto
  show ?case
  proof (cases a)
    case Nil
    with Cons.prems utf8_prefix show ?thesis by (metis append_Nil prefix_imp_sublist)
  next
    case a: (Cons b a')
    have "\<exists>a''. utf8 s = a'' @ utf8 q @ r"
    proof (cases c rule: utf8_char_cases)
      case (one b')
      with a Cons.prems show ?thesis by auto
    next
      case (two b' d')
      with a Cons.prems q show ?thesis
        by (cases a'; cases d rule: utf8_char_cases) auto
    qed
    with Cons.IH show ?thesis by (auto simp: sublist_Cons_right)
  qed
qed

text \<open>What acceptance of a selected text says of the source, per kind of selector.\<close>

fun quoted_from :: "quote_selector \<Rightarrow> string \<Rightarrow> string \<Rightarrow> bool" where
  "quoted_from (Text_quote exact occurrence) quote content =
     (quote = exact
      \<and> (case occurrence of None \<Rightarrow> 1 | Some n \<Rightarrow> nat n) \<le> card {j. prefix quote (drop j content)})"
| "quoted_from (Line_range a b) quote content = sublist quote content"
| "quoted_from (Byte_range a b) quote content =
     (sublist quote content \<and> utf8 quote = take (nat b - nat a) (drop (nat a) (utf8 content)))"
| "quoted_from (Json_pointer pointer) quote content = True"

lemma selected_from_source:
  assumes "selectedQuote json_parse source selector = Inr quote"
    and "\<And>exact occurrence. selector = Text_quote exact occurrence \<Longrightarrow> exact \<noteq> ''''"
  shows "quoted_from selector quote (es_content source)"
proof (cases selector)
  case (Text_quote exact occurrence)
  with assms occurrences_from [where i = 0] show ?thesis by (auto simp: selectedQuote_def)
next
  case (Line_range a b)
  with assms(1) line_text_sublist [of "split_lines (es_content source)"] show ?thesis
    by (auto simp: selectedQuote_def Let_def split_lines_concat)
next
  case (Byte_range a b)
  with assms(1) have q: "quote \<noteq> ''''"
    and part: "utf8 quote = take (nat b - nat a) (drop (nat a) (utf8 (es_content source)))"
    by (auto simp: selectedQuote_def Let_def)
  from part have "utf8 (es_content source) = take (nat a) (utf8 (es_content source)) @ utf8 quote
      @ drop (nat b - nat a) (drop (nat a) (utf8 (es_content source)))"
    by (metis append_take_drop_id)
  from utf8_sublist [OF q this] part Byte_range show ?thesis by simp
qed simp

lemma parsed_text_quote:
  assumes "parseSelector v = Inr (Text_quote exact occurrence)"
  shows "exact \<noteq> ''''"
  using assms
  by (auto simp: parseSelector_def Let_def positiveInteger_def nonNegativeInteger_def split: if_splits)

end
