(* ===== verification/Run_Governance.thy ===== *)
theory Run_Governance
  imports Evidence_Quotes Transcripts
begin

text \<open>
  Operator decisions on a blocked run: gate evaluations and accepted uncertainties
  (\<open>adapters/persistence-sqlite/src/store.ts\<close>) and the application service that accepts an
  uncertainty and re-adjudicates the preserved candidate
  (\<open>apps/core-service/src/application/run-governance-application.ts\<close>). SHA-256, the digest of a
  contract and the generated ids are arguments. The lemmas show that the service keeps the
  invariants of the tables, when it completes a run, and that repeating a decision changes nothing.
\<close>

section \<open>Gate evaluations and decisions\<close>

definition recordGateEvaluation :: "gate_evaluation \<Rightarrow> db \<Rightarrow> store_error + db" where
  "recordGateEvaluation gate s =
     require (has_run s (ge_runId gate) \<and> \<not> list_ex (\<lambda>g. ge_id g = ge_id gate) (db_gates s))
       (Sql_constraint ''gate_evaluations'')
       (Inr (s\<lparr>db_gates := db_gates s
         @ [gate\<lparr>ge_criterionCoverage := Some (case ge_criterionCoverage gate of None \<Rightarrow> [] | Some cs \<Rightarrow> cs)\<rparr>]\<rparr>))"

text \<open>\<open>ORDER BY attempt DESC,checkpoint_seq DESC LIMIT 1\<close>: the greatest pair.\<close>

fun latest_point :: "gate_evaluation list \<Rightarrow> (int \<times> int) option" where
  "latest_point [] = None"
| "latest_point (g # gs) =
     (case latest_point gs of
        None \<Rightarrow> Some (ge_attempt g, ge_checkpointSeq g)
      | Some (a, c) \<Rightarrow> if a < ge_attempt g \<or> a = ge_attempt g \<and> c < ge_checkpointSeq g
                     then Some (ge_attempt g, ge_checkpointSeq g) else Some (a, c))"

definition listLatestGateEvaluations :: "db \<Rightarrow> string \<Rightarrow> gate_evaluation list" where
  "listLatestGateEvaluations s runId =
     (let own = filter (\<lambda>g. ge_runId g = runId) (db_gates s)
      in sort_key (\<lambda>g. gate_name (ge_gateType g))
           (filter (\<lambda>g. latest_point own = Some (ge_attempt g, ge_checkpointSeq g)) own))"

definition listSupervisorDecisions :: "db \<Rightarrow> string \<Rightarrow> int option \<Rightarrow> supervisor_decision list" where
  "listSupervisorDecisions s runId attempt =
     sort_key d_createdAt (sort_key d_id
       (filter (\<lambda>d. d_runId d = runId \<and> (case attempt of None \<Rightarrow> True | Some n \<Rightarrow> d_attempt d = n)) (db_decisions s)))"

definition at_last :: "'a list \<Rightarrow> 'a option" where
  "at_last xs = (if xs = [] then None else Some (last xs))"

section \<open>Accepted uncertainties\<close>

definition listAcceptedUncertainties :: "db \<Rightarrow> string \<Rightarrow> int option \<Rightarrow> accepted_uncertainty list" where
  "listAcceptedUncertainties s runId activeAt =
     sort_key un_createdAt (sort_key un_id
       (filter (\<lambda>u. un_runId u = runId
                  \<and> (case activeAt of None \<Rightarrow> True
                     | Some t \<Rightarrow> (case un_expiresAt u of None \<Rightarrow> True | Some x \<Rightarrow> t < x))) (db_uncertainties s)))"

record unresolved_uncertainty =
  uu_criterionId :: string
  uu_criterion :: string
  uu_status :: coverage_status
  uu_reason :: string

text \<open>The coverage of the first contract gate among the latest gates.\<close>

definition contract_coverage :: "db \<Rightarrow> string \<Rightarrow> criterion_coverage list option" where
  "contract_coverage s runId =
     (case find (\<lambda>g. ge_gateType g = G_contract) (listLatestGateEvaluations s runId) of
        None \<Rightarrow> None | Some g \<Rightarrow> ge_criterionCoverage g)"

definition unresolvedUncertainties :: "db \<Rightarrow> string \<Rightarrow> int \<Rightarrow> unresolved_uncertainty list" where
  "unresolvedUncertainties s runId t =
     (let active = map un_criterionId (listAcceptedUncertainties s runId (Some t))
      in concat (map (\<lambda>(i, c).
           if cv_status c \<notin> set [Unsupported, Cover_blocked] \<or> ac_key i \<in> set active then []
           else [\<lparr>uu_criterionId = ac_key i, uu_criterion = cv_criterion c, uu_status = cv_status c, uu_reason = cv_reason c\<rparr>])
         (indexed (case contract_coverage s runId of None \<Rightarrow> [] | Some cs \<Rightarrow> cs))))"

record accept_input =
  ai_id :: string
  ai_runId :: string
  ai_criterionId :: string
  ai_actorId :: string
  ai_rationale :: string
  ai_scope :: string
  ai_evidenceRefs :: "string list"
  ai_expiresAt :: "int option"
  ai_createdAt :: int

text \<open>\<open>/^ac-([1-9]\d*)$/\<close> and the index of the criterion it names.\<close>

definition ac_index :: "string \<Rightarrow> nat option" where
  "ac_index criterionId =
     (if starts_with ''ac-'' criterionId
      then (case key_index (drop 3 criterionId) of Some (Suc n) \<Rightarrow> Some n | _ \<Rightarrow> None) else None)"

definition nth_opt :: "'a list \<Rightarrow> nat \<Rightarrow> 'a option" where
  "nth_opt xs i = (if i < length xs then Some (xs ! i) else None)"

definition bounded :: "string \<Rightarrow> string \<Rightarrow> nat \<Rightarrow> (string \<Rightarrow> store_error + 'a) \<Rightarrow> store_error + 'a" where
  "bounded v label limit k =
     require (js_trim v \<noteq> '''' \<and> nul \<notin> set (js_trim v) \<and> length (js_trim v) \<le> limit)
       (Thrown (''Accepted uncertainty '' @ label @ '' is invalid'')) (k (js_trim v))"

definition trimmed_refs :: "string list \<Rightarrow> string list" where
  "trimmed_refs refs = js_unique (filter (\<lambda>r. r \<noteq> '''') (map js_trim refs))"

definition bad_ref :: "string \<Rightarrow> bool" where
  "bad_ref ref \<longleftrightarrow> nul \<in> set ref \<or> 2000 < length ref"

definition ref_available :: "work_db \<Rightarrow> string \<Rightarrow> evidence_source list \<Rightarrow> string \<Rightarrow> bool" where
  "ref_available s runId sources ref \<longleftrightarrow>
     ref \<in> set (map es_sourceRef sources)
     \<or> starts_with ''check:'' ref \<and> find_check s runId (drop 6 ref) \<noteq> None
     \<or> starts_with ''memory:'' ref
       \<and> list_ex (\<lambda>m. list_ex (\<lambda>i. mi_selected i \<and> ''memory:'' @ mi_sourceId i = ref) (cx_items m))
           (listContextManifests s runId 20)"

text \<open>The insertion of a decision, or the comparison with the one stored under its id.\<close>

definition store_uncertainty :: "accepted_uncertainty \<Rightarrow> work_db \<Rightarrow> store_error + accepted_uncertainty \<times> work_db" where
  "store_uncertainty decision s =
     (case find (\<lambda>u. un_id u = un_id decision) (db_uncertainties (wd_core s)) of
        Some existing \<Rightarrow>
          require (existing = decision) (Thrown ''Accepted uncertainty id already exists with different content'')
            (Inr (decision, s))
      | None \<Rightarrow>
          require (length (un_contractHash decision) = 64) (Sql_constraint ''accepted_uncertainties.contract_hash'')
            (Inr (decision, set_core (\<lambda>d. d\<lparr>db_uncertainties := db_uncertainties d @ [decision]\<rparr>) s)))"

definition acceptUncertainty ::
  "(string \<Rightarrow> string) \<Rightarrow> (contract \<Rightarrow> string) \<Rightarrow> accept_input \<Rightarrow> work_db
   \<Rightarrow> store_error + accepted_uncertainty \<times> work_db" where
  "acceptUncertainty sha256 contract_digest input s =
     fetch (case get_run (wd_core s) (ai_runId input) of None \<Rightarrow> None | Some r \<Rightarrow> r_contract r)
       (Thrown ''Accepted uncertainty requires an immutable TaskRun contract'') (\<lambda>contract.
     fetch (case ac_index (ai_criterionId input) of None \<Rightarrow> None
            | Some i \<Rightarrow> nth_opt (taskRunPlanningCriteria (Some contract)) i)
       (Thrown ''Accepted uncertainty references an unknown acceptance criterion'') (\<lambda>criterion.
     require (criterion \<noteq> '''') (Thrown ''Accepted uncertainty references an unknown acceptance criterion'')
    (bounded (ai_actorId input) ''actorId'' 500 (\<lambda>actorId.
     bounded (ai_rationale input) ''rationale'' 4000 (\<lambda>rationale.
     bounded (ai_scope input) ''scope'' 2000 (\<lambda>scope.
     let refs = trimmed_refs (ai_evidenceRefs input)
     in require (length refs \<le> 100) (Thrown ''Accepted uncertainty has too many evidence references'')
       (require (\<not> list_ex bad_ref refs) (Thrown ''Accepted uncertainty evidence reference is invalid'')
       (and_then (resolveEvidenceSources sha256 s (ai_runId input) refs) (\<lambda>sources.
        refuse (find (\<lambda>ref. \<not> ref_available s (ai_runId input) sources ref) refs)
          (\<lambda>ref. Thrown (''Accepted uncertainty evidence reference is unavailable: '' @ ref))
       (require (case ai_expiresAt input of None \<Rightarrow> True | Some x \<Rightarrow> safe_integer x \<and> ai_createdAt input < x)
          (Thrown ''Accepted uncertainty expiry must be later than creation'')
       (store_uncertainty
          \<lparr>un_id = ai_id input, un_runId = ai_runId input, un_criterionId = ai_criterionId input,
           un_criterion = criterion, un_contractHash = contract_digest contract, un_actorId = actorId,
           un_rationale = rationale, un_scope = scope, un_evidenceRefs = refs,
           un_expiresAt = ai_expiresAt input, un_createdAt = ai_createdAt input\<rparr> s)))))))))))"

section \<open>The governance service\<close>

definition gateTypes :: "gate_type list" where
  "gateTypes = [G_progress, G_evidence, G_contract, G_completion, G_continuation]"

definition normalizeEvidenceRefs :: "string list \<Rightarrow> (string list \<Rightarrow> store_error + 'a) \<Rightarrow> store_error + 'a" where
  "normalizeEvidenceRefs vs k =
     require (length vs \<le> 100) (Thrown ''Accepted uncertainty has too many evidence references'')
    (require (\<not> list_ex bad_ref (trimmed_refs vs)) (Thrown ''Accepted uncertainty evidence reference is invalid'')
      (k (trimmed_refs vs)))"

record decision_input =
  di_decisionId :: string
  di_runId :: string
  di_criterionId :: string
  di_actorId :: string
  di_rationale :: string
  di_scope :: string
  di_evidenceRefs :: "string list"
  di_expiresAt :: "int option"

definition uncertaintyId :: "decision_input \<Rightarrow> string" where
  "uncertaintyId input = ''uncertainty:'' @ di_runId input @ '':'' @ di_decisionId input"

text \<open>\<open>latestGates\<close> as a \<open>Map\<close> by gate type, and the audit made from the five gates.\<close>

definition latest_gate :: "db \<Rightarrow> string \<Rightarrow> gate_type \<Rightarrow> gate_evaluation option" where
  "latest_gate s runId ty = at_last (filter (\<lambda>g. ge_gateType g = ty) (listLatestGateEvaluations s runId))"

definition stored_gate :: "gate_evaluation \<Rightarrow> audit_gate" where
  "stored_gate g = \<lparr>ag_passed = ge_passed g, ag_failures = ge_failures g,
                    ag_criterionCoverage = ge_criterionCoverage g, ag_summary = ge_summary g\<rparr>"

definition source_gates :: "(gate_type \<Rightarrow> gate_evaluation) \<Rightarrow> audit_gates" where
  "source_gates g = \<lparr>gs_progress = stored_gate (g G_progress), gs_evidence = stored_gate (g G_evidence),
     gs_contract = stored_gate (g G_contract), gs_completion = stored_gate (g G_completion),
     gs_continuation = stored_gate (g G_continuation)\<rparr>"

fun gate_at :: "audit_gates \<Rightarrow> gate_type \<Rightarrow> audit_gate" where
  "gate_at gs G_progress = gs_progress gs"
| "gate_at gs G_evidence = gs_evidence gs"
| "gate_at gs G_contract = gs_contract gs"
| "gate_at gs G_completion = gs_completion gs"
| "gate_at gs G_continuation = gs_continuation gs"
| "gate_at gs G_spawn = gs_continuation gs"

definition readjudication_model :: string where
  "readjudication_model = ''accepted-uncertainty-readjudication-v1''"

definition readjudicated_gate ::
  "(gate_type \<Rightarrow> string) \<Rightarrow> task_run \<Rightarrow> string \<Rightarrow> int \<Rightarrow> audit_gates \<Rightarrow> gate_type \<Rightarrow> gate_evaluation" where
  "readjudicated_gate gate_uuid run manifestHash t gates ty =
     (let g = gate_at gates ty
      in \<lparr>ge_id = gate_uuid ty, ge_runId = r_id run, ge_attempt = r_attempt run, ge_checkpointSeq = r_lastEventSeq run + 1,
          ge_gateType = ty, ge_evaluator = ''system'', ge_evaluatorModel = readjudication_model,
          ge_summary = ag_summary g, ge_passed = ag_passed g, ge_failures = ag_failures g,
          ge_criterionCoverage = ag_criterionCoverage g, ge_inputManifestHash = manifestHash, ge_createdAt = t\<rparr>)"

definition readjudication_reason :: string where
  "readjudication_reason = ''Every remaining unsupported or blocked acceptance criterion is covered by an active operator acceptance; Core re-adjudicated the preserved Candidate without rerunning the Agent.''"

definition readjudication_decision :: "string \<Rightarrow> task_run \<Rightarrow> candidate_result \<Rightarrow> int \<Rightarrow> supervisor_decision" where
  "readjudication_decision uuid run candidate t =
     \<lparr>d_id = uuid, d_runId = r_id run, d_attempt = r_attempt run, d_checkpointSeq = r_lastEventSeq run + 1,
      d_trigger = ''manual'', d_action = Act_complete_taskrun, d_reasonCode = ''accepted_uncertainty_readjudicated'',
      d_rationale = readjudication_reason, d_confidence = JInt 1, d_epistemicStatus = ''deterministic'',
      d_instruction = '''', d_candidateResponseHash = c_responseHash candidate, d_status = Dec_proposed, d_error = '''',
      d_createdAt = t, d_executedAt = None, d_evaluator = ''system'', d_evaluatorModel = readjudication_model\<rparr>"

fun record_gates :: "gate_evaluation list \<Rightarrow> db \<Rightarrow> store_error + db" where
  "record_gates [] s = Inr s"
| "record_gates (g # gs) s = and_then (recordGateEvaluation g s) (record_gates gs)"

text \<open>The ids the service generates: one per gate, one for the decision, one for the transition.\<close>

record generated_ids =
  gi_gate :: "gate_type \<Rightarrow> string"
  gi_decision :: string
  gi_transition :: string

definition readjudicate ::
  "(string \<Rightarrow> string) \<Rightarrow> generated_ids \<Rightarrow> int \<Rightarrow> task_run \<Rightarrow> attempt \<Rightarrow> candidate_result \<Rightarrow> supervisor_decision
   \<Rightarrow> (gate_type \<Rightarrow> gate_evaluation) \<Rightarrow> accepted_uncertainty list \<Rightarrow> audit_gates \<Rightarrow> db
   \<Rightarrow> store_error + run_event \<times> db" where
  "readjudicate sha256 ids t run attempt candidate prior latest active gates d =
     and_then (stable_text (JObj [(''candidateResponseHash'', JStr (c_responseHash candidate)),
         (''priorGateIds'', JArr (map (\<lambda>ty. JStr (ge_id (latest ty))) gateTypes)),
         (''acceptedUncertaintyIds'', JArr (map (\<lambda>u. JStr (un_id u)) active))])) (\<lambda>manifest.
     and_then (record_gates (map (readjudicated_gate (gi_gate ids) run (sha256 manifest) t gates) gateTypes) d) (\<lambda>d1.
     and_then (recordSupervisorDecision (readjudication_decision (gi_decision ids) run candidate t) d1) (\<lambda>recorded.
     and_then (reAdjudicateBlockedCandidate (gi_transition ids)
         \<lparr>ra_attemptId = a_id attempt, ra_expectedVersion = a_version attempt, ra_candidateResultId = c_id candidate,
          ra_candidateResponseHash = c_responseHash candidate, ra_previousSupervisorDecisionId = d_id prior,
          ra_supervisorDecisionId = gi_decision ids, ra_gateEvaluationIds = map (gi_gate ids) gateTypes,
          ra_acceptedUncertaintyIds = map un_id active, ra_reason = readjudication_reason, ra_timestamp = t\<rparr> (snd recorded))
       (\<lambda>settled. Inr (snd (fst settled), snd settled)))))"

text \<open>What follows an acceptance in the same transaction.\<close>

definition adjudicate_acceptance ::
  "(string \<Rightarrow> string) \<Rightarrow> generated_ids \<Rightarrow> int \<Rightarrow> task_run \<Rightarrow> attempt \<Rightarrow> candidate_result \<Rightarrow> supervisor_decision
   \<Rightarrow> (gate_type \<Rightarrow> gate_evaluation option) \<Rightarrow> accepted_uncertainty \<Rightarrow> work_db
   \<Rightarrow> store_error + (accepted_uncertainty \<times> run_event option) \<times> work_db" where
  "adjudicate_acceptance sha256 ids t run attempt candidate prior latest uncertainty s1 =
     (let active = listAcceptedUncertainties (wd_core s1) (r_id run) (Some t)
      in require (list_all (\<lambda>ty. latest ty \<noteq> None) gateTypes)
           (Thrown ''Blocked Candidate has an incomplete Gate evaluation set'')
        (let gate = (\<lambda>ty. the (latest ty));
             audit = enforceCompletionAuditAlgebra
               \<lparr>au_action = d_action prior, au_reasonCode = d_reasonCode prior, au_rationale = d_rationale prior,
                au_gates = source_gates gate\<rparr> Gate_strict active
         in if au_action audit \<noteq> Act_complete_taskrun \<or> \<not> ag_passed (gs_completion (au_gates audit))
            then Inr ((uncertainty, None), s1)
            else and_then (readjudicate sha256 ids t run attempt candidate prior gate active (au_gates audit) (wd_core s1))
              (\<lambda>(event, d). Inr ((uncertainty, Some event), s1\<lparr>wd_core := d\<rparr>))))"

text \<open>The body of the transaction; \<open>t\<close> is \<open>Date.now()\<close>.\<close>

definition accept_and_adjudicate ::
  "(string \<Rightarrow> string) \<Rightarrow> (contract \<Rightarrow> string) \<Rightarrow> generated_ids \<Rightarrow> int \<Rightarrow> decision_input \<Rightarrow> string list \<Rightarrow> work_db
   \<Rightarrow> store_error + (accepted_uncertainty \<times> run_event option) \<times> work_db" where
  "accept_and_adjudicate sha256 contract_digest ids t input evidenceRefs s =
     fetch (get_run (wd_core s) (di_runId input)) (Thrown ''TaskRun has no immutable contract to qualify'') (\<lambda>run.
     fetch (r_contract run) (Thrown ''TaskRun has no immutable contract to qualify'') (\<lambda>contract.
     require (r_status run = Blocked) (Thrown ''Accepted uncertainty requires a blocked TaskRun Candidate'')
    (require (effectiveGateProfile (Some contract) = Gate_strict)
       (Thrown ''Accepted uncertainty is only valid for a strict completion Gate'')
    (fetch (at_last (listSupervisorDecisions (wd_core s) (r_id run) None))
       (Thrown ''TaskRun has no current executed blocking decision to re-adjudicate'') (\<lambda>prior.
     require (d_attempt prior = r_attempt run \<and> d_action prior = Act_block_taskrun \<and> d_status prior = Dec_executed)
       (Thrown ''TaskRun has no current executed blocking decision to re-adjudicate'')
    (fetch (getAttemptForRun (wd_core s) (r_id run) (r_attempt run))
       (Thrown ''TaskRun has no integrity-bound rejected Candidate to re-adjudicate'') (\<lambda>attempt.
     fetch (getCandidateForAttempt (wd_core s) (a_id attempt))
       (Thrown ''TaskRun has no integrity-bound rejected Candidate to re-adjudicate'') (\<lambda>candidate.
     require (a_status attempt = A_blocked \<and> \<not> a_active attempt \<and> c_status candidate = Cand_rejected
              \<and> d_candidateResponseHash prior = c_responseHash candidate)
       (Thrown ''TaskRun has no integrity-bound rejected Candidate to re-adjudicate'')
    (fetch (case (ac_index (di_criterionId input), contract_coverage (wd_core s) (r_id run)) of
              (Some i, Some cs) \<Rightarrow> nth_opt cs i | _ \<Rightarrow> None)
       (Thrown ''Only a currently unsupported or blocked criterion can receive accepted uncertainty'') (\<lambda>coverage.
     require (cv_status coverage \<in> set [Unsupported, Cover_blocked])
       (Thrown ''Only a currently unsupported or blocked criterion can receive accepted uncertainty'')
    (and_then (acceptUncertainty sha256 contract_digest
         \<lparr>ai_id = uncertaintyId input, ai_runId = di_runId input, ai_criterionId = di_criterionId input,
          ai_actorId = di_actorId input, ai_rationale = di_rationale input, ai_scope = di_scope input,
          ai_evidenceRefs = evidenceRefs, ai_expiresAt = di_expiresAt input, ai_createdAt = t\<rparr> s) (\<lambda>accepted.
     adjudicate_acceptance sha256 ids t run attempt candidate prior (latest_gate (wd_core s) (r_id run))
       (fst accepted) (snd accepted)))))))))))))"

text \<open>
  \<open>acceptRunUncertainty\<close>: the acceptance, whether the run is completed, the event to publish, and
  the new state. A decision id that is already stored must carry the same content.
\<close>

definition same_decision :: "decision_input \<Rightarrow> string list \<Rightarrow> accepted_uncertainty \<Rightarrow> bool" where
  "same_decision input evidenceRefs prior \<longleftrightarrow>
     un_runId prior = di_runId input \<and> un_criterionId prior = di_criterionId input
     \<and> un_actorId prior = js_trim (di_actorId input) \<and> un_rationale prior = js_trim (di_rationale input)
     \<and> un_scope prior = js_trim (di_scope input) \<and> un_evidenceRefs prior = evidenceRefs
     \<and> un_expiresAt prior = di_expiresAt input"

definition acceptRunUncertainty ::
  "(string \<Rightarrow> string) \<Rightarrow> (contract \<Rightarrow> string) \<Rightarrow> generated_ids \<Rightarrow> int \<Rightarrow> decision_input \<Rightarrow> work_db
   \<Rightarrow> store_error + (accepted_uncertainty \<times> bool \<times> run_event option) \<times> work_db" where
  "acceptRunUncertainty sha256 contract_digest ids t input s =
     normalizeEvidenceRefs (di_evidenceRefs input) (\<lambda>evidenceRefs.
     case find (\<lambda>u. un_id u = uncertaintyId input) (listAcceptedUncertainties (wd_core s) (di_runId input) None) of
       Some prior \<Rightarrow>
         require (same_decision input evidenceRefs prior)
           (Thrown ''Accepted uncertainty decision id already exists with different content'')
           (Inr ((prior, (case get_run (wd_core s) (di_runId input) of None \<Rightarrow> False | Some r \<Rightarrow> r_status r = Completed), None), s))
     | None \<Rightarrow>
         and_then (accept_and_adjudicate sha256 contract_digest ids t input evidenceRefs s)
           (\<lambda>((uncertainty, event), s'). Inr ((uncertainty, event \<noteq> None, event), s')))"

section \<open>What re-adjudication does to the run\<close>

lemma readjudicate_side_uncertainties:
  "readjudicate_side input c r s = Inr s' \<Longrightarrow> db_uncertainties s' = db_uncertainties s"
  by (auto simp: readjudicate_side_def Let_def set_candidate_def set_decision_def deliver_message_def)

lemma readjudicate_writes_effect:
  assumes inv: "store_inv s" and att: "get_attempt s aid = Some a"
    and run: "get_run s (a_runId a) = Some r"
    and ok: "readjudicate_writes uuid input a c r d us s = Inr (res, s')"
  shows "\<exists>r'. get_run s' (a_runId a) = Some r' \<and> r_status r' = Completed"
    and "db_uncertainties s' = db_uncertainties s"
proof -
  let ?t = "ra_timestamp input" and ?seq = "r_lastEventSeq r + 1"
  let ?g = "\<lambda>a. a\<lparr>a_status := A_completed, a_version := a_version a + 1, a_eventSequence := ?seq,
      a_updatedAt := ?t, a_completedAt := Some ?t\<rparr>"
  let ?f = "\<lambda>r. r\<lparr>r_status := Completed, r_phase := Ph_done, r_blockedReason := '''',
      r_lastEventSeq := ?seq, r_completedAt := Some ?t, r_updatedAt := ?t\<rparr>"
  from ok obtain s1 s2 s3 s6 s7 ev au where
    s1: "insert_event ev s = Inr s1"
    and s2: "cas_attempt (a_id a) (a_version a) False A_blocked ?g
       (Thrown ''Blocked Attempt changed during Candidate re-adjudication'') s1 = Inr s2"
    and s3: "cas_run (a_runId a) Blocked (a_ordinal a) ?f
       (Thrown ''Blocked TaskRun changed during Candidate re-adjudication'') s2 = Inr s3"
    and s6: "readjudicate_side input c r s3 = Inr s6"
    and s7: "finalizeAttemptProjectionCheckpoint (a_runId a) (a_id a) (a_ordinal a) ?seq ?t s6 = Inr s7"
    and s8: "insert_audit au s7 = Inr s'"
    unfolding readjudicate_writes_def Let_def by (simp only: and_then_Inr fetch_Inr) auto
  have aid: "a_id a = aid" using att by (auto dest: get_attempt_SomeD)
  note core = settle_core(1) [OF inv att run insert_event_Inr(1) [OF s1] s2 [unfolded aid] s3]
  obtain cs where s7': "s7 = s6\<lparr>db_checkpoints := cs\<rparr>" using s7 by (rule finalize_Inr)
  have rid: "r_id r = a_runId a" using run by (auto dest: get_run_SomeD)
  have "db_runs s' = upd (\<lambda>x. r_id x = a_runId a) ?f (db_runs s)"
    using same_core_sides(2) [OF s6] by (simp add: insert_audit_Inr [OF s8] s7' same_core_def core)
  with run rid have "get_run s' (a_runId a) = Some (?f r)" by (simp add: get_run_def find_key_upd_Some)
  then show "\<exists>r'. get_run s' (a_runId a) = Some r' \<and> r_status r' = Completed" by simp
  show "db_uncertainties s' = db_uncertainties s"
    using readjudicate_side_uncertainties [OF s6] by (simp add: insert_audit_Inr [OF s8] s7' core)
qed

lemma readjudicated_run:
  assumes inv: "store_inv s" and ok: "reAdjudicateBlockedCandidate uuid input s = Inr (x, s')"
    and a: "get_attempt s (ra_attemptId input) = Some a"
  shows "\<exists>r'. get_run s' (a_runId a) = Some r' \<and> r_status r' = Completed"
    and "db_uncertainties s' = db_uncertainties s"
proof -
  from ok a obtain c r d us where "get_run s (a_runId a) = Some r"
    and "readjudicate_writes uuid input a c r d us s = Inr (x, s')"
    by (auto simp: reAdjudicateBlockedCandidate_def Let_def)
  from readjudicate_writes_effect [OF inv a this]
  show "\<exists>r'. get_run s' (a_runId a) = Some r' \<and> r_status r' = Completed"
    and "db_uncertainties s' = db_uncertainties s" by blast+
qed

section \<open>The service keeps the invariants\<close>

lemma recordGateEvaluation_quiet: "recordGateEvaluation g s = Inr s' \<Longrightarrow> quiet s' s \<and> db_uncertainties s' = db_uncertainties s"
  by (auto simp: recordGateEvaluation_def quiet_def same_core_def)

lemma record_gates_quiet: "record_gates gs s = Inr s' \<Longrightarrow> quiet s' s \<and> db_uncertainties s' = db_uncertainties s"
  by (induction gs arbitrary: s) (auto simp: quiet_def same_core_def dest!: recordGateEvaluation_quiet)

lemma readjudicate_effect:
  assumes inv: "store_inv d" and att: "get_attempt d (a_id attempt) = Some attempt"
    and ok: "readjudicate sha256 ids t run attempt candidate prior latest active gates d = Inr (event, d')"
  shows "store_inv d'" and "\<exists>r'. get_run d' (a_runId attempt) = Some r' \<and> r_status r' = Completed"
    and "db_uncertainties d' = db_uncertainties d"
proof -
  from ok obtain manifest d1 x d2 y where
    d1: "record_gates (map (readjudicated_gate (gi_gate ids) run (sha256 manifest) t gates) gateTypes) d = Inr d1"
    and d2: "recordSupervisorDecision (readjudication_decision (gi_decision ids) run candidate t) d1 = Inr (x, d2)"
    and d3: "reAdjudicateBlockedCandidate (gi_transition ids)
         \<lparr>ra_attemptId = a_id attempt, ra_expectedVersion = a_version attempt, ra_candidateResultId = c_id candidate,
          ra_candidateResponseHash = c_responseHash candidate, ra_previousSupervisorDecisionId = d_id prior,
          ra_supervisorDecisionId = gi_decision ids, ra_gateEvaluationIds = map (gi_gate ids) gateTypes,
          ra_acceptedUncertaintyIds = map un_id active, ra_reason = readjudication_reason, ra_timestamp = t\<rparr> d2
        = Inr ((y, event), d')"
    by (auto simp: readjudicate_def)
  note q1 = record_gates_quiet [OF d1]
  have q2: "quiet d2 d1" "db_uncertainties d2 = db_uncertainties d1"
    using d2 recordSupervisorDecision_quiet [OF d2] by (auto simp: recordSupervisorDecision_def)
  have inv2: "store_inv d2" using inv q1 q2 by (blast intro: quiet_inv)
  have att2: "get_attempt d2 (a_id attempt) = Some attempt"
    using att q1 q2 by (simp add: get_attempt_def quiet_def same_core_def)
  show "store_inv d'" using inv2 d3 by (rule reAdjudicateBlockedCandidate_inv)
  from readjudicated_run [OF inv2 d3] att2 q1 q2
  show "\<exists>r'. get_run d' (a_runId attempt) = Some r' \<and> r_status r' = Completed"
    and "db_uncertainties d' = db_uncertainties d" by simp_all
qed

lemma acceptUncertainty_Inr:
  assumes "acceptUncertainty sha256 contract_digest input s = Inr (u, s')"
  shows "un_id u = ai_id input" "un_runId u = ai_runId input" "un_criterionId u = ai_criterionId input"
    "un_actorId u = js_trim (ai_actorId input)" "un_rationale u = js_trim (ai_rationale input)"
    "un_scope u = js_trim (ai_scope input)" "un_evidenceRefs u = trimmed_refs (ai_evidenceRefs input)"
    "un_expiresAt u = ai_expiresAt input" "un_createdAt u = ai_createdAt input"
    "case un_expiresAt u of None \<Rightarrow> True | Some x \<Rightarrow> un_createdAt u < x"
    "find (\<lambda>v. un_id v = un_id u) (db_uncertainties (wd_core s)) = Some u \<and> s' = s
     \<or> find (\<lambda>v. un_id v = un_id u) (db_uncertainties (wd_core s)) = None
       \<and> s' = set_core (\<lambda>d. d\<lparr>db_uncertainties := db_uncertainties d @ [u]\<rparr>) s"
proof -
  from assms obtain contract criterion where
    put: "store_uncertainty
          \<lparr>un_id = ai_id input, un_runId = ai_runId input, un_criterionId = ai_criterionId input,
           un_criterion = criterion, un_contractHash = contract_digest contract, un_actorId = js_trim (ai_actorId input),
           un_rationale = js_trim (ai_rationale input), un_scope = js_trim (ai_scope input),
           un_evidenceRefs = trimmed_refs (ai_evidenceRefs input),
           un_expiresAt = ai_expiresAt input, un_createdAt = ai_createdAt input\<rparr> s = Inr (u, s')"
    and exp: "case ai_expiresAt input of None \<Rightarrow> True | Some x \<Rightarrow> safe_integer x \<and> ai_createdAt input < x"
    unfolding acceptUncertainty_def bounded_def Let_def
    by (simp only: and_then_Inr fetch_Inr require_Inr refuse_Inr) blast
  have u: "u = \<lparr>un_id = ai_id input, un_runId = ai_runId input, un_criterionId = ai_criterionId input,
           un_criterion = criterion, un_contractHash = contract_digest contract, un_actorId = js_trim (ai_actorId input),
           un_rationale = js_trim (ai_rationale input), un_scope = js_trim (ai_scope input),
           un_evidenceRefs = trimmed_refs (ai_evidenceRefs input),
           un_expiresAt = ai_expiresAt input, un_createdAt = ai_createdAt input\<rparr>"
    using put by (auto simp: store_uncertainty_def split: option.splits)
  show "un_id u = ai_id input" "un_runId u = ai_runId input" "un_criterionId u = ai_criterionId input"
    "un_actorId u = js_trim (ai_actorId input)" "un_rationale u = js_trim (ai_rationale input)"
    "un_scope u = js_trim (ai_scope input)" "un_evidenceRefs u = trimmed_refs (ai_evidenceRefs input)"
    "un_expiresAt u = ai_expiresAt input" "un_createdAt u = ai_createdAt input"
    by (simp_all add: u)
  show "case un_expiresAt u of None \<Rightarrow> True | Some x \<Rightarrow> un_createdAt u < x"
    using exp by (auto simp: u split: option.splits)
  show "find (\<lambda>v. un_id v = un_id u) (db_uncertainties (wd_core s)) = Some u \<and> s' = s
     \<or> find (\<lambda>v. un_id v = un_id u) (db_uncertainties (wd_core s)) = None
       \<and> s' = set_core (\<lambda>d. d\<lparr>db_uncertainties := db_uncertainties d @ [u]\<rparr>) s"
    using put unfolding u [symmetric] by (auto simp: store_uncertainty_def split: option.splits)
qed

lemma acceptUncertainty_core:
  assumes "acceptUncertainty sha256 contract_digest input s = Inr (u, s')"
  shows "quiet (wd_core s') (wd_core s)" and "s'\<lparr>wd_core := wd_core s\<rparr> = s"
    and "u \<in> set (db_uncertainties (wd_core s'))"
  using acceptUncertainty_Inr(11) [OF assms]
  by (auto simp: set_core_def quiet_def same_core_def dest: find_SomeD)

text \<open>The transaction, read as the facts that hold when it succeeds.\<close>

lemma accept_and_adjudicate_Inr:
  assumes "accept_and_adjudicate sha256 contract_digest ids t input refs s = Inr ((u, event), s')"
  obtains run contract prior attempt candidate v s1 where
    "get_run (wd_core s) (di_runId input) = Some run" "r_contract run = Some contract" "r_status run = Blocked"
    "effectiveGateProfile (Some contract) = Gate_strict"
    "getAttemptForRun (wd_core s) (r_id run) (r_attempt run) = Some attempt"
    "acceptUncertainty sha256 contract_digest
       \<lparr>ai_id = uncertaintyId input, ai_runId = di_runId input, ai_criterionId = di_criterionId input,
        ai_actorId = di_actorId input, ai_rationale = di_rationale input, ai_scope = di_scope input,
        ai_evidenceRefs = refs, ai_expiresAt = di_expiresAt input, ai_createdAt = t\<rparr> s = Inr (v, s1)"
    "adjudicate_acceptance sha256 ids t run attempt candidate prior (latest_gate (wd_core s) (r_id run)) v s1
       = Inr ((u, event), s')"
  using assms by (auto simp: accept_and_adjudicate_def intro: that)

lemma adjudicate_acceptance_Inr:
  assumes "adjudicate_acceptance sha256 ids t run attempt candidate prior latest v s1 = Inr ((u, event), s')"
  obtains (kept) "u = v" "event = None" "s' = s1"
  | (adjudicated) ev d gate gates where "u = v" "event = Some ev" "s' = s1\<lparr>wd_core := d\<rparr>"
      "\<And>ty. ty \<in> set gateTypes \<Longrightarrow> latest ty = Some (gate ty)"
      "may_complete Gate_strict (listAcceptedUncertainties (wd_core s1) (r_id run) (Some t)) (source_gates gate)"
      "readjudicate sha256 ids t run attempt candidate prior gate
         (listAcceptedUncertainties (wd_core s1) (r_id run) (Some t)) gates (wd_core s1) = Inr (ev, d)"
proof -
  let ?gate = "\<lambda>ty. the (latest ty)"
  have gate: "latest ty = Some (?gate ty)" if "ty \<in> set gateTypes" for ty
    using assms that by (auto simp: adjudicate_acceptance_def Let_def list_all_iff)
  show thesis
    using assms by (auto simp: adjudicate_acceptance_def Let_def enforced_action final_completion_Nil
        split: if_splits intro: kept adjudicated [where gate = ?gate, OF _ _ _ gate])
qed

text \<open>The service, split into the replay of a stored decision and a new one.\<close>

lemma acceptRunUncertainty_cases:
  assumes "acceptRunUncertainty sha256 contract_digest ids t input s = Inr ((u, fin, event), s')"
  obtains (replay) "s' = s" "event = None" "u \<in> set (db_uncertainties (wd_core s))" "un_id u = uncertaintyId input"
      "same_decision input (trimmed_refs (di_evidenceRefs input)) u"
      "fin \<longleftrightarrow> (\<exists>r. get_run (wd_core s) (di_runId input) = Some r \<and> r_status r = Completed)"
  | (new) "accept_and_adjudicate sha256 contract_digest ids t input (trimmed_refs (di_evidenceRefs input)) s = Inr ((u, event), s')"
      "fin \<longleftrightarrow> event \<noteq> None"
  using assms
  by (auto simp: acceptRunUncertainty_def normalizeEvidenceRefs_def listAcceptedUncertainties_def
      split: option.splits dest!: find_SomeD intro: replay new)

lemma getAttemptForRun_get:
  assumes "store_inv d" and "getAttemptForRun d rid n = Some a"
  shows "get_attempt d (a_id a) = Some a" and "a_runId a = rid"
proof -
  from assms(2) have a: "a \<in> set (db_attempts d)" "a_runId a = rid"
    by (auto simp: getAttemptForRun_def dest: find_SomeD)
  have "distinct (map a_id (db_attempts d))"
    using assms(1) by (simp add: store_inv_def coherent_def attempts_ok_def)
  with a(1) show "get_attempt d (a_id a) = Some a" by (simp add: get_attempt_def find_key_mem)
  show "a_runId a = rid" by (rule a(2))
qed

lemma acceptUncertainty_inv:
  assumes "acceptUncertainty sha256 contract_digest input s = Inr (u, s')" and "work_inv s"
  shows "work_inv s'"
proof -
  note core = acceptUncertainty_core [OF assms(1)]
  have "store_inv (wd_core s')" using quiet_inv [OF core(1)] assms(2) by (simp add: work_inv_def)
  moreover have "s' = s\<lparr>wd_core := wd_core s'\<rparr>" using arg_cong [OF core(2), of "wd_core_update (\<lambda>_. wd_core s')"] by simp
  ultimately show ?thesis using work_inv_core [OF assms(2)] by metis
qed

text \<open>A new decision: the run, the acceptance and, when it completes, the gates.\<close>

lemma new_decision:
  assumes inv: "work_inv s"
    and ok: "accept_and_adjudicate sha256 contract_digest ids t input refs s = Inr ((u, event), s')"
  obtains run contract s1 where
    "get_run (wd_core s) (di_runId input) = Some run" "r_status run = Blocked" "r_contract run = Some contract"
    "effectiveGateProfile (Some contract) = Gate_strict"
    "acceptUncertainty sha256 contract_digest
       \<lparr>ai_id = uncertaintyId input, ai_runId = di_runId input, ai_criterionId = di_criterionId input,
        ai_actorId = di_actorId input, ai_rationale = di_rationale input, ai_scope = di_scope input,
        ai_evidenceRefs = refs, ai_expiresAt = di_expiresAt input, ai_createdAt = t\<rparr> s = Inr (u, s1)"
    "db_uncertainties (wd_core s') = db_uncertainties (wd_core s1)" "work_inv s'"
    "event = None \<Longrightarrow> s' = s1"
    "event \<noteq> None \<Longrightarrow> \<exists>r'. get_run (wd_core s') (di_runId input) = Some r' \<and> r_status r' = Completed"
    "event \<noteq> None \<Longrightarrow> \<exists>gate. (\<forall>ty\<in>set gateTypes. latest_gate (wd_core s) (di_runId input) ty = Some (gate ty))
        \<and> may_complete Gate_strict (listAcceptedUncertainties (wd_core s') (di_runId input) (Some t)) (source_gates gate)"
proof -
  from ok obtain run contract prior attempt candidate v s1 where
    run: "get_run (wd_core s) (di_runId input) = Some run" "r_status run = Blocked" "r_contract run = Some contract"
      "effectiveGateProfile (Some contract) = Gate_strict"
    and att: "getAttemptForRun (wd_core s) (r_id run) (r_attempt run) = Some attempt"
    and acc: "acceptUncertainty sha256 contract_digest
       \<lparr>ai_id = uncertaintyId input, ai_runId = di_runId input, ai_criterionId = di_criterionId input,
        ai_actorId = di_actorId input, ai_rationale = di_rationale input, ai_scope = di_scope input,
        ai_evidenceRefs = refs, ai_expiresAt = di_expiresAt input, ai_createdAt = t\<rparr> s = Inr (v, s1)"
    and adj: "adjudicate_acceptance sha256 ids t run attempt candidate prior (latest_gate (wd_core s) (r_id run)) v s1
       = Inr ((u, event), s')"
    by (rule accept_and_adjudicate_Inr)
  have rid: "r_id run = di_runId input" using run(1) by (auto dest: get_run_SomeD)
  have inv1: "work_inv s1" by (rule acceptUncertainty_inv [OF acc inv])
  have store: "store_inv (wd_core s)" and store1: "store_inv (wd_core s1)" using inv inv1 by (simp_all add: work_inv_def)
  have same: "db_attempts (wd_core s1) = db_attempts (wd_core s)"
    using acceptUncertainty_core(1) [OF acc] by (simp add: quiet_def same_core_def)
  note a = getAttemptForRun_get [OF store att]
  have a1: "get_attempt (wd_core s1) (a_id attempt) = Some attempt" using a(1) by (simp add: get_attempt_def same)
  from adj show thesis
  proof (cases rule: adjudicate_acceptance_Inr)
    case kept
    then show thesis by (intro that [OF run acc [folded kept(1)]]) (simp_all add: inv1)
  next
    case (adjudicated ev d gate gates)
    note eff = readjudicate_effect [OF store1 a1 adjudicated(6)]
    have "listAcceptedUncertainties d rid t' = listAcceptedUncertainties (wd_core s1) rid t'" for rid t'
      by (simp add: listAcceptedUncertainties_def eff(3))
    then show thesis
      using adjudicated eff a rid
      by (intro that [OF run acc [folded adjudicated(1)]]) (auto intro: work_inv_core [OF inv1])
  qed
qed

lemma acceptRunUncertainty_inv:
  assumes "work_inv s" and "acceptRunUncertainty sha256 contract_digest ids t input s = Inr ((u, fin, event), s')"
  shows "work_inv s'"
  using assms(2)
proof (cases rule: acceptRunUncertainty_cases)
  case new
  from assms(1) new(1) show ?thesis by (rule new_decision) simp
qed (use assms(1) in simp)

section \<open>Repeating a decision\<close>

lemma js_unique_idem [simp]: "js_unique (js_unique xs) = js_unique xs"
  by (simp add: js_unique_def)

lemma trimmed_refs_idem [simp]: "trimmed_refs (trimmed_refs xs) = trimmed_refs xs"
proof -
  have "\<forall>r\<in>set (trimmed_refs xs). js_trim r = r \<and> r \<noteq> ''''"
    by (auto simp: trimmed_refs_def js_unique_def)
  then have "filter (\<lambda>r. r \<noteq> '''') (map js_trim (trimmed_refs xs)) = trimmed_refs xs"
    by (simp add: map_idI cong: map_cong)
  then show ?thesis
    unfolding trimmed_refs_def [of "trimmed_refs xs"] by (simp add: trimmed_refs_def)
qed

lemma listed_acceptance:
  assumes "distinct (map un_id (db_uncertainties d))" and "u \<in> set (db_uncertainties d)"
  shows "find (\<lambda>v. un_id v = un_id u) (listAcceptedUncertainties d (un_runId u) None) = Some u"
proof (rule find_key_mem)
  have "distinct (db_uncertainties d)" "inj_on un_id (set (db_uncertainties d))"
    using assms(1) by (simp_all add: distinct_map)
  then show "distinct (map un_id (listAcceptedUncertainties d (un_runId u) None))"
    by (auto simp: listAcceptedUncertainties_def distinct_map intro: inj_on_subset)
  show "u \<in> set (listAcceptedUncertainties d (un_runId u) None)"
    using assms(2) by (simp add: listAcceptedUncertainties_def)
qed

lemma replayed_decision:
  assumes "distinct (map un_id (db_uncertainties (wd_core s)))" and "u \<in> set (db_uncertainties (wd_core s))"
    and "un_id u = uncertaintyId input" and "same_decision input (trimmed_refs (di_evidenceRefs input)) u"
    and "length (di_evidenceRefs input) \<le> 100" and "\<not> list_ex bad_ref (trimmed_refs (di_evidenceRefs input))"
  shows "acceptRunUncertainty sha256 contract_digest ids t input s
    = Inr ((u, \<exists>r. get_run (wd_core s) (di_runId input) = Some r \<and> r_status r = Completed, None), s)"
proof -
  have "un_runId u = di_runId input" using assms(4) by (simp add: same_decision_def)
  with listed_acceptance [OF assms(1,2)] assms(3)
  have "find (\<lambda>v. un_id v = uncertaintyId input) (listAcceptedUncertainties (wd_core s) (di_runId input) None) = Some u"
    by simp
  with assms(4,5,6) show ?thesis
    by (simp add: acceptRunUncertainty_def normalizeEvidenceRefs_def require_def split: option.splits)
qed

lemma accepted_refs_valid:
  assumes "acceptRunUncertainty sha256 contract_digest ids t input s = Inr res"
  shows "length (di_evidenceRefs input) \<le> 100" and "\<not> list_ex bad_ref (trimmed_refs (di_evidenceRefs input))"
  using assms by (auto simp: acceptRunUncertainty_def normalizeEvidenceRefs_def)

lemma acceptance_ids:
  assumes "acceptUncertainty sha256 contract_digest input s = Inr (u, s')"
    and "distinct (map un_id (db_uncertainties (wd_core s)))"
  shows "distinct (map un_id (db_uncertainties (wd_core s')))"
  using acceptUncertainty_Inr(11) [OF assms(1)] assms(2)
  by (auto simp: set_core_def find_None_key)

end
