(* ===== verification/Supervisor.thy ===== *)
theory Supervisor
  imports Run_Governance
begin

text \<open>
  The supervisor that reviews runs (\<open>apps/core-service/src/composition/supervisor.ts\<close>) with the
  progress snapshots it reads (\<open>adapters/persistence-sqlite/src/store.ts\<close>). What the model-backed
  reviewer answers, what other transactions do while it is awaited, the clock, the generated ids and
  the digests are arguments. The theorems show that a failed deterministic gate stands whatever the
  reviewer answers, what an executed completion rests on, and that steering is bounded.
\<close>

section \<open>Progress snapshots\<close>

record progress_snapshot =
  ps_runId :: string
  ps_attempt :: int
  ps_checkpointSeq :: int
  ps_meaningfulChanges :: int
  ps_consecutiveFailures :: int
  ps_repeatedOperations :: int
  ps_lastProgressAt :: int
  ps_lastDecisionId :: string
  ps_updatedAt :: int

record gov_db =
  gd_work :: work_db
  gd_progress :: "progress_snapshot list"

abbreviation core :: "gov_db \<Rightarrow> db" where
  "core g \<equiv> wd_core (gd_work g)"

definition getProgressSnapshot :: "gov_db \<Rightarrow> string \<Rightarrow> progress_snapshot option" where
  "getProgressSnapshot g runId = find (\<lambda>p. ps_runId p = runId) (gd_progress g)"

text \<open>\<open>String(v ?? "")\<close> on JSON values, and truthiness of a property.\<close>

fun js_String :: "jsval \<Rightarrow> string" where
  "js_String JUndefined = ''''"
| "js_String JNull = ''''"
| "js_String (JBool b) = (if b then ''true'' else ''false'')"
| "js_String (JNum (JInt n)) = show_int n"
| "js_String (JNum JNegZero) = ''0''"
| "js_String (JNum (JFrac r)) = r"
| "js_String (JNum JNonFinite) = ''NaN''"
| "js_String (JStr s) = s"
| "js_String (JArr []) = ''''"
| "js_String (JArr [v]) = js_String v"
| "js_String (JArr (v # w # vs)) = js_String v @ '','' @ js_String (JArr (w # vs))"
| "js_String (JObj _) = ''[object Object]''"
| "js_String JOpaque = ''''"

fun js_truthy :: "jsval option \<Rightarrow> bool" where
  "js_truthy None = False"
| "js_truthy (Some v) = (v \<notin> set [JUndefined, JNull, JBool False, JNum (JInt 0), JNum JNegZero, JStr ''''])"

definition text_field :: "run_event \<Rightarrow> string \<Rightarrow> string" where
  "text_field event k = (case json_extract (e_data event) k of None \<Rightarrow> '''' | Some v \<Rightarrow> js_String v)"

text \<open>The rows up to the first one that satisfies a condition, that one included.\<close>

definition up_to :: "('a \<Rightarrow> bool) \<Rightarrow> 'a list \<Rightarrow> 'a list" where
  "up_to P xs = takeWhile (\<lambda>x. \<not> P x) xs @ take 1 (dropWhile (\<lambda>x. \<not> P x) xs)"

definition repeated_calls :: "db \<Rightarrow> string \<Rightarrow> int \<Rightarrow> string \<Rightarrow> int option" where
  "repeated_calls d runId attempt callId =
     (let own = filter (\<lambda>x. ta_runId x = runId \<and> ta_attempt x = attempt) (db_toolAttempts d)
      in map_option (\<lambda>cur. int (length (takeWhile
             (\<lambda>x. ta_toolName x = ta_toolName cur \<and> ta_argsHash x = ta_argsHash cur)
             (take 8 (rev (up_to (\<lambda>x. ta_toolCallId x = callId) own))))))
           (find (\<lambda>x. ta_toolCallId x = callId) own))"

definition updateProgressSnapshot ::
  "string \<Rightarrow> int \<Rightarrow> run_event \<Rightarrow> gov_db \<Rightarrow> store_error + progress_snapshot \<times> gov_db" where
  "updateProgressSnapshot runId attempt event g =
     (let previous = getProgressSnapshot g runId;
          current = (case previous of Some p \<Rightarrow> if ps_attempt p = attempt then Some p else None | None \<Rightarrow> None);
          toolName = text_field event ''toolName'';
          isError = js_truthy (json_extract (e_data event) ''isError'');
          successful = (e_type event = ''tool.completed'' \<and> \<not> isError);
          progress = (e_type event = ''run.updated''
            \<or> successful \<and> toolName \<in> set [''write'', ''edit'', ''patch'', ''task_run'']);
          failing = (e_type event = ''tool.completed'' \<and> isError \<or> e_type event = ''tool.guard.blocked'');
          repeated0 = (case current of None \<Rightarrow> 0 | Some p \<Rightarrow> ps_repeatedOperations p);
          callId = text_field event ''toolCallId'';
          repeated = (if e_type event = ''tool.completed'' \<and> callId \<noteq> ''''
                      then (case repeated_calls (core g) runId attempt callId of None \<Rightarrow> repeated0 | Some n \<Rightarrow> n)
                      else repeated0);
          snapshot = \<lparr>ps_runId = runId, ps_attempt = attempt, ps_checkpointSeq = e_seq event,
            ps_meaningfulChanges = (case current of None \<Rightarrow> 0 | Some p \<Rightarrow> ps_meaningfulChanges p) + (if progress then 1 else 0),
            ps_consecutiveFailures =
              (if failing then (case current of None \<Rightarrow> 0 | Some p \<Rightarrow> ps_consecutiveFailures p) + 1
               else if successful \<or> progress then 0
               else (case previous of None \<Rightarrow> 0 | Some p \<Rightarrow> ps_consecutiveFailures p)),
            ps_repeatedOperations = repeated,
            ps_lastProgressAt = (if progress then e_createdAt event
              else (case previous of None \<Rightarrow> e_createdAt event | Some p \<Rightarrow> ps_lastProgressAt p)),
            ps_lastDecisionId = (case previous of None \<Rightarrow> '''' | Some p \<Rightarrow> ps_lastDecisionId p),
            ps_updatedAt = e_createdAt event\<rparr>
      in case previous of
           None \<Rightarrow> require (has_run (core g) runId) (Sql_constraint ''progress_snapshots.run_id'')
                     (Inr (snapshot, g\<lparr>gd_progress := gd_progress g @ [snapshot]\<rparr>))
         | Some _ \<Rightarrow> Inr (snapshot, g\<lparr>gd_progress := upd (\<lambda>p. ps_runId p = runId) (\<lambda>_. snapshot) (gd_progress g)\<rparr>))"

section \<open>Decisions\<close>

text \<open>What one review draws on besides the store.\<close>

record review_env =
  rv_sha256 :: "string \<Rightarrow> string"
  rv_model :: string  \<comment> \<open>\<open>reviewer.model\<close>\<close>
  rv_decisionId :: string
  rv_gateId :: "gate_type \<Rightarrow> string"
  rv_now :: int
  rv_manifestHash :: string  \<comment> \<open>the digest of what was reviewed\<close>

fun infixed :: "string \<Rightarrow> string \<Rightarrow> bool" where
  "infixed needle [] = (needle = [])"
| "infixed needle (c # s) = (starts_with needle (c # s) \<or> infixed needle s)"

text \<open>The fields of a decision after its action and reason: confidence, response, evaluator.\<close>

record decision_options =
  do_confidence :: jsnum
  do_response :: string
  do_evaluator :: "string option"
  do_evaluatorModel :: "string option"

definition plain :: decision_options where
  "plain = \<lparr>do_confidence = JInt 1, do_response = '''', do_evaluator = None, do_evaluatorModel = None\<rparr>"

definition createDecision ::
  "review_env \<Rightarrow> string \<Rightarrow> int \<Rightarrow> int \<Rightarrow> string \<Rightarrow> supervisor_action \<Rightarrow> string \<Rightarrow> string \<Rightarrow> decision_options \<Rightarrow> gov_db
   \<Rightarrow> store_error + supervisor_decision \<times> gov_db" where
  "createDecision env runId attempt checkpointSeq trigger action reasonCode rationale opts g =
     (let reviewed = (trigger = ''attempt_terminal'' \<or> trigger = ''settled'' \<and> action \<noteq> Act_wait_for_runtime);
          evaluator = (case do_evaluator opts of Some e \<Rightarrow> e | None \<Rightarrow> if reviewed then ''llm'' else ''system'');
          model = (case do_evaluatorModel opts of Some m \<Rightarrow> m | None \<Rightarrow> if reviewed then rv_model env else '''');
          described = reasonCode @ '' '' @ model;
          status = (if evaluator = ''llm'' then ''model_assessed''
                    else if list_ex (\<lambda>w. infixed w described) [''unavailable'', ''fallback'', ''recovery'']
                    then ''degraded'' else ''deterministic'');
          decision = \<lparr>d_id = rv_decisionId env, d_runId = runId, d_attempt = attempt, d_checkpointSeq = checkpointSeq,
            d_trigger = trigger, d_action = action, d_reasonCode = reasonCode, d_rationale = rationale,
            d_confidence = do_confidence opts, d_epistemicStatus = status,
            d_instruction = (if action \<in> set [Act_steer, Act_follow_up] then rationale else ''''),
            d_candidateResponseHash = rv_sha256 env (do_response opts), d_status = Dec_proposed, d_error = '''',
            d_createdAt = rv_now env, d_executedAt = None, d_evaluator = evaluator, d_evaluatorModel = model\<rparr>
      in and_then (recordSupervisorDecision decision (core g)) (\<lambda>(d, c). Inr (d, g\<lparr>gd_work := (gd_work g)\<lparr>wd_core := c\<rparr>\<rparr>)))"

section \<open>Steering at checkpoints\<close>

record supervisor_policy =
  sp_maxSteersPerAttempt :: nat
  sp_minEventsBetweenInterventions :: int
  sp_repeatedFailureThreshold :: int

definition default_policy :: supervisor_policy where
  "default_policy = \<lparr>sp_maxSteersPerAttempt = 2, sp_minEventsBetweenInterventions = 3, sp_repeatedFailureThreshold = 3\<rparr>"

definition live_steers :: "db \<Rightarrow> string \<Rightarrow> int \<Rightarrow> supervisor_decision list" where
  "live_steers d runId attempt =
     filter (\<lambda>x. d_action x = Act_steer \<and> d_status x \<in> set [Dec_proposed, Dec_executed])
       (listSupervisorDecisions d runId (Some attempt))"

definition steer_if_stuck ::
  "supervisor_policy \<Rightarrow> review_env \<Rightarrow> task_run \<Rightarrow> run_event \<Rightarrow> progress_snapshot \<Rightarrow> gov_db
   \<Rightarrow> store_error + supervisor_decision option \<times> gov_db" where
  "steer_if_stuck policy env run event snapshot g1 =
     (let repeatedFailure = (sp_repeatedFailureThreshold policy \<le> ps_consecutiveFailures snapshot);
          repeatedOperation = (sp_repeatedFailureThreshold policy \<le> ps_repeatedOperations snapshot);
          steers = live_steers (core g1) (r_id run) (r_attempt run)
      in if e_type event = ''run.updated'' \<or> \<not> repeatedFailure \<and> \<not> repeatedOperation
            \<or> sp_maxSteersPerAttempt policy \<le> length steers
            \<or> (case at_last steers of None \<Rightarrow> False
               | Some x \<Rightarrow> e_seq event - d_checkpointSeq x < sp_minEventsBetweenInterventions policy)
         then Inr (None, g1)
         else and_then (createDecision env (r_id run) (r_attempt run) (e_seq event) ''checkpoint'' Act_steer
             (if repeatedFailure then ''repeated_tool_failures'' else ''repeated_tool_operation'')
             (if repeatedFailure
              then ''Stop repeating the failing operation. Inspect the root cause and use a materially different approach. ''
                   @ show_int (ps_consecutiveFailures snapshot) @ '' consecutive tool failures were observed.''
              else ''Stop repeating the same successful operation. '' @ show_int (ps_repeatedOperations snapshot)
                   @ '' identical calls were observed without new TaskRun evidence; use the existing result or change approach.'')
             plain g1) (\<lambda>made. Inr (Some (fst made), snd made)))"

definition reviewCheckpoint ::
  "supervisor_policy \<Rightarrow> review_env \<Rightarrow> string \<Rightarrow> run_event \<Rightarrow> gov_db \<Rightarrow> store_error + supervisor_decision option \<times> gov_db" where
  "reviewCheckpoint policy env runId event g =
     (case get_run (core g) runId of
        None \<Rightarrow> Inr (None, g)
      | Some run \<Rightarrow>
          if e_type event \<notin> set [''run.updated'', ''tool.completed'', ''tool.guard.blocked''] \<or> r_status run \<noteq> Running
          then Inr (None, g)
          else and_then (updateProgressSnapshot (r_id run) (r_attempt run) event g)
            (\<lambda>updated. steer_if_stuck policy env run event (fst updated) (snd updated)))"

section \<open>Settled runs\<close>

text \<open>The view of the run under review.\<close>

record supervised_run =
  sv_run :: gate_view
  sv_status :: run_status
  sv_lastEventSeq :: int
  sv_artifacts :: "artifact list"
  sv_completionGate :: completion_gate
  sv_latestGates :: "gate_evaluation list"

text \<open>\<open>getRun\<close>, as far as the supervisor reads it.\<close>

definition supervised_view :: "(string \<Rightarrow> string) \<Rightarrow> work_db \<Rightarrow> string \<Rightarrow> store_error + supervised_run option" where
  "supervised_view sha256 s runId =
     (case (get_run (wd_core s) runId, completion_view s runId) of
        (Some r, Some view) \<Rightarrow>
          and_then (evaluateGate sha256 view s) (\<lambda>gate.
            Inr (Some \<lparr>sv_run = view, sv_status = r_status r, sv_lastEventSeq = r_lastEventSeq r,
                       sv_artifacts = filter (\<lambda>a. af_runId a = runId) (sort_key af_createdAt (wd_artifacts s)),
                       sv_completionGate = gate, sv_latestGates = listLatestGateEvaluations (wd_core s) runId\<rparr>))
      | _ \<Rightarrow> Inr None)"

record supervisor_audit =
  sa_audit :: completion_audit
  sa_confidence :: jsnum
  sa_evaluator :: "string option"
  sa_evaluatorModel :: "string option"

definition plain_gate :: "audit_failure list \<Rightarrow> string \<Rightarrow> criterion_coverage list option \<Rightarrow> audit_gate" where
  "plain_gate failures summary coverage =
     \<lparr>ag_passed = (failures = []), ag_failures = failures, ag_criterionCoverage = coverage, ag_summary = summary\<rparr>"

definition exact_mismatch :: string where
  "exact_mismatch = ''The candidate did not exactly match the requested literal output.''"

definition exact_coverage :: "bool \<Rightarrow> string \<Rightarrow> criterion_coverage" where
  "exact_coverage passed criterion =
     \<lparr>cv_criterion = criterion, cv_status = (if passed then Covered else Contradicted), cv_evidenceRefs = [],
      cv_evidenceQuotes = None, cv_acceptedUncertaintyId = None,
      cv_reason = (if passed then ''Core matched the complete candidate to the requested literal output.'' else exact_mismatch)\<rparr>"

definition reviewExactCompletion ::
  "supervised_run \<Rightarrow> string \<Rightarrow> operation_row list \<Rightarrow> bool \<Rightarrow> task_policy \<Rightarrow> supervisor_audit option" where
  "reviewExactCompletion run response operations truncated policy =
     (case gv_contract (sv_run run) of
        None \<Rightarrow> None
      | Some contract \<Rightarrow>
          if p_reviewPolicy policy \<noteq> Rev_local \<or> p_mode policy \<noteq> Exact_delivery then None
          else (case p_exactOutput policy of
             None \<Rightarrow> None
           | Some output \<Rightarrow>
               let expected = js_trim output;
                   passed = (\<not> truncated \<and> js_trim response = expected \<and> operations = [] \<and> sv_artifacts run = []);
                   mismatch = \<lparr>fl_kind = ''contract'', fl_key = ''exact_output'', fl_reason = exact_mismatch, fl_disposition = Auto_fixable\<rparr>;
                   failures = (if passed then [] else [mismatch])
               in if expected = '''' then None
                  else Some \<lparr>sa_audit = \<lparr>au_action = (if passed then Act_complete_taskrun else Act_start_continuation),
                      au_reasonCode = (if passed then ''exact_delivery_validated'' else ''exact_delivery_mismatch''),
                      au_rationale = (if passed then ''Core exactly matched the requested literal delivery.'' else exact_mismatch),
                      au_gates = \<lparr>gs_progress = plain_gate [] ''Exact delivery requires no execution plan.'' None,
                        gs_evidence = plain_gate [] ''Exact delivery requires no external evidence.'' None,
                        gs_contract = plain_gate failures (if passed then ''The candidate exactly matches the requested literal output.'' else exact_mismatch)
                          (Some (map (exact_coverage passed) (k_acceptanceCriteria contract))),
                        gs_completion = plain_gate failures (if passed then ''Exact delivery validation passed.'' else exact_mismatch) None,
                        gs_continuation = plain_gate [] (if passed then ''No continuation is required.''
                          else ''A corrected literal response can be produced automatically.'') None\<rparr>\<rparr>,
                      sa_confidence = JInt 1, sa_evaluator = Some ''system'',
                      sa_evaluatorModel = Some ''deterministic-exact-delivery-v1''\<rparr>))"

definition to_failure :: "gate_failure \<Rightarrow> audit_failure" where
  "to_failure f = \<lparr>fl_kind = gf_kind f, fl_key = gf_key f, fl_reason = gf_reason f, fl_disposition = Auto_fixable\<rparr>"

definition plan_kinds :: "string list" where
  "plan_kinds = [''plan'', ''plan_item'', ''plan_dependency'', ''plan_coverage'', ''plan_evidence'']"

definition prerequisite_gates :: "audit_failure list \<Rightarrow> audit_failure list \<Rightarrow> string list \<Rightarrow> audit_gates" where
  "prerequisite_gates planFailures checkFailures criteria =
     \<lparr>gs_progress = plain_gate planFailures
        (if planFailures \<noteq> [] then ''Required plan work is incomplete.'' else ''Required plan work is complete.'') None,
      gs_evidence = plain_gate checkFailures
        (if checkFailures \<noteq> [] then ''Required check evidence is missing, failed, or stale.''
         else ''Required check evidence prerequisites pass.'') None,
      gs_contract = (if criteria \<noteq> []
        then \<lparr>ag_passed = False, ag_failures = [], ag_criterionCoverage = None,
              ag_summary = ''Not evaluated yet; semantic contract review runs after deterministic plan and check prerequisites pass.''\<rparr>
        else plain_gate [] ''No acceptance criteria require semantic coverage.'' None),
      gs_completion = plain_gate (planFailures @ checkFailures) ''Completion is blocked by authoritative deterministic prerequisites.'' None,
      gs_continuation = plain_gate [] ''The prerequisite failures are automatically repairable.'' None\<rparr>"

definition reviewDeterministicPrerequisites :: "supervised_run \<Rightarrow> supervisor_audit option" where
  "reviewDeterministicPrerequisites run =
     (let local = cg_failures (sv_completionGate run);
          planFailures = map to_failure (filter (\<lambda>f. gf_kind f \<in> set plan_kinds) local);
          checkFailures = map to_failure (filter (\<lambda>f. gf_kind f = ''check'') local);
          criteria = (case gv_contract (sv_run run) of None \<Rightarrow> [] | Some k \<Rightarrow> k_acceptanceCriteria k)
      in if cg_passed (sv_completionGate run) then None
         else if gv_contract (sv_run run) = None \<and> list_ex (\<lambda>f. gf_kind f = ''plan'' \<and> gf_key f = ''plan'') local then None
         else if length planFailures + length checkFailures \<noteq> length local then None
         else Some \<lparr>sa_audit = \<lparr>au_action = Act_start_continuation,
             au_reasonCode = (if planFailures \<noteq> [] then ''deterministic_plan_incomplete'' else ''deterministic_check_incomplete''),
             au_rationale = ''Skipped semantic Supervisor call because '' @ show_nat (length local)
               @ '' authoritative prerequisite failure(s) require repair in a new Attempt.'',
             au_gates = prerequisite_gates planFailures checkFailures criteria\<rparr>,
             sa_confidence = JInt 1, sa_evaluator = None, sa_evaluatorModel = None\<rparr>)"

definition reapproval_failure :: audit_failure where
  "reapproval_failure = \<lparr>fl_kind = ''approval'', fl_key = ''external_action_attempt_authorization'',
     fl_reason = ''A new Attempt cannot inherit external-action authorization activated for an earlier Attempt; explicit approval is required before continuation.'',
     fl_disposition = Needs_approval\<rparr>"

definition fail_gate :: "audit_failure \<Rightarrow> audit_gate \<Rightarrow> audit_gate" where
  "fail_gate f gate = gate\<lparr>ag_passed := False, ag_failures := ag_failures gate @ [f], ag_summary := fl_reason f\<rparr>"

definition requireExternalContinuationApproval :: "completion_audit \<Rightarrow> task_policy \<Rightarrow> completion_audit" where
  "requireExternalContinuationApproval source policy =
     (if p_mode policy \<noteq> External_action \<or> au_action source \<notin> set [Act_start_continuation, Act_wait_for_runtime] then source
      else let gates = au_gates source
           in \<lparr>au_action = Act_pause_for_approval, au_reasonCode = ''external_action_reapproval_required'',
               au_rationale = fl_reason reapproval_failure,
               au_gates = gates\<lparr>gs_completion := fail_gate reapproval_failure (gs_completion gates),
                               gs_continuation := fail_gate reapproval_failure (gs_continuation gates)\<rparr>\<rparr>)"

definition op_view :: "operation_row \<Rightarrow> policy_operation_view" where
  "op_view x = \<lparr>ov_operationType = op_type x, ov_status = op_status x, ov_attempt = op_attempt x, ov_effects = Some (op_effects x)\<rparr>"

text \<open>Which of the reviewer's methods is called.\<close>

datatype review_kind = Review_relaxed | Review_semantic_lite | Review_settled

definition linked_refs :: "supervised_run \<Rightarrow> string list" where
  "linked_refs run =
     concat (map evidence_of (gv_plan (sv_run run)))
     @ concat (map (\<lambda>c. cv_evidenceRefs c @ (case cv_evidenceQuotes c of None \<Rightarrow> [] | Some qs \<Rightarrow> map eq_sourceRef qs))
         (concat (map (\<lambda>g. case ge_criterionCoverage g of None \<Rightarrow> [] | Some cs \<Rightarrow> cs) (sv_latestGates run))))"

definition review_operations :: "supervised_run \<Rightarrow> db \<Rightarrow> operation_row list" where
  "review_operations run d =
     listOperations d (gv_id (sv_run run)) (Some 16)
       (List.map_filter (\<lambda>c. case ck_sourceOperationId c of None \<Rightarrow> None | Some i \<Rightarrow> if i = '''' then None else Some i) (gv_checks (sv_run run))
        @ map (drop 10) (filter (starts_with ''operation:'') (linked_refs run)))"

text \<open>
  The audit before it is corrected: a deterministic one, or the reviewer's answer. With it, the
  deterministic kind and the policy the audit is judged under.
\<close>

definition proposed_audit ::
  "supervised_run \<Rightarrow> string \<Rightarrow> bool \<Rightarrow> (review_kind \<Rightarrow> store_error + supervisor_audit) \<Rightarrow> (review_kind \<Rightarrow> bool) \<Rightarrow> db
   \<Rightarrow> store_error + string option \<times> supervisor_audit \<times> task_policy" where
  "proposed_audit run response truncated answer offers d =
     (let profile = effectiveGateProfile (gv_contract (sv_run run));
          prerequisite = (if profile = Gate_strict then reviewDeterministicPrerequisites run else None);
          operations = (if prerequisite = None then review_operations run d else []);
          policy = effectiveTaskExecutionPolicy (gv_contract (sv_run run)) (map op_view operations) (Some (gv_attempt (sv_run run)));
          exact = (if prerequisite \<noteq> None \<or> profile \<noteq> Gate_strict then None
                   else reviewExactCompletion run response operations truncated policy);
          kind = (if profile = Gate_relaxed \<and> offers Review_relaxed then Review_relaxed
                  else if p_reviewPolicy policy = Rev_semantic_lite \<and> offers Review_semantic_lite then Review_semantic_lite
                  else Review_settled)
      in case (prerequisite, exact) of
           (Some a, _) \<Rightarrow> Inr (Some ''deterministic-prerequisite-gate'', a, policy)
         | (None, Some a) \<Rightarrow> Inr (Some ''deterministic-exact-delivery-v1'', a, policy)
         | (None, None) \<Rightarrow> and_then (answer kind) (\<lambda>a. Inr (None, a, policy)))"

definition reviewed_gate :: "review_env \<Rightarrow> supervised_run \<Rightarrow> int \<Rightarrow> string \<Rightarrow> string \<Rightarrow> audit_gates \<Rightarrow> gate_type \<Rightarrow> gate_evaluation" where
  "reviewed_gate env run checkpointSeq evaluator model gates ty =
     (let g = gate_at gates ty
      in \<lparr>ge_id = rv_gateId env ty, ge_runId = gv_id (sv_run run), ge_attempt = gv_attempt (sv_run run),
          ge_checkpointSeq = checkpointSeq, ge_gateType = ty, ge_evaluator = evaluator, ge_evaluatorModel = model,
          ge_summary = ag_summary g, ge_passed = ag_passed g, ge_failures = ag_failures g,
          ge_criterionCoverage = ag_criterionCoverage g, ge_inputManifestHash = rv_manifestHash env, ge_createdAt = rv_now env\<rparr>)"

text \<open>The correction of the proposed audit and what is recorded of it.\<close>

definition record_review ::
  "review_env \<Rightarrow> supervised_run \<Rightarrow> int \<Rightarrow> string \<Rightarrow> string option \<Rightarrow> supervisor_audit \<Rightarrow> task_policy \<Rightarrow> gov_db
   \<Rightarrow> store_error + (gate_evaluation list \<times> supervisor_decision) \<times> gov_db" where
  "record_review env run checkpointSeq response deterministic proposed policy g1 =
     (let runId = gv_id (sv_run run);
          accepted = listAcceptedUncertainties (core g1) runId (Some (rv_now env));
          audit = enforceCompletionAuditAlgebra (requireExternalContinuationApproval (sa_audit proposed) policy)
                    (effectiveGateProfile (gv_contract (sv_run run))) accepted;
          evaluator = (case deterministic of Some _ \<Rightarrow> ''system''
                       | None \<Rightarrow> (case sa_evaluator proposed of None \<Rightarrow> ''llm'' | Some e \<Rightarrow> e));
          model = (case deterministic of Some m \<Rightarrow> m
                   | None \<Rightarrow> (case sa_evaluatorModel proposed of None \<Rightarrow> rv_model env | Some m \<Rightarrow> m));
          gates = map (reviewed_gate env run checkpointSeq evaluator model (au_gates audit)) gateTypes
      in and_then (record_gates gates (core g1)) (\<lambda>c.
         and_then (createDecision env runId (gv_attempt (sv_run run)) checkpointSeq ''settled'' (au_action audit) (au_reasonCode audit)
             (au_rationale audit) \<lparr>do_confidence = sa_confidence proposed, do_response = response,
               do_evaluator = Some evaluator, do_evaluatorModel = Some model\<rparr>
             (g1\<lparr>gd_work := (gd_work g1)\<lparr>wd_core := c\<rparr>\<rparr>)) (\<lambda>(d, g2). Inr ((gates, d), g2))))"

text \<open>\<open>meanwhile\<close> is what other transactions did to the store while the reviewer was awaited.\<close>

definition reviewSettled ::
  "review_env \<Rightarrow> supervised_run \<Rightarrow> int \<Rightarrow> string \<Rightarrow> bool \<Rightarrow> (review_kind \<Rightarrow> store_error + supervisor_audit) \<Rightarrow> (review_kind \<Rightarrow> bool)
   \<Rightarrow> (gov_db \<Rightarrow> gov_db) \<Rightarrow> gov_db \<Rightarrow> store_error + (gate_evaluation list \<times> supervisor_decision) \<times> gov_db" where
  "reviewSettled env run checkpointSeq response truncated answer offers meanwhile g =
     (let runId = gv_id (sv_run run); attempt = gv_attempt (sv_run run);
          pending = filter (\<lambda>c. ci_attempt c = attempt \<and> ci_status c \<in> set [Ctl_queued, Ctl_delivering])
                      (listControlInbox (core g) runId);
          profile = effectiveGateProfile (gv_contract (sv_run run))
      in if pending \<noteq> [] then
           and_then (createDecision env runId attempt checkpointSeq ''settled'' Act_wait_for_runtime ''pending_control_delivery''
               (show_nat (length pending) @ '' durable control message(s) are still pending delivery.'')
               (plain\<lparr>do_response := response\<rparr>) g) (\<lambda>(d, g'). Inr (([], d), g'))
         else if profile = Gate_off then
           and_then (createDecision env runId attempt checkpointSeq ''settled'' Act_complete_taskrun ''gate_disabled''
               ''Completion acceptance was disabled for this TaskRun; the candidate was delivered without a Gate audit.''
               \<lparr>do_confidence = JInt 1, do_response = response, do_evaluator = Some ''system'', do_evaluatorModel = Some ''gate-disabled-v1''\<rparr> g)
             (\<lambda>(d, g'). Inr (([], d), g'))
         else
           and_then (proposed_audit run response truncated answer offers (core g)) (\<lambda>reviewed.
           record_review env run checkpointSeq response (fst reviewed) (fst (snd reviewed)) (snd (snd reviewed))
             (if fst reviewed = None then meanwhile g else g)))"

section \<open>Other decisions of the supervisor\<close>

definition recordReviewFailure :: "review_env \<Rightarrow> supervised_run \<Rightarrow> int \<Rightarrow> string \<Rightarrow> gov_db \<Rightarrow> store_error + supervisor_decision \<times> gov_db" where
  "recordReviewFailure env run checkpointSeq err g =
     createDecision env (gv_id (sv_run run)) (gv_attempt (sv_run run)) checkpointSeq ''settled'' Act_block_taskrun ''supervisor_review_failed''
       (''Supervisor quality review could not produce a valid structured audit. The Agent result is preserved for audit and no automatic continuation was started. '' @ err)
       plain g"

definition proposeParallelTaskStart :: "review_env \<Rightarrow> string \<Rightarrow> string \<Rightarrow> string \<Rightarrow> gov_db \<Rightarrow> store_error + supervisor_decision \<times> gov_db" where
  "proposeParallelTaskStart env parentRunId inboxItemId summary g =
     fetch (get_run (core g) parentRunId) (Thrown ''Parent TaskRun not found'') (\<lambda>r.
       createDecision env (r_id r) (r_attempt r) (r_lastEventSeq r) ''manual'' Act_pause_for_approval ''parallel_task_start_requested''
         (''Start related Session Inbox task '' @ inboxItemId @ '': '' @ summary) plain g)"

definition proposeExternalActionStart :: "review_env \<Rightarrow> string \<Rightarrow> string \<Rightarrow> gov_db \<Rightarrow> store_error + supervisor_decision \<times> gov_db" where
  "proposeExternalActionStart env runId summary g =
     fetch (get_run (core g) runId) (Thrown ''TaskRun not found'') (\<lambda>r.
       createDecision env (r_id r) (r_attempt r) (r_lastEventSeq r) ''manual'' Act_pause_for_approval ''external_action_approval_required''
         (''Approve external action before execution: '' @ summary) plain g)"

definition markExecuted :: "int \<Rightarrow> string \<Rightarrow> decision_status \<Rightarrow> string \<Rightarrow> gov_db \<Rightarrow> string option \<times> gov_db" where
  "markExecuted t did status err g =
     (let (rid, c) = updateSupervisorDecision t did status err (core g)
      in (rid, g\<lparr>gd_work := (gd_work g)\<lparr>wd_core := c\<rparr>\<rparr>))"

section \<open>Steering is bounded\<close>

lemma recordSupervisorDecision_Inr:
  "recordSupervisorDecision x d = Inr (y, d') \<Longrightarrow> y = x \<and> d' = d\<lparr>db_decisions := db_decisions d @ [x]\<rparr>"
  by (auto simp: recordSupervisorDecision_def)

lemma createDecision_Inr:
  assumes "createDecision env runId attempt seq trigger action code rationale opts g = Inr (x, g')"
  shows "d_runId x = runId" "d_attempt x = attempt" "d_action x = action" "d_status x = Dec_proposed"
    "g' = g\<lparr>gd_work := (gd_work g)\<lparr>wd_core := (core g)\<lparr>db_decisions := db_decisions (core g) @ [x]\<rparr>\<rparr>\<rparr>"
proof -
  from assms obtain y c where rec: "recordSupervisorDecision y (core g) = Inr (x, c)"
    and g': "g' = g\<lparr>gd_work := (gd_work g)\<lparr>wd_core := c\<rparr>\<rparr>"
    and y: "d_runId y = runId" "d_attempt y = attempt" "d_action y = action" "d_status y = Dec_proposed"
    by (auto simp: createDecision_def Let_def)
  from recordSupervisorDecision_Inr [OF rec]
  show "d_runId x = runId" "d_attempt x = attempt" "d_action x = action" "d_status x = Dec_proposed"
    "g' = g\<lparr>gd_work := (gd_work g)\<lparr>wd_core := (core g)\<lparr>db_decisions := db_decisions (core g) @ [x]\<rparr>\<rparr>\<rparr>"
    by (simp_all add: y g')
qed

definition is_live_steer :: "string \<Rightarrow> int \<Rightarrow> supervisor_decision \<Rightarrow> bool" where
  "is_live_steer runId attempt x \<longleftrightarrow>
     d_runId x = runId \<and> d_attempt x = attempt \<and> d_action x = Act_steer \<and> d_status x \<in> {Dec_proposed, Dec_executed}"

lemma length_filter_sort: "length (filter P (sort_key f xs)) = length (filter P xs)"
  by (simp add: filter_sort)

lemma length_live_steers: "length (live_steers d runId attempt) = cnt (is_live_steer runId attempt) (db_decisions d)"
proof -
  have "is_live_steer runId attempt = (\<lambda>x. (d_runId x = runId \<and> d_attempt x = attempt)
      \<and> d_action x = Act_steer \<and> d_status x \<in> set [Dec_proposed, Dec_executed])"
    by (auto simp: is_live_steer_def fun_eq_iff)
  then show ?thesis
    by (simp add: live_steers_def listSupervisorDecisions_def length_filter_sort cnt_def conj_ac)
qed

lemma cnt_append: "cnt P (xs @ ys) = cnt P xs + cnt P ys"
  by (simp add: cnt_def)

lemma updateProgressSnapshot_core:
  "updateProgressSnapshot runId attempt event g = Inr (p, g') \<Longrightarrow> gd_work g' = gd_work g"
  by (auto simp: updateProgressSnapshot_def Let_def split: option.splits)

lemma reviewCheckpoint_cases:
  assumes "reviewCheckpoint policy env runId event g = Inr (x, g')"
  obtains (none) "x = None" "gd_work g' = gd_work g"
  | (steer) d run g1 where "x = Some d" "get_run (core g) runId = Some run" "r_status run = Running" "gd_work g1 = gd_work g"
      "length (live_steers (core g) runId (r_attempt run)) < sp_maxSteersPerAttempt policy"
      "d_runId d = runId" "d_attempt d = r_attempt run" "d_action d = Act_steer" "d_status d = Dec_proposed"
      "g' = g1\<lparr>gd_work := (gd_work g1)\<lparr>wd_core := (core g1)\<lparr>db_decisions := db_decisions (core g1) @ [d]\<rparr>\<rparr>\<rparr>"
proof (cases "get_run (core g) runId")
  case None
  with assms show thesis by (intro none) (simp_all add: reviewCheckpoint_def)
next
  case run: (Some run)
  show thesis
  proof (cases "e_type event \<notin> set [''run.updated'', ''tool.completed'', ''tool.guard.blocked''] \<or> r_status run \<noteq> Running")
    case True
    with assms run show thesis by (intro none) (simp_all add: reviewCheckpoint_def)
  next
    case False
    have rid: "r_id run = runId" using run by (auto dest: get_run_SomeD)
    from False assms run obtain p g1 where p: "updateProgressSnapshot (r_id run) (r_attempt run) event g = Inr (p, g1)"
      and rest: "steer_if_stuck policy env run event p g1 = Inr (x, g')"
      by (auto simp: reviewCheckpoint_def)
    note core = updateProgressSnapshot_core [OF p]
    show thesis
    proof (cases x)
      case None
      with rest core show thesis
        by (intro none) (auto simp: steer_if_stuck_def Let_def split: if_splits)
    next
      case (Some d)
      from rest Some obtain code rationale where
        few: "\<not> sp_maxSteersPerAttempt policy \<le> length (live_steers (core g1) (r_id run) (r_attempt run))"
        and c: "createDecision env (r_id run) (r_attempt run) (e_seq event) ''checkpoint'' Act_steer code rationale plain g1 = Inr (d, g')"
        by (auto simp: steer_if_stuck_def Let_def split: if_splits)
      note d = createDecision_Inr [OF c]
      show thesis
        by (rule steer [OF Some run _ core _ d [unfolded rid]]) (use few False core rid in \<open>simp_all add: not_le\<close>)
    qed
  qed
qed

section \<open>The deterministic gate is a floor\<close>

lemma kinds_of_parts:
  "f \<in> set (dependency_failures plan i) \<Longrightarrow> gf_kind f = ''plan_dependency''"
  "f \<in> set (coverage_failures run sem) \<Longrightarrow> gf_kind f = ''plan_coverage''"
  "f \<in> set (check_failures d run c) \<Longrightarrow> gf_kind f = ''check''"
  "evidence_failures sha256 s run i = Inr fs \<Longrightarrow> f \<in> set fs \<Longrightarrow> gf_kind f = ''plan_evidence''"
  by (auto simp: dependency_failures_def coverage_failures_def check_failures_def evidence_failures_def failure_def Let_def
      split: option.splits if_splits)

lemma semantic_kinds:
  assumes "semantic_failures sha256 s run sem = Inr fs" and "f \<in> set fs"
  shows "gf_kind f \<in> set plan_kinds"
proof -
  from assms(1) obtain evidence where
    ev: "map (evidence_failures sha256 s run) (filter (\<lambda>i. pi_status i = Plan_done) sem) = map Inr evidence"
    and fs: "fs = map (\<lambda>key. failure ''plan_dependency'' key ''Plan dependency graph contains a cycle'') (cyclicPlanItemKeys (gv_plan run))
             @ concat (map (dependency_failures (gv_plan run)) sem) @ concat evidence @ coverage_failures run sem"
    by (auto simp: semantic_failures_def collect_results_Inr)
  have "gf_kind f = ''plan_evidence''" if "e \<in> set evidence" "f \<in> set e" for e
  proof -
    from that(1) have "Inr e \<in> set (map (evidence_failures sha256 s run) (filter (\<lambda>i. pi_status i = Plan_done) sem))"
      unfolding ev by simp
    then obtain i where "evidence_failures sha256 s run i = Inr e" by auto
    with that(2) show ?thesis by (rule kinds_of_parts(4) [rotated])
  qed
  with assms(2) show ?thesis
    by (auto simp: fs plan_kinds_def failure_def dest: kinds_of_parts)
qed

lemma evaluateGate_kinds:
  assumes "evaluateGate sha256 run s = Inr gate" and "f \<in> set (cg_failures gate)"
  shows "gf_kind f \<in> set plan_kinds \<or> gf_kind f = ''check''"
proof (cases "\<not> gv_gateRequired run \<or> effectiveGateProfile (gv_contract run) = Gate_relaxed")
  case True
  with assms show ?thesis by (auto simp: evaluateGate_def)
next
  case False
  let ?plan = "filter pi_required (gv_plan run)" and ?checks = "filter ck_required (gv_checks run)"
  let ?policy = "gate_policy (wd_core s) run"
  let ?sem = "filter (\<lambda>i. pi_meta i \<noteq> None) ?plan"
  let ?planned = "if ?plan = [] \<and> p_mode ?policy \<in> set [Read_only_analysis, Workspace_mutation, External_action]
      then [failure ''plan'' ''plan'' ''No required plan items''] else []"
  let ?items = "map (\<lambda>i. failure ''plan_item'' (pi_key i) (''Required plan item is '' @ plan_status_name (pi_status i)))
      (filter (\<lambda>i. pi_status i \<noteq> Plan_done) ?plan)"
  let ?check = "concat (map (check_failures (wd_core s) run) ?checks)"
  let ?trusted = "if p_evidencePolicy ?policy = Ev_trusted_check \<and> ?checks = []
      then [failure ''check'' ''trusted_evidence'' ''Change, verify, and release work requires at least one trusted required check''] else []"
  have "and_then (if ?sem = [] then Inr [] else semantic_failures sha256 s run ?sem)
      (\<lambda>fs. Inr \<lparr>cg_passed = (?planned @ ?items @ fs @ ?check @ ?trusted = []),
                 cg_failures = ?planned @ ?items @ fs @ ?check @ ?trusted\<rparr>) = Inr gate"
    using assms(1) unfolding evaluateGate_def Let_def if_not_P [OF False] .
  then obtain semantic where
    sem: "(if ?sem = [] then Inr [] else semantic_failures sha256 s run ?sem) = Inr semantic"
    and g: "gate = \<lparr>cg_passed = (?planned @ ?items @ semantic @ ?check @ ?trusted = []),
                 cg_failures = ?planned @ ?items @ semantic @ ?check @ ?trusted\<rparr>"
    unfolding and_then_Inr by blast
  have fs: "cg_failures gate = ?planned @ ?items @ semantic @ ?check @ ?trusted" unfolding g by (rule completion_gate.select_convs)
  have "gf_kind f \<in> set plan_kinds" if "f \<in> set semantic"
    using that sem semantic_kinds [of sha256 s run ?sem semantic f] by (cases "?sem = []") auto
  moreover have "gf_kind f = ''check''" if "f \<in> set ?check" using that by (auto dest: kinds_of_parts(3))
  moreover have "gf_kind f \<in> {''plan'', ''plan_item'', ''check''}" if "f \<in> set ?planned \<union> set ?items \<union> set ?trusted"
    using that by (auto simp: failure_def split: if_splits)
  moreover have "f \<in> set semantic \<or> f \<in> set ?check \<or> f \<in> set ?planned \<union> set ?items \<union> set ?trusted"
    using assms(2) unfolding fs set_append by blast
  moreover have "set plan_kinds \<union> {''plan'', ''plan_item'', ''check''} = set plan_kinds \<union> {''check''}"
    by (auto simp: plan_kinds_def)
  ultimately show ?thesis by blast
qed

lemma gate_of_failures:
  "and_then x (\<lambda>fs. Inr \<lparr>cg_passed = (F fs = []), cg_failures = F fs\<rparr>) = Inr gate \<Longrightarrow>
   cg_passed gate \<longleftrightarrow> cg_failures gate = []"
  by auto

lemma evaluateGate_passed:
  assumes "evaluateGate sha256 run s = Inr gate"
  shows "cg_passed gate \<longleftrightarrow> cg_failures gate = []"
proof (cases "\<not> gv_gateRequired run \<or> effectiveGateProfile (gv_contract run) = Gate_relaxed")
  case True
  with assms show ?thesis by (auto simp: evaluateGate_def)
next
  case False
  show ?thesis
    using assms unfolding evaluateGate_def Let_def if_not_P [OF False] by (rule gate_of_failures)
qed

lemma prerequisites_found:
  assumes gate: "evaluateGate sha256 view s = Inr (sv_completionGate run)" and bad: "\<not> cg_passed (sv_completionGate run)"
    and contract: "gv_contract (sv_run run) \<noteq> None"
  obtains a where "reviewDeterministicPrerequisites run = Some a"
    "ag_failures (gs_progress (au_gates (sa_audit a))) @ ag_failures (gs_evidence (au_gates (sa_audit a))) \<noteq> []"
    "ag_failures (gs_contract (au_gates (sa_audit a))) = []" "ag_criterionCoverage (gs_contract (au_gates (sa_audit a))) = None"
    "\<And>f. f \<in> set (ag_failures (gs_progress (au_gates (sa_audit a))) @ ag_failures (gs_evidence (au_gates (sa_audit a)))
              @ ag_failures (gs_completion (au_gates (sa_audit a)))) \<Longrightarrow> fl_disposition f = Auto_fixable"
proof -
  let ?local = "cg_failures (sv_completionGate run)"
  let ?p = "filter (\<lambda>f. gf_kind f \<in> set plan_kinds) ?local" and ?c = "filter (\<lambda>f. gf_kind f = ''check'') ?local"
  have "?c = filter (\<lambda>f. gf_kind f \<notin> set plan_kinds) ?local"
    using evaluateGate_kinds [OF gate] by (intro filter_cong) (auto simp: plan_kinds_def)
  then have split: "length ?p + length ?c = length ?local"
    using sum_length_filter_compl [of "\<lambda>f. gf_kind f \<in> set plan_kinds" ?local] by simp
  have "?local \<noteq> []" using evaluateGate_passed [OF gate] bad by simp
  with split have some: "?p \<noteq> [] \<or> ?c \<noteq> []" by (metis add_0 length_0_conv)
  obtain a criteria where a: "reviewDeterministicPrerequisites run = Some a"
    and "au_gates (sa_audit a) = prerequisite_gates (map to_failure ?p) (map to_failure ?c) criteria"
    using contract bad split by (simp add: reviewDeterministicPrerequisites_def Let_def)
  then have gates: "ag_failures (gs_progress (au_gates (sa_audit a))) = map to_failure ?p"
    "ag_failures (gs_evidence (au_gates (sa_audit a))) = map to_failure ?c"
    "ag_failures (gs_completion (au_gates (sa_audit a))) = map to_failure ?p @ map to_failure ?c"
    "ag_failures (gs_contract (au_gates (sa_audit a))) = []" "ag_criterionCoverage (gs_contract (au_gates (sa_audit a))) = None"
    by (simp_all add: prerequisite_gates_def plain_gate_def)
  show thesis
    by (rule that [OF a _ gates(4,5)]) (use some in \<open>auto simp: gates(1-3) to_failure_def\<close>)
qed

lemma derive_repairable:
  assumes "fs \<noteq> []" and "\<And>f. f \<in> set fs \<Longrightarrow> fl_disposition f \<in> {Auto_fixable, Needs_approval}"
  shows "deriveSupervisorAction fs \<in> {Act_pause_for_approval, Act_start_continuation}"
proof -
  have "fl_disposition f \<notin> set [Needs_user_input, External_dependency, Non_recoverable]" if "f \<in> set fs" for f
    using assms(2) [OF that] by auto
  then have "\<not> list_ex (\<lambda>f. fl_disposition f \<in> set [Needs_user_input, External_dependency, Non_recoverable]) fs"
    unfolding list_ex_iff by blast
  with assms(1) show ?thesis unfolding deriveSupervisorAction_def by (simp only: if_False simp_thms) simp
qed

lemma repairable_action:
  assumes some: "ag_failures (gs_progress gates) @ ag_failures (gs_evidence gates) \<noteq> []"
    and contract: "ag_failures (gs_contract gates) = []" "ag_criterionCoverage (gs_contract gates) = None"
    and fixable: "\<And>f. f \<in> set (ag_failures (gs_progress gates) @ ag_failures (gs_evidence gates) @ ag_failures (gs_completion gates))
        \<Longrightarrow> fl_disposition f \<in> {Auto_fixable, Needs_approval}"
  shows "deriveSupervisorAction (ag_failures (final_completion profile accepted gates))
     \<in> {Act_pause_for_approval, Act_start_continuation}"
proof -
  let ?keys = "acceptedFailureKeys accepted (ag_criterionCoverage (gs_contract gates))"
  let ?xs = "ag_failures (excuse_failures ?keys (gs_completion gates)) @ ag_failures (gs_progress gates)
      @ ag_failures (gs_evidence gates) @ ag_failures (final_contract profile accepted (gs_contract gates))"
  have none: "ag_failures (final_contract profile accepted (gs_contract gates)) = []"
    using contract by (simp add: final_contract_failures_Nil indexed_def)
  have fs: "ag_failures (final_completion profile accepted gates) = uniqueFailures ?xs"
    using some by (subst final_completion_eq [OF refl]) auto
  show ?thesis
    unfolding fs
  proof (rule derive_repairable)
    show "uniqueFailures ?xs \<noteq> []" using some by auto
    fix f assume "f \<in> set (uniqueFailures ?xs)"
    then have "f \<in> set ?xs" using uniqueFailures_subset by blast
    then show "fl_disposition f \<in> {Auto_fixable, Needs_approval}"
      using fixable none by (auto simp: excused_filter)
  qed
qed

lemma approval_gates:
  "gs_progress (au_gates (requireExternalContinuationApproval a policy)) = gs_progress (au_gates a)"
  "gs_evidence (au_gates (requireExternalContinuationApproval a policy)) = gs_evidence (au_gates a)"
  "gs_contract (au_gates (requireExternalContinuationApproval a policy)) = gs_contract (au_gates a)"
  "f \<in> set (ag_failures (gs_completion (au_gates (requireExternalContinuationApproval a policy)))) \<Longrightarrow>
     f \<in> set (ag_failures (gs_completion (au_gates a))) \<or> fl_disposition f = Needs_approval"
  by (auto simp: requireExternalContinuationApproval_def Let_def fail_gate_def reapproval_failure_def split: if_splits)

lemma record_review_Inr:
  assumes "record_review env run seq response det proposed policy g1 = Inr ((gates, d), g')"
  obtains accepted evaluator model c where
      "accepted = listAcceptedUncertainties (core g1) (gv_id (sv_run run)) (Some (rv_now env))"
      "gates = map (reviewed_gate env run seq evaluator model (au_gates (enforceCompletionAuditAlgebra
          (requireExternalContinuationApproval (sa_audit proposed) policy) (effectiveGateProfile (gv_contract (sv_run run))) accepted))) gateTypes"
      "d_action d = au_action (enforceCompletionAuditAlgebra
          (requireExternalContinuationApproval (sa_audit proposed) policy) (effectiveGateProfile (gv_contract (sv_run run))) accepted)"
      "record_gates gates (core g1) = Inr c" "core g' = c\<lparr>db_decisions := db_decisions c @ [d]\<rparr>"
proof -
  define accepted where "accepted = listAcceptedUncertainties (core g1) (gv_id (sv_run run)) (Some (rv_now env))"
  define audit where "audit = enforceCompletionAuditAlgebra (requireExternalContinuationApproval (sa_audit proposed) policy)
      (effectiveGateProfile (gv_contract (sv_run run))) accepted"
  from assms obtain evaluator model c opts where
    gates: "gates = map (reviewed_gate env run seq evaluator model (au_gates audit)) gateTypes"
    and rec: "record_gates gates (core g1) = Inr c"
    and dec: "createDecision env (gv_id (sv_run run)) (gv_attempt (sv_run run)) seq ''settled'' (au_action audit) (au_reasonCode audit)
        (au_rationale audit) opts (g1\<lparr>gd_work := (gd_work g1)\<lparr>wd_core := c\<rparr>\<rparr>) = Inr (d, g')"
    unfolding record_review_def Let_def accepted_def [symmetric] audit_def [symmetric]
    by (simp only: and_then_Inr) auto
  show thesis
    by (rule that [OF accepted_def gates [unfolded audit_def] _ rec])
      (use createDecision_Inr(3,5) [OF dec] in \<open>simp_all add: audit_def\<close>)
qed

text \<open>What a settled review does: it waits, delivers without a gate, or records a corrected audit.\<close>

lemma reviewSettled_cases:
  assumes "reviewSettled env run seq response truncated answer offers meanwhile g = Inr ((gates, d), g')"
  obtains (wait) "d_action d = Act_wait_for_runtime" "gates = []"
  | (disabled) "effectiveGateProfile (gv_contract (sv_run run)) = Gate_off" "gates = []" "d_action d = Act_complete_taskrun"
  | (audited) det proposed policy accepted evaluator model g1 c where
      "effectiveGateProfile (gv_contract (sv_run run)) \<noteq> Gate_off"
      "\<And>x. x \<in> set (listControlInbox (core g) (gv_id (sv_run run))) \<Longrightarrow> ci_attempt x = gv_attempt (sv_run run) \<Longrightarrow>
         ci_status x \<notin> {Ctl_queued, Ctl_delivering}"
      "proposed_audit run response truncated answer offers (core g) = Inr (det, proposed, policy)"
      "accepted = listAcceptedUncertainties (core g1) (gv_id (sv_run run)) (Some (rv_now env))"
      "gates = map (reviewed_gate env run seq evaluator model (au_gates (enforceCompletionAuditAlgebra
          (requireExternalContinuationApproval (sa_audit proposed) policy) (effectiveGateProfile (gv_contract (sv_run run))) accepted))) gateTypes"
      "d_action d = au_action (enforceCompletionAuditAlgebra
          (requireExternalContinuationApproval (sa_audit proposed) policy) (effectiveGateProfile (gv_contract (sv_run run))) accepted)"
      "record_gates gates (core g1) = Inr c" "core g' = c\<lparr>db_decisions := db_decisions c @ [d]\<rparr>"
proof -
  let ?view = "sv_run run" and ?profile = "effectiveGateProfile (gv_contract (sv_run run))"
  let ?pending = "filter (\<lambda>c. ci_attempt c = gv_attempt ?view \<and> ci_status c \<in> set [Ctl_queued, Ctl_delivering])
      (listControlInbox (core g) (gv_id ?view))"
  consider "?pending \<noteq> []" | "?pending = []" "?profile = Gate_off" | "?pending = []" "?profile \<noteq> Gate_off" by blast
  then show thesis
  proof cases
    case 1
    with assms show thesis
      unfolding reviewSettled_def Let_def by (auto intro: wait dest: createDecision_Inr(3))
  next
    case 2
    with assms show thesis
      unfolding reviewSettled_def Let_def by (auto intro: disabled dest: createDecision_Inr(3))
  next
    case 3
    from assms 3 obtain det proposed policy where
      p: "proposed_audit run response truncated answer offers (core g) = Inr (det, proposed, policy)"
      and rest: "record_review env run seq response det proposed policy (if det = None then meanwhile g else g) = Inr ((gates, d), g')"
      unfolding reviewSettled_def Let_def by auto
    from rest obtain g1 where "record_review env run seq response det proposed policy g1 = Inr ((gates, d), g')" by blast
    then show thesis
    proof (rule record_review_Inr)
      fix accepted evaluator model c
      assume "accepted = listAcceptedUncertainties (core g1) (gv_id ?view) (Some (rv_now env))"
        "gates = map (reviewed_gate env run seq evaluator model (au_gates (enforceCompletionAuditAlgebra
          (requireExternalContinuationApproval (sa_audit proposed) policy) ?profile accepted))) gateTypes"
        "d_action d = au_action (enforceCompletionAuditAlgebra
          (requireExternalContinuationApproval (sa_audit proposed) policy) ?profile accepted)"
        "record_gates gates (core g1) = Inr c" "core g' = c\<lparr>db_decisions := db_decisions c @ [d]\<rparr>"
      then show thesis by (intro audited [OF 3(2) _ p]) (use 3(1) in \<open>auto simp: filter_empty_conv\<close>)
    qed
  qed
qed

section \<open>What a completing review rests on\<close>

text \<open>The columns of a gate that settlement reads.\<close>

definition gate_columns :: "gate_evaluation \<Rightarrow> string \<times> gate_type \<times> bool \<times> audit_failure list" where
  "gate_columns x = (ge_id x, ge_gateType x, ge_passed x, ge_failures x)"

lemma record_gates_stored:
  "record_gates gs d = Inr d' \<Longrightarrow> map gate_columns (db_gates d') = map gate_columns (db_gates d @ gs)"
proof (induction gs arbitrary: d)
  case (Cons g gs)
  then obtain d1 where d1: "recordGateEvaluation g d = Inr d1" and rest: "record_gates gs d1 = Inr d'" by auto
  have "map gate_columns (db_gates d1) = map gate_columns (db_gates d @ [g])"
    using d1 by (auto simp: recordGateEvaluation_def gate_columns_def)
  with Cons.IH [OF rest] show ?case by simp
qed auto

lemma completing_gates:
  assumes "au_action (enforceCompletionAuditAlgebra a profile accepted) = Act_complete_taskrun"
    and "ty \<in> {G_progress, G_evidence, G_contract, G_completion}"
  shows "ag_passed (gate_at (au_gates (enforceCompletionAuditAlgebra a profile accepted)) ty)"
    and "ag_failures (gate_at (au_gates (enforceCompletionAuditAlgebra a profile accepted)) ty) = []"
proof -
  have m: "may_complete profile accepted (au_gates a)"
    using assms(1) by (simp add: enforced_action final_completion_Nil)
  then have contract: "ag_failures (final_contract profile accepted (gs_contract (au_gates a))) = []"
    by (simp add: final_contract_failures_Nil may_complete_def)
  have "ag_passed (final_contract profile accepted (gs_contract (au_gates a)))"
    using contract m by (simp add: final_contract_passed may_complete_def)
  then show "ag_passed (gate_at (au_gates (enforceCompletionAuditAlgebra a profile accepted)) ty)"
    using assms(2) m by (auto simp: final_completion_passed may_complete_def)
  show "ag_failures (gate_at (au_gates (enforceCompletionAuditAlgebra a profile accepted)) ty) = []"
    using assms(2) m contract final_completion_Nil [of profile accepted "au_gates a"] by (auto simp: may_complete_def)
qed

section \<open>Reviews keep the invariants of the tables\<close>

lemma work_inv_quiet: "work_inv s \<Longrightarrow> quiet d (wd_core s) \<Longrightarrow> work_inv (s\<lparr>wd_core := d\<rparr>)"
  using quiet_inv by (intro work_inv_core) (auto simp: work_inv_def)

lemma createDecision_inv:
  assumes "createDecision env runId attempt seq trigger action code rationale opts g = Inr (x, g')" and "work_inv (gd_work g)"
  shows "work_inv (gd_work g')"
  unfolding createDecision_Inr(5) [OF assms(1)] using assms(2)
  by simp (rule work_inv_quiet, simp_all add: quiet_def same_core_def)

lemma record_review_inv:
  assumes "record_review env run seq response det proposed policy g1 = Inr ((gates, d), g')" and inv: "work_inv (gd_work g1)"
  shows "work_inv (gd_work g')"
proof -
  from assms(1) obtain c action code rationale opts where c: "record_gates gates (core g1) = Inr c"
    and dec: "createDecision env (gv_id (sv_run run)) (gv_attempt (sv_run run)) seq ''settled'' action code rationale opts
        (g1\<lparr>gd_work := (gd_work g1)\<lparr>wd_core := c\<rparr>\<rparr>) = Inr (d, g')"
    unfolding record_review_def Let_def by (simp only: and_then_Inr) auto
  have "work_inv ((gd_work g1)\<lparr>wd_core := c\<rparr>)"
    using record_gates_quiet [OF c] by (intro work_inv_quiet [OF inv]) simp
  then show ?thesis by (intro createDecision_inv [OF dec]) simp
qed

lemma reviewSettled_inv:
  assumes "reviewSettled env run seq response truncated answer offers meanwhile g = Inr ((gates, d), g')"
    and "work_inv (gd_work g)" and "work_inv (gd_work (meanwhile g))"
  shows "work_inv (gd_work g')"
  using assms
  by (auto simp: reviewSettled_def Let_def split: if_splits dest: createDecision_inv record_review_inv)

section \<open>The machine of governed runs\<close>

text \<open>
  The supervisor and the operator beside everything the runtime and the control plane write. A
  review carries the commands executed while its reviewer is awaited.
\<close>

datatype governance_command =
    Gv_work evidence_command
  | Gv_accept "string \<Rightarrow> string" "contract \<Rightarrow> string" generated_ids int decision_input
  | Gv_checkpoint supervisor_policy review_env string run_event
  | Gv_review review_env supervised_run int string bool "review_kind \<Rightarrow> store_error + supervisor_audit"
      "review_kind \<Rightarrow> bool" "evidence_command list"
  | Gv_reviewFailure review_env supervised_run int string
  | Gv_parallel review_env string string string
  | Gv_external review_env string string

definition forget_gov :: "store_error + 'r \<times> gov_db \<Rightarrow> store_error + unit \<times> gov_db" where
  "forget_gov res = and_then res (\<lambda>r. Inr ((), snd r))"

definition on_work :: "(work_db \<Rightarrow> store_error + 'r \<times> work_db) \<Rightarrow> gov_db \<Rightarrow> store_error + 'r \<times> gov_db" where
  "on_work f g = and_then (f (gd_work g)) (\<lambda>r. Inr (fst r, g\<lparr>gd_work := snd r\<rparr>))"

fun exec_governance :: "governance_command \<Rightarrow> gov_db \<Rightarrow> store_error + unit \<times> gov_db" where
  "exec_governance (Gv_work c) g = on_work (exec_evidence c) g"
| "exec_governance (Gv_accept sha dig ids t input) g = forget_gov (on_work (acceptRunUncertainty sha dig ids t input) g)"
| "exec_governance (Gv_checkpoint policy env runId event) g = forget_gov (reviewCheckpoint policy env runId event g)"
| "exec_governance (Gv_review env run seq response truncated answer offers cs) g =
     forget_gov (reviewSettled env run seq response truncated answer offers
       (\<lambda>g. g\<lparr>gd_work := run_all exec_evidence cs (gd_work g)\<rparr>) g)"
| "exec_governance (Gv_reviewFailure env run seq err) g = forget_gov (recordReviewFailure env run seq err g)"
| "exec_governance (Gv_parallel env parent item summary) g = forget_gov (proposeParallelTaskStart env parent item summary g)"
| "exec_governance (Gv_external env runId summary) g = forget_gov (proposeExternalActionStart env runId summary g)"

lemma forget_gov_Inr [simp]: "forget_gov res = Inr (u, g') \<longleftrightarrow> (\<exists>r. res = Inr (r, g'))"
  by (auto simp: forget_gov_def)

lemma on_work_Inr: "on_work f g = Inr (r, g') \<longleftrightarrow> (\<exists>s. f (gd_work g) = Inr (r, s) \<and> g' = g\<lparr>gd_work := s\<rparr>)"
  by (auto simp: on_work_def)

lemma reviewCheckpoint_inv:
  assumes "reviewCheckpoint policy env runId event g = Inr (x, g')" and inv: "work_inv (gd_work g)"
  shows "work_inv (gd_work g')"
  using assms(1)
proof (cases rule: reviewCheckpoint_cases)
  case none
  with inv show ?thesis by simp
next
  case (steer d run g1)
  have "work_inv ((gd_work g1)\<lparr>wd_core := (core g1)\<lparr>db_decisions := db_decisions (core g1) @ [d]\<rparr>\<rparr>)"
    using inv by (intro work_inv_quiet) (simp_all add: steer(4) quiet_def same_core_def)
  then show ?thesis by (simp add: steer(10))
qed

lemma exec_governance_inv:
  assumes "work_inv (gd_work g)" and "exec_governance c g = Inr (u, g')"
  shows "work_inv (gd_work g')"
proof (cases c)
  case (Gv_work c)
  with assms show ?thesis by (auto simp: on_work_Inr dest: exec_evidence_inv)
next
  case (Gv_accept sha dig ids t input)
  with assms show ?thesis by (auto simp: on_work_Inr dest: acceptRunUncertainty_inv)
next
  case (Gv_checkpoint policy env runId event)
  with assms show ?thesis by (auto dest: reviewCheckpoint_inv)
next
  case (Gv_review env run seq response truncated answer offers cs)
  moreover have "work_inv (run_all exec_evidence cs (gd_work g))"
    using assms(1) by (rule evidence_machine.run_all_inv)
  ultimately show ?thesis using assms by (auto dest!: reviewSettled_inv)
next
  case (Gv_reviewFailure env run seq err)
  with assms show ?thesis by (auto simp: recordReviewFailure_def dest: createDecision_inv)
next
  case (Gv_parallel env parent item summary)
  with assms show ?thesis by (auto simp: proposeParallelTaskStart_def dest: createDecision_inv)
next
  case (Gv_external env runId summary)
  with assms show ?thesis by (auto simp: proposeExternalActionStart_def dest: createDecision_inv)
qed

interpretation governance_machine: invariant_machine exec_governance "\<lambda>g. work_inv (gd_work g)"
  by unfold_locales (rule exec_governance_inv)

lemma run_all_work:
  "run_all exec_governance (map Gv_work cs) g = g\<lparr>gd_work := run_all exec_evidence cs (gd_work g)\<rparr>"
proof (induction cs arbitrary: g)
  case (Cons c cs)
  have "after g (exec_governance (Gv_work c) g) = g\<lparr>gd_work := after (gd_work g) (exec_evidence c (gd_work g))\<rparr>"
    by (cases "exec_evidence c (gd_work g)") (auto simp: on_work_def and_then_def after_def)
  with Cons.IH show ?case by simp
qed simp

end
