(* ===== verification/Governance_Scenarios.thy ===== *)
theory Governance_Scenarios
  imports Gate_Scenarios Supervisor
begin

text \<open>
  A run with two acceptance criteria that its supervisor finds blocked, the operator's acceptances,
  and a second Attempt reviewed while the first acceptance is live. Each state is reached by the
  modelled operations from the one before.
\<close>

definition sc_contract2 :: contract where
  "sc_contract2 = sc_contract\<lparr>k_acceptanceCriteria := [''builds'', ''deployed'']\<rparr>"

definition sc_env :: "string \<Rightarrow> int \<Rightarrow> review_env" where
  "sc_env d t = \<lparr>rv_sha256 = sc_hash, rv_model = ''m'', rv_decisionId = d, rv_gateId = (\<lambda>ty. d @ gate_name ty),
     rv_now = t, rv_manifestHash = ''h''\<rparr>"

text \<open>What the reviewer answers about either Attempt: both criteria are blocked.\<close>

definition sc_pass :: audit_gate where
  "sc_pass = \<lparr>ag_passed = True, ag_failures = [], ag_criterionCoverage = None, ag_summary = ''''\<rparr>"

definition sc_coverage :: "string \<Rightarrow> criterion_coverage" where
  "sc_coverage criterion = \<lparr>cv_criterion = criterion, cv_status = Cover_blocked, cv_evidenceRefs = [],
     cv_evidenceQuotes = None, cv_acceptedUncertaintyId = None, cv_reason = ''no access''\<rparr>"

definition sc_answer :: "review_kind \<Rightarrow> store_error + supervisor_audit" where
  "sc_answer _ = Inr \<lparr>sa_audit = \<lparr>au_action = Act_block_taskrun, au_reasonCode = ''blocked'', au_rationale = ''no access'',
       au_gates = \<lparr>gs_progress = sc_pass, gs_evidence = sc_pass,
         gs_contract = sc_pass\<lparr>ag_criterionCoverage := Some [sc_coverage ''builds'', sc_coverage ''deployed'']\<rparr>,
         gs_completion = sc_pass, gs_continuation = sc_pass\<rparr>\<rparr>,
     sa_confidence = JInt 1, sa_evaluator = None, sa_evaluatorModel = None\<rparr>"

text \<open>The first Attempt with its candidate, and the store after its review and its settlement.\<close>

definition sc_candidate :: db where
  "sc_candidate =
     step_of (recordCandidateResult sc_hash ''u2'' ''C'' (attemptId ''R'' 1) 1 ''tok'' 1 ''answer'' 4)
    (step_of (acquireExecutionLease ''tok'' (attemptId ''R'' 1) 1 ''rt'' 1000 2)
    (step_of (createRun ''R'' ''u1'' 1 ''S'' ''goal'' ''q'' (Some sc_contract2)) sc_empty))"

definition in_core :: "(db \<Rightarrow> store_error + 'r \<times> db) \<Rightarrow> gov_db \<Rightarrow> gov_db" where
  "in_core f g = g\<lparr>gd_work := (gd_work g)\<lparr>wd_core := step_of f (core g)\<rparr>\<rparr>"

definition in_work :: "(work_db \<Rightarrow> store_error + 'r \<times> work_db) \<Rightarrow> gov_db \<Rightarrow> gov_db" where
  "in_work f g = g\<lparr>gd_work := step_of f (gd_work g)\<rparr>"

definition sc_govern :: "db \<Rightarrow> gov_db" where
  "sc_govern d = \<lparr>gd_work = empty_work d, gd_progress = []\<rparr>"

definition sc_view :: "gov_db \<Rightarrow> supervised_run option" where
  "sc_view g = (case supervised_view sc_hash (gd_work g) ''R'' of Inr v \<Rightarrow> v | Inl _ \<Rightarrow> None)"

definition sc_review :: "string \<Rightarrow> int \<Rightarrow> gov_db \<Rightarrow> store_error + (gate_evaluation list \<times> supervisor_decision) \<times> gov_db" where
  "sc_review d t g = (case sc_view g of
     None \<Rightarrow> Inl (Thrown ''no run'')
   | Some run \<Rightarrow> reviewSettled (sc_env d t) run (sv_lastEventSeq run) ''answer'' False sc_answer (\<lambda>_. True) id g)"

definition sc_block :: "int \<Rightarrow> string \<Rightarrow> string \<Rightarrow> string \<Rightarrow> int \<Rightarrow> settle_input" where
  "sc_block n tok c d t = \<lparr>si_attemptId = attemptId ''R'' n, si_expectedVersion = 2, si_leaseToken = tok, si_fence = 1,
     si_candidateResultId = c, si_supervisorDecisionId = d, si_status = Term_blocked, si_reason = ''blocked'', si_timestamp = t\<rparr>"

definition sc_blocked :: gov_db where
  "sc_blocked = in_core (settleAttempt ''u3'' (sc_block 1 ''tok'' ''C'' ''D1'' 6)) (step_of (sc_review ''D1'' 5) (sc_govern sc_candidate))"

text \<open>The operator accepts the first criterion until time 50.\<close>

definition sc_accept :: "string \<Rightarrow> int option \<Rightarrow> decision_input" where
  "sc_accept k expiry = \<lparr>di_decisionId = k, di_runId = ''R'', di_criterionId = k, di_actorId = ''op'', di_rationale = ''fine'',
     di_scope = ''run'', di_evidenceRefs = [], di_expiresAt = expiry\<rparr>"

definition sc_ids :: "string \<Rightarrow> generated_ids" where
  "sc_ids d = \<lparr>gi_gate = (\<lambda>ty. d @ gate_name ty), gi_decision = d, gi_transition = ''t'' @ d\<rparr>"

definition sc_acceptance :: "string \<Rightarrow> int option \<Rightarrow> int \<Rightarrow> work_db
    \<Rightarrow> store_error + (accepted_uncertainty \<times> bool \<times> run_event option) \<times> work_db" where
  "sc_acceptance k expiry t = acceptRunUncertainty sc_hash (\<lambda>_. sc_hash '''') (sc_ids (''A'' @ k)) t (sc_accept k expiry)"

definition sc_accepted :: gov_db where
  "sc_accepted = in_work (sc_acceptance ''ac-1'' (Some 50) 10) sc_blocked"

text \<open>A continuation: the second Attempt is reviewed and blocked while that acceptance is live.\<close>

definition sc_second :: gov_db where
  "sc_second =
     in_core (settleAttempt ''u8'' (sc_block 2 ''tok2'' ''C2'' ''D2'' 16))
    (step_of (sc_review ''D2'' 15)
    (in_core (recordCandidateResult sc_hash ''u7'' ''C2'' (attemptId ''R'' 2) 1 ''tok2'' 1 ''answer'' 14)
    (in_core (acquireExecutionLease ''tok2'' (attemptId ''R'' 2) 1 ''rt'' 1000 13)
    (in_core (claimContinuation ''u5'' 12 ''R'' ''coord'' 100)
    (in_core (queueContinuation ''K'' 11 ''R'' ''go on'' 0) sc_accepted)))))"

text \<open>At time 60 the first acceptance has expired and the operator accepts the second criterion.\<close>

definition sc_stale :: gov_db where
  "sc_stale = in_work (sc_acceptance ''ac-2'' None 60) sc_second"

section \<open>The scenarios keep the invariants\<close>

lemma step_of_inv: "P s \<Longrightarrow> (\<And>r s'. P s \<Longrightarrow> f s = Inr (r, s') \<Longrightarrow> P s') \<Longrightarrow> P (step_of f s)"
  by (cases "f s") (auto simp: step_of_def)

lemma in_core_inv:
  assumes "work_inv (gd_work g)" and "\<And>r d. store_inv (core g) \<Longrightarrow> f (core g) = Inr (r, d) \<Longrightarrow> store_inv d"
  shows "work_inv (gd_work (in_core f g))"
proof -
  have "store_inv (core g)" using assms(1) by (simp add: work_inv_def)
  then have "store_inv (step_of f (core g))" using assms(2) by (rule step_of_inv [where P = store_inv])
  then show ?thesis using assms(1) by (simp add: in_core_def work_inv_core)
qed

lemma in_work_inv:
  assumes "work_inv (gd_work g)" and "\<And>r s. f (gd_work g) = Inr (r, s) \<Longrightarrow> work_inv s"
  shows "work_inv (gd_work (in_work f g))"
  unfolding in_work_def using assms by simp (rule step_of_inv [where P = work_inv], auto)

lemma sc_review_inv: "work_inv (gd_work g) \<Longrightarrow> work_inv (gd_work (step_of (sc_review d t) g))"
  by (rule step_of_inv [where P = "\<lambda>g. work_inv (gd_work g)"])
    (auto simp: sc_review_def split: option.splits dest: reviewSettled_inv)

lemma sc_acceptance_inv: "work_inv s \<Longrightarrow> sc_acceptance k x t s = Inr (r, s') \<Longrightarrow> work_inv s'"
  by (cases r) (auto simp: sc_acceptance_def dest: acceptRunUncertainty_inv)

lemma sc_candidate_inv: "store_inv sc_candidate"
proof -
  have "store_inv sc_empty" by code_simp
  then show ?thesis
    unfolding sc_candidate_def
    by (intro step_of_inv [where P = store_inv])
      (auto dest: recordCandidateResult_inv acquireExecutionLease_inv createRun_inv)
qed

lemma sc_governed_inv:
  "work_inv (gd_work (sc_govern sc_candidate))" "work_inv (gd_work sc_blocked)" "work_inv (gd_work sc_accepted)" "work_inv (gd_work sc_second)"
proof -
  show start: "work_inv (gd_work (sc_govern sc_candidate))"
    by (simp add: sc_govern_def empty_work_inv sc_candidate_inv)
  show blocked: "work_inv (gd_work sc_blocked)"
    unfolding sc_blocked_def using start by (intro in_core_inv sc_review_inv) (auto dest: settleAttempt_inv)
  show acc: "work_inv (gd_work sc_accepted)"
    unfolding sc_accepted_def using blocked by (intro in_work_inv) (auto dest: sc_acceptance_inv)
  show "work_inv (gd_work sc_second)"
    unfolding sc_second_def using acc
    by (intro in_core_inv sc_review_inv)
      (auto dest: settleAttempt_inv recordCandidateResult_inv acquireExecutionLease_inv claimContinuation_inv queueContinuation_inv)
qed

section \<open>More runs to review\<close>

text \<open>A reviewer that finds both criteria covered.\<close>

definition sc_good_answer :: "review_kind \<Rightarrow> store_error + supervisor_audit" where
  "sc_good_answer _ = Inr \<lparr>sa_audit = \<lparr>au_action = Act_complete_taskrun, au_reasonCode = ''covered'', au_rationale = '''',
       au_gates = \<lparr>gs_progress = sc_pass, gs_evidence = sc_pass,
         gs_contract = sc_pass\<lparr>ag_criterionCoverage := Some [(sc_coverage ''builds'')\<lparr>cv_status := Covered\<rparr>]\<rparr>,
         gs_completion = sc_pass, gs_continuation = sc_pass\<rparr>\<rparr>,
     sa_confidence = JInt 1, sa_evaluator = None, sa_evaluatorModel = None\<rparr>"

definition sc_review_by :: "(review_kind \<Rightarrow> store_error + supervisor_audit) \<Rightarrow> supervised_run \<Rightarrow> gov_db
    \<Rightarrow> store_error + (gate_evaluation list \<times> supervisor_decision) \<times> gov_db" where
  "sc_review_by answer run g = reviewSettled (sc_env ''D'' 5) run 1 ''answer'' False answer (\<lambda>_. True) id g"

text \<open>A run that ran a shell command without a plan: its deterministic gate fails.\<close>

definition sc_unplanned :: gov_db where
  "sc_unplanned = \<lparr>gd_work = sc_start [], gd_progress = []\<rparr>"

text \<open>The completion of the fifth equal tool call of a run.\<close>

definition sc_loop :: gov_db where
  "sc_loop = sc_govern sc_looping"

definition sc_loop_event :: run_event where
  "sc_loop_event = \<lparr>e_runId = ''R'', e_seq = 9, e_attemptId = attemptId ''R'' 1, e_type = ''tool.completed'',
     e_data = JObj [(''toolName'', JStr ''read''), (''toolCallId'', JStr ''5''), (''isError'', JBool False)], e_createdAt = 9\<rparr>"

end
