(* ===== verification/Writer_Lease.thy ===== *)
theory Writer_Lease
  imports Machine_Specs
begin

text \<open>
  The process-wide writer lease of \<open>sqlite/core-writer-lease.ts\<close> with the bounded retry of
  \<open>sqlite/writer-lease-retry.ts\<close>: one row of \<open>core_writer_lease\<close> names the process that
  may write, and its fence grows with every take-over. A statement reads the database clock
  once, so every operation takes the readings of its statements as arguments; nothing is
  assumed about how they relate, in particular the clock may jump backwards. The step
  relation \<open>writer_step\<close> interleaves the operations of any number of processes.
\<close>

section \<open>Data\<close>

record writer_owner =
  wo_ownerId :: string
  wo_pid :: int
  wo_host :: string

record writer_authority =
  w_lockName :: string
  w_ownerId :: string
  w_fence :: int
  w_pid :: int
  w_host :: string
  w_acquiredAt :: int
  w_heartbeatAt :: int
  w_expiresAt :: int
  w_releasedAt :: "int option"

datatype writer_error =
    W_type_error string
  | W_error string
  | W_sql_constraint string
  | W_authority_lost string
  | W_authority_unavailable string

definition CORE_WRITER_LOCK_NAME :: string where
  "CORE_WRITER_LOCK_NAME = ''core-writer''"

definition DEFAULT_WRITER_HEARTBEAT_MS :: int where
  "DEFAULT_WRITER_HEARTBEAT_MS = 5000"

definition DEFAULT_WRITER_LEASE_MS :: int where
  "DEFAULT_WRITER_LEASE_MS = 20000"

definition DEFAULT_WRITER_SKEW_MARGIN_MS :: int where
  "DEFAULT_WRITER_SKEW_MARGIN_MS = 2000"

definition SQLITE_DB_TIME_MS :: string where
  "SQLITE_DB_TIME_MS = ''CAST((julianday('' @ [CHR 0x27] @ ''now'' @ [CHR 0x27] @ '') - 2440587.5) * 86400000 AS INTEGER)''"

record lease_options =
  lo_lockName :: "string option"
  lo_leaseMs :: "int option"
  lo_heartbeatIntervalMs :: "int option"
  lo_skewMarginMs :: "int option"
  lo_nowSql :: "string option"

record resolved_options =
  ro_lockName :: string
  ro_leaseMs :: int
  ro_heartbeatIntervalMs :: int
  ro_skewMarginMs :: int
  ro_nowSql :: string

definition or_default :: "'a option \<Rightarrow> 'a \<Rightarrow> 'a" where
  "or_default x d = (case x of None \<Rightarrow> d | Some y \<Rightarrow> y)"

definition resolveOptions :: "lease_options \<Rightarrow> writer_error + resolved_options" where
  "resolveOptions options =
     (let lock = or_default (lo_lockName options) CORE_WRITER_LOCK_NAME;
          lease = or_default (lo_leaseMs options) DEFAULT_WRITER_LEASE_MS;
          beat = or_default (lo_heartbeatIntervalMs options) DEFAULT_WRITER_HEARTBEAT_MS;
          skew = or_default (lo_skewMarginMs options) DEFAULT_WRITER_SKEW_MARGIN_MS;
          sql = or_default (lo_nowSql options) SQLITE_DB_TIME_MS
      in require (lock \<noteq> '''') (W_type_error ''Writer lease lockName is required'')
        (require (safe_integer lease \<and> 0 < lease) (W_type_error ''leaseMs must be a positive safe integer'')
        (require (safe_integer beat \<and> 0 < beat)
           (W_type_error ''heartbeatIntervalMs must be a positive safe integer'')
        (require (safe_integer skew \<and> 0 \<le> skew)
           (W_type_error ''skewMarginMs must be a non-negative safe integer'')
        (require (beat < lease) (W_type_error ''Writer heartbeatIntervalMs must be shorter than leaseMs'')
        (require (js_trim sql \<noteq> '''') (W_type_error ''Writer lease nowSql is required'')
        (Inr \<lparr>ro_lockName = lock, ro_leaseMs = lease, ro_heartbeatIntervalMs = beat,
              ro_skewMarginMs = skew, ro_nowSql = sql\<rparr>)))))))"

text \<open>A \<open>CoreWriterLease\<close> object: the authority it holds and its options.\<close>

record writer_handle =
  wh_current :: writer_authority
  wh_options :: resolved_options

section \<open>The table\<close>

text \<open>The column checks of \<open>core_writer_lease\<close> and its primary key.\<close>

definition lease_row_ok :: "writer_authority \<Rightarrow> bool" where
  "lease_row_ok w =
     (w_lockName w = CORE_WRITER_LOCK_NAME \<and> 0 < w_fence w \<and> 0 < w_pid w
      \<and> w_heartbeatAt w \<le> w_expiresAt w
      \<and> (case w_releasedAt w of None \<Rightarrow> True | Some t \<Rightarrow> w_acquiredAt w \<le> t))"

definition lease_table_ok :: "writer_authority list \<Rightarrow> bool" where
  "lease_table_ok tbl = (distinct (map w_lockName tbl) \<and> list_all lease_row_ok tbl)"

definition put_lease_rows :: "writer_authority list \<Rightarrow> writer_error + writer_authority list" where
  "put_lease_rows tbl = require (lease_table_ok tbl) (W_sql_constraint ''core_writer_lease'') (Inr tbl)"

definition readLease :: "writer_authority list \<Rightarrow> string \<Rightarrow> writer_authority option" where
  "readLease tbl lock = find (\<lambda>w. w_lockName w = lock) tbl"

section \<open>Operations\<close>

definition take_over :: "int \<Rightarrow> writer_owner \<Rightarrow> int \<Rightarrow> writer_authority \<Rightarrow> writer_authority" where
  "take_over t owner leaseMs w =
     w\<lparr>w_ownerId := wo_ownerId owner, w_fence := w_fence w + 1, w_pid := wo_pid owner,
       w_host := wo_host owner, w_acquiredAt := t, w_heartbeatAt := t, w_expiresAt := t + leaseMs,
       w_releasedAt := None\<rparr>"

definition first_claim :: "int \<Rightarrow> writer_owner \<Rightarrow> resolved_options \<Rightarrow> writer_authority" where
  "first_claim t owner opts =
     \<lparr>w_lockName = ro_lockName opts, w_ownerId = wo_ownerId owner, w_fence = 1, w_pid = wo_pid owner,
      w_host = wo_host owner, w_acquiredAt = t, w_heartbeatAt = t, w_expiresAt = t + ro_leaseMs opts,
      w_releasedAt = None\<rparr>"

text \<open>\<open>released_at IS NOT NULL OR expires_at + ? < now\<close>.\<close>

definition lapsed :: "int \<Rightarrow> int \<Rightarrow> writer_authority \<Rightarrow> bool" where
  "lapsed margin t w = (w_releasedAt w \<noteq> None \<or> w_expiresAt w + margin < t)"

definition handle_of :: "resolved_options \<Rightarrow> writer_authority option \<Rightarrow> writer_handle option" where
  "handle_of opts authority =
     (case authority of None \<Rightarrow> None | Some w \<Rightarrow> Some \<lparr>wh_current = w, wh_options = opts\<rparr>)"

definition claim_transaction ::
  "int \<Rightarrow> int \<Rightarrow> writer_owner \<Rightarrow> resolved_options \<Rightarrow> writer_authority list \<Rightarrow>
   writer_error + writer_authority option \<times> writer_authority list" where
  "claim_transaction dbNow updNow owner opts tbl =
     (case readLease tbl (ro_lockName opts) of
        None \<Rightarrow>
          and_then (put_lease_rows (tbl @ [first_claim dbNow owner opts]))
            (\<lambda>tbl'. Inr (readLease tbl' (ro_lockName opts), tbl'))
      | Some observed \<Rightarrow>
          if w_releasedAt observed = None \<and> dbNow \<le> w_expiresAt observed + ro_skewMarginMs opts
          then Inr (None, tbl)
          else
            let P = (\<lambda>w. w_lockName w = ro_lockName opts \<and> w_fence w = w_fence observed
                         \<and> lapsed (ro_skewMarginMs opts) updNow w)
            in and_then (put_lease_rows (upd P (take_over updNow owner (ro_leaseMs opts)) tbl))
                 (\<lambda>tbl'. Inr (if cnt P tbl = 1 then readLease tbl' (ro_lockName opts) else None, tbl')))"

definition claim ::
  "bool \<Rightarrow> int \<Rightarrow> int \<Rightarrow> writer_owner \<Rightarrow> lease_options \<Rightarrow> writer_authority list \<Rightarrow>
   writer_error + writer_handle option \<times> writer_authority list" where
  "claim inTransaction dbNow updNow owner options tbl =
     require (wo_ownerId owner \<noteq> '''') (W_type_error ''Writer ownerId is required'')
    (require (safe_integer (wo_pid owner) \<and> 0 < wo_pid owner)
       (W_type_error ''Writer pid must be a positive safe integer'')
    (require (wo_host owner \<noteq> '''') (W_type_error ''Writer host is required'')
    (require (\<not> inTransaction)
       (W_error ''Core writer lease claim cannot run inside an unmanaged SQLite transaction'')
    (and_then (resolveOptions options) (\<lambda>resolved.
     and_then (claim_transaction dbNow updNow owner resolved tbl) (\<lambda>(authority, tbl').
     Inr (handle_of resolved authority, tbl')))))))"

definition snapshot_lease :: "writer_handle \<Rightarrow> writer_authority list \<Rightarrow> writer_authority option" where
  "snapshot_lease h tbl = readLease tbl (ro_lockName (wh_options h))"

text \<open>The row the authority names, unreleased.\<close>

definition names_row :: "writer_handle \<Rightarrow> writer_authority \<Rightarrow> bool" where
  "names_row h w =
     (w_lockName w = ro_lockName (wh_options h) \<and> w_ownerId w = w_ownerId (wh_current h)
      \<and> w_fence w = w_fence (wh_current h) \<and> w_releasedAt w = None)"

definition isCurrent :: "bool \<Rightarrow> int \<Rightarrow> writer_handle \<Rightarrow> writer_authority list \<Rightarrow> bool" where
  "isCurrent requireUnexpired t h tbl =
     list_ex (\<lambda>w. names_row h w
        \<and> (requireUnexpired \<longrightarrow> t \<le> w_expiresAt w + ro_skewMarginMs (wh_options h))) tbl"

definition heartbeat ::
  "bool \<Rightarrow> int \<Rightarrow> writer_handle \<Rightarrow> writer_authority list \<Rightarrow>
   writer_error + writer_handle \<times> writer_authority list" where
  "heartbeat inTransaction t h tbl =
     require (\<not> inTransaction)
       (W_error ''Core writer lease heartbeat cannot run inside an unmanaged SQLite transaction'')
     (let P = (\<lambda>w. names_row h w \<and> t \<le> w_expiresAt w + ro_skewMarginMs (wh_options h))
      in and_then (put_lease_rows
           (upd P (\<lambda>w. w\<lparr>w_heartbeatAt := t, w_expiresAt := t + ro_leaseMs (wh_options h)\<rparr>) tbl)) (\<lambda>tbl'.
         fetch (if cnt P tbl = 1 then readLease tbl' (ro_lockName (wh_options h)) else None)
           (W_authority_lost ''Core writer lease heartbeat rejected'') (\<lambda>w.
         Inr (h\<lparr>wh_current := w\<rparr>, tbl'))))"

text \<open>\<open>release\<close> returns whether the row was released, with the object it leaves.\<close>

definition release ::
  "bool \<Rightarrow> int \<Rightarrow> writer_handle \<Rightarrow> writer_authority list \<Rightarrow>
   writer_error + (bool \<times> writer_handle) \<times> writer_authority list" where
  "release inTransaction t h tbl =
     require (\<not> inTransaction)
       (W_error ''Core writer lease release cannot run inside an unmanaged SQLite transaction'')
     (and_then (put_lease_rows
        (upd (names_row h) (\<lambda>w. w\<lparr>w_heartbeatAt := t, w_expiresAt := t, w_releasedAt := Some t\<rparr>) tbl)) (\<lambda>tbl'.
      if cnt (names_row h) tbl = 1
      then (case readLease tbl' (ro_lockName (wh_options h)) of
              None \<Rightarrow> Inr ((False, h), tbl')
            | Some w \<Rightarrow> Inr ((True, h\<lparr>wh_current := w\<rparr>), tbl'))
      else Inr ((False, h), tbl')))"

section \<open>The table holds at most one row\<close>

lemma lease_table_single:
  "lease_table_ok tbl \<longleftrightarrow> tbl = [] \<or> (\<exists>w. tbl = [w] \<and> lease_row_ok w)"
proof (cases tbl)
  case (Cons w rest)
  then show ?thesis by (cases rest) (auto simp: lease_table_ok_def lease_row_ok_def)
qed (simp add: lease_table_ok_def)

definition writer_fence :: "writer_authority list \<Rightarrow> int" where
  "writer_fence tbl = (case tbl of [] \<Rightarrow> 0 | w # _ \<Rightarrow> w_fence w)"

lemma writer_fence_simps [simp]:
  "writer_fence [] = 0"
  "writer_fence (w # ws) = w_fence w"
  by (simp_all add: writer_fence_def)

lemma put_lease_rows_Inr [simp]: "put_lease_rows tbl = Inr tbl' \<longleftrightarrow> lease_table_ok tbl \<and> tbl' = tbl"
  by (auto simp: put_lease_rows_def)

lemma isCurrent_fence:
  assumes "lease_table_ok tbl" and "isCurrent u t h tbl"
  shows "writer_fence tbl = w_fence (wh_current h)"
  using assms by (auto simp: lease_table_single isCurrent_def names_row_def)

section \<open>What each operation does\<close>

text \<open>A claim that returns a handle found no row or a lapsed one, and holds the next fence.\<close>

lemma claim_Some:
  assumes tbl: "lease_table_ok tbl" and ok: "claim tx dbNow updNow owner options tbl = Inr (Some h, tbl')"
  shows "lease_table_ok tbl' \<and> w_fence (wh_current h) = writer_fence tbl + 1 \<and> tbl' = [wh_current h]
     \<and> w_releasedAt (wh_current h) = None \<and> w_ownerId (wh_current h) = wo_ownerId owner
     \<and> ro_lockName (wh_options h) = CORE_WRITER_LOCK_NAME \<and> 0 < ro_leaseMs (wh_options h)
     \<and> 0 \<le> ro_skewMarginMs (wh_options h)
     \<and> (tbl = [] \<and> w_expiresAt (wh_current h) = dbNow + ro_leaseMs (wh_options h)
        \<or> (\<exists>w. tbl = [w] \<and> lapsed (ro_skewMarginMs (wh_options h)) dbNow w
              \<and> lapsed (ro_skewMarginMs (wh_options h)) updNow w
              \<and> w_expiresAt (wh_current h) = updNow + ro_leaseMs (wh_options h)))"
proof -
  from ok obtain opt authority where res: "resolveOptions options = Inr opt"
    and tx: "claim_transaction dbNow updNow owner opt tbl = Inr (authority, tbl')" and h: "handle_of opt authority = Some h"
    by (auto simp: claim_def)
  from h obtain w where w: "authority = Some w" "h = \<lparr>wh_current = w, wh_options = opt\<rparr>"
    by (auto simp: handle_of_def split: option.splits)
  from res have pos: "0 < ro_leaseMs opt" "0 \<le> ro_skewMarginMs opt" by (auto simp: resolveOptions_def Let_def)
  show ?thesis using tbl tx pos unfolding w lease_table_single
    by (auto simp: claim_transaction_def readLease_def first_claim_def take_over_def lapsed_def Let_def
        lease_table_single lease_row_ok_def split: if_splits)
qed

lemma claim_None:
  assumes tbl: "lease_table_ok tbl" and ok: "claim tx dbNow updNow owner options tbl = Inr (None, tbl')"
  shows "tbl' = tbl"
proof -
  from ok obtain opt authority where tx: "claim_transaction dbNow updNow owner opt tbl = Inr (authority, tbl')"
    and h: "handle_of opt authority = None"
    by (auto simp: claim_def)
  from h have "authority = None" by (auto simp: handle_of_def split: option.splits)
  with tbl tx show ?thesis unfolding lease_table_single
    by (auto simp: claim_transaction_def readLease_def first_claim_def take_over_def lapsed_def Let_def
        lease_row_ok_def split: if_splits)
qed

lemma heartbeat_Inr:
  assumes tbl: "lease_table_ok tbl" and ok: "heartbeat tx t h tbl = Inr (h', tbl')"
  shows "lease_table_ok tbl' \<and> tbl' = [wh_current h'] \<and> wh_options h' = wh_options h
     \<and> w_fence (wh_current h') = w_fence (wh_current h) \<and> writer_fence tbl = w_fence (wh_current h)
     \<and> isCurrent True t h tbl \<and> w_expiresAt (wh_current h') = t + ro_leaseMs (wh_options h)"
  using tbl ok unfolding lease_table_single
  by (auto simp: heartbeat_def Let_def names_row_def isCurrent_def readLease_def lease_table_single lease_row_ok_def
      split: if_splits)

lemma release_Inr:
  assumes tbl: "lease_table_ok tbl" and ok: "release tx t h tbl = Inr ((b, h'), tbl')"
  shows "lease_table_ok tbl' \<and> wh_options h' = wh_options h \<and> writer_fence tbl' = writer_fence tbl
     \<and> w_fence (wh_current h') = w_fence (wh_current h)
     \<and> b = isCurrent False t h tbl \<and> (\<not> b \<longrightarrow> tbl' = tbl \<and> h' = h)
     \<and> (b \<longrightarrow> tbl' = [wh_current h'] \<and> w_releasedAt (wh_current h') = Some t)"
proof (cases "list_ex (names_row h) tbl")
  case True
  with tbl obtain w where w: "tbl = [w]" "names_row h w" by (auto simp: lease_table_single)
  then show ?thesis using ok
    by (auto simp: release_def isCurrent_def readLease_def names_row_def)
next
  case False
  then have "cnt (names_row h) tbl = 0" "upd (names_row h) f tbl = tbl" for f
    by (auto simp: cnt_def filter_empty_conv list_ex_iff intro: upd_none)
  with ok False tbl show ?thesis by (auto simp: release_def isCurrent_def)
qed

section \<open>Any number of processes\<close>

record writer_world =
  ww_table :: "writer_authority list"
  ww_handles :: "writer_handle list"  \<comment> \<open>every object a successful claim returned, oldest first\<close>

inductive writer_step :: "writer_world \<Rightarrow> writer_world \<Rightarrow> bool" where
  claimed: "lease_table_ok (ww_table w) \<Longrightarrow>
    claim False dbNow updNow owner options (ww_table w) = Inr (Some h, tbl') \<Longrightarrow>
    writer_step w \<lparr>ww_table = tbl', ww_handles = ww_handles w @ [h]\<rparr>"
| declined: "lease_table_ok (ww_table w) \<Longrightarrow>
    claim False dbNow updNow owner options (ww_table w) = Inr (None, tbl') \<Longrightarrow>
    writer_step w (w\<lparr>ww_table := tbl'\<rparr>)"
| beat: "lease_table_ok (ww_table w) \<Longrightarrow> i < length (ww_handles w) \<Longrightarrow>
    heartbeat False t (ww_handles w ! i) (ww_table w) = Inr (h', tbl') \<Longrightarrow>
    writer_step w \<lparr>ww_table = tbl', ww_handles = (ww_handles w)[i := h']\<rparr>"
| released: "lease_table_ok (ww_table w) \<Longrightarrow> i < length (ww_handles w) \<Longrightarrow>
    release False t (ww_handles w ! i) (ww_table w) = Inr ((b, h'), tbl') \<Longrightarrow>
    writer_step w \<lparr>ww_table = tbl', ww_handles = (ww_handles w)[i := h']\<rparr>"

definition fresh_world :: writer_world where
  "fresh_world = \<lparr>ww_table = [], ww_handles = []\<rparr>"

abbreviation writer_reachable :: "writer_world \<Rightarrow> bool" where
  "writer_reachable w \<equiv> writer_step\<^sup>*\<^sup>* fresh_world w"

definition handle_fence :: "writer_handle \<Rightarrow> int" where
  "handle_fence h = w_fence (wh_current h)"

definition world_inv :: "writer_world \<Rightarrow> bool" where
  "world_inv w =
     (lease_table_ok (ww_table w) \<and> distinct (map handle_fence (ww_handles w))
      \<and> (\<forall>h \<in> set (ww_handles w). handle_fence h \<le> writer_fence (ww_table w)))"

lemma replaced_handle:
  assumes "i < length hs" and "handle_fence h' = handle_fence (hs ! i)"
  shows "map handle_fence (hs[i := h']) = map handle_fence hs"
  using assms by (simp add: map_update list_update_same_conv)

lemma world_inv_replace:
  assumes "world_inv w" and "i < length (ww_handles w)" and "handle_fence h' = handle_fence (ww_handles w ! i)"
    and "lease_table_ok tbl'" and "writer_fence tbl' = writer_fence (ww_table w)"
  shows "world_inv \<lparr>ww_table = tbl', ww_handles = (ww_handles w)[i := h']\<rparr>"
proof -
  have "handle_fence ` set ((ww_handles w)[i := h']) = handle_fence ` set (ww_handles w)"
    using replaced_handle [OF assms(2,3)] by (metis set_map)
  with assms replaced_handle [OF assms(2,3)] show ?thesis
    unfolding world_inv_def by (simp, metis image_iff)
qed

lemma writer_step_inv: "writer_step w w' \<Longrightarrow> world_inv w \<Longrightarrow> world_inv w'"
proof (induction rule: writer_step.induct)
  case (claimed w dbNow updNow owner options h tbl')
  with claim_Some [OF claimed(1,2)] show ?case
    unfolding world_inv_def handle_fence_def by fastforce
next
  case (declined w dbNow updNow owner options tbl')
  with claim_None [OF declined(1,2)] show ?case by simp
next
  case (beat w i t h' tbl')
  with heartbeat_Inr [OF beat(1,3)] show ?case
    by (intro world_inv_replace) (auto simp: handle_fence_def)
next
  case (released w i t b h' tbl')
  with release_Inr [OF released(1,3)] show ?case
    by (intro world_inv_replace) (auto simp: handle_fence_def)
qed

lemma fresh_world_inv: "world_inv fresh_world"
  by (simp add: fresh_world_def world_inv_def lease_table_single)

lemma writer_reachable_inv: "writer_reachable w \<Longrightarrow> world_inv w"
  by (induction rule: rtranclp_induct) (auto intro: fresh_world_inv writer_step_inv)

text \<open>The fence of the row never decreases; only the holder of the current fence is accepted.\<close>

definition writer_accepted :: "writer_world \<Rightarrow> unit \<Rightarrow> int \<Rightarrow> bool" where
  "writer_accepted w k f =
     (lease_table_ok (ww_table w) \<and> (\<exists>u t h. handle_fence h = f \<and> isCurrent u t h (ww_table w)))"

interpretation writer: fenced_resource writer_step "\<lambda>w k. writer_fence (ww_table w)" writer_accepted
proof
  fix w w' and k :: unit
  assume "writer_step w w'"
  then show "writer_fence (ww_table w) \<le> writer_fence (ww_table w')"
    by (cases rule: writer_step.cases) (auto dest: claim_Some claim_None heartbeat_Inr release_Inr)
next
  fix w and k :: unit and f
  assume "writer_accepted w k f"
  then show "writer_fence (ww_table w) = f"
    by (auto simp: writer_accepted_def handle_fence_def dest: isCurrent_fence)
qed

text \<open>A handle whose row was taken over or released.\<close>

definition lost :: "writer_handle \<Rightarrow> writer_authority list \<Rightarrow> bool" where
  "lost h tbl = (handle_fence h \<le> writer_fence tbl \<and> \<not> isCurrent False 0 h tbl)"

lemma isCurrent_weaken: "isCurrent u t h tbl \<Longrightarrow> isCurrent False t' h tbl"
  by (auto simp: isCurrent_def list_ex_iff)

lemma lost_step:
  assumes "writer_step w w'" and "lost h (ww_table w)"
  shows "lost h (ww_table w')"
  using assms(1)
proof cases
  case (claimed dbNow updNow owner options h' tbl')
  have "handle_fence h < writer_fence tbl'"
    using claim_Some [OF claimed(2,3)] assms(2) by (auto simp: lost_def)
  moreover have "lease_table_ok tbl'" using claim_Some [OF claimed(2,3)] by blast
  ultimately show ?thesis using claimed(1) isCurrent_fence [of tbl' False 0 h]
    by (auto simp: lost_def handle_fence_def)
next
  case (declined dbNow updNow owner options tbl')
  with claim_None [OF declined(2,3)] assms(2) show ?thesis by simp
next
  case (beat i t h' tbl')
  then obtain x where x: "ww_table w = [x]" using heartbeat_Inr [OF beat(2,4)]
    by (auto simp: lease_table_single isCurrent_def)
  with beat(4) have "w_ownerId (wh_current h') = w_ownerId x" "w_fence (wh_current h') = w_fence x"
    "w_lockName (wh_current h') = w_lockName x" "w_releasedAt (wh_current h') = w_releasedAt x"
    "tbl' = [wh_current h']"
    by (auto simp: heartbeat_def Let_def readLease_def names_row_def split: if_splits)
  with assms(2) beat(1) x show ?thesis by (simp add: lost_def isCurrent_def names_row_def)
next
  case (released i t b h' tbl')
  note r = release_Inr [OF released(2,4)]
  show ?thesis
  proof (cases b)
    case True
    with r have "tbl' = [wh_current h']" "w_releasedAt (wh_current h') = Some t" by simp_all
    with r assms(2) released(1) show ?thesis by (simp add: lost_def isCurrent_def names_row_def)
  next
    case False
    with r assms(2) released(1) show ?thesis by simp
  qed
qed

lemma lost_star: "writer_step\<^sup>*\<^sup>* w w' \<Longrightarrow> lost h (ww_table w) \<Longrightarrow> lost h (ww_table w')"
  by (induction rule: rtranclp_induct) (auto intro: lost_step)

section \<open>The bounded retry\<close>

record retry_options = lease_options +
  rt_maxWaitMs :: "int option"
  rt_retryIntervalMs :: "int option"

text \<open>
  What one round of the loop reads: the table and the database clock at the claim, the
  process clock after it, and the table and clock at the query that computes the delay.
\<close>

record retry_round =
  rd_table :: "writer_authority list"
  rd_dbNow :: int
  rd_updNow :: int
  rd_clock :: int
  rd_queryTable :: "writer_authority list"
  rd_queryNow :: int

definition retry_budget :: "'a retry_options_scheme \<Rightarrow> int" where
  "retry_budget options =
     or_default (rt_maxWaitMs options)
       (or_default (lo_leaseMs options) DEFAULT_WRITER_LEASE_MS
        + or_default (lo_skewMarginMs options) DEFAULT_WRITER_SKEW_MARGIN_MS + 1000)"

definition retry_interval :: "'a retry_options_scheme \<Rightarrow> int" where
  "retry_interval options = or_default (rt_retryIntervalMs options) 250"

definition remaining_lease :: "'a retry_options_scheme \<Rightarrow> retry_round \<Rightarrow> int" where
  "remaining_lease options rd =
     (case find (\<lambda>w. w_lockName w = or_default (lo_lockName options) CORE_WRITER_LOCK_NAME
                   \<and> w_releasedAt w = None) (rd_queryTable rd) of
        None \<Rightarrow> 1
      | Some w \<Rightarrow> max 1 (w_expiresAt w + or_default (lo_skewMarginMs options) DEFAULT_WRITER_SKEW_MARGIN_MS
                         - rd_queryNow rd + 1))"

definition remaining_budget :: "'a retry_options_scheme \<Rightarrow> int \<Rightarrow> retry_round \<Rightarrow> int" where
  "remaining_budget options startedAt rd = retry_budget options - max 0 (rd_clock rd - startedAt)"

definition retry_delay :: "'a retry_options_scheme \<Rightarrow> int \<Rightarrow> retry_round \<Rightarrow> int" where
  "retry_delay options startedAt rd =
     min (retry_interval options) (min (remaining_lease options rd) (remaining_budget options startedAt rd))"

text \<open>\<open>None\<close>: still looping after \<open>n\<close> rounds.\<close>

fun retry_loop ::
  "nat \<Rightarrow> (nat \<Rightarrow> retry_round) \<Rightarrow> nat \<Rightarrow> int \<Rightarrow> writer_owner \<Rightarrow> retry_options \<Rightarrow>
   (writer_error + writer_handle \<times> writer_authority list) option" where
  "retry_loop 0 env k startedAt owner options = None"
| "retry_loop (Suc n) env k startedAt owner options =
     (case claim False (rd_dbNow (env k)) (rd_updNow (env k)) owner (lease_options.truncate options)
             (rd_table (env k)) of
        Inl e \<Rightarrow> Some (Inl e)
      | Inr (Some lease, tbl) \<Rightarrow> Some (Inr (lease, tbl))
      | Inr (None, tbl) \<Rightarrow>
          if remaining_budget options startedAt (env k) \<le> 0
          then Some (Inl (W_authority_unavailable ''Core writer lease remained unavailable''))
          else retry_loop n env (Suc k) startedAt owner options)"

definition claimCoreWriterLeaseWithRetry ::
  "nat \<Rightarrow> (nat \<Rightarrow> retry_round) \<Rightarrow> int \<Rightarrow> writer_owner \<Rightarrow> retry_options \<Rightarrow>
   (writer_error + writer_handle \<times> writer_authority list) option" where
  "claimCoreWriterLeaseWithRetry n env startedAt owner options =
     (if \<not> (safe_integer (retry_budget options) \<and> 0 \<le> retry_budget options)
      then Some (Inl (W_type_error ''Writer lease maxWaitMs must be a non-negative safe integer''))
      else if \<not> (safe_integer (retry_interval options) \<and> 0 < retry_interval options)
      then Some (Inl (W_type_error ''Writer lease retryIntervalMs must be a positive safe integer''))
      else retry_loop n env 0 startedAt owner options)"

text \<open>\<open>sleep(d)\<close> resumes no earlier than \<open>d\<close> milliseconds later on the clock the loop reads.\<close>

definition sleeps :: "retry_options \<Rightarrow> int \<Rightarrow> (nat \<Rightarrow> retry_round) \<Rightarrow> bool" where
  "sleeps options startedAt env =
     (startedAt \<le> rd_clock (env 0)
      \<and> (\<forall>k. 0 < remaining_budget options startedAt (env k) \<longrightarrow>
            rd_clock (env k) + retry_delay options startedAt (env k) \<le> rd_clock (env (Suc k))))"

lemma retry_delay_pos:
  "0 < retry_interval options \<Longrightarrow> 0 < remaining_budget options startedAt rd \<Longrightarrow>
   0 < retry_delay options startedAt rd"
  by (auto simp: retry_delay_def remaining_lease_def split: option.splits)

lemma retry_loop_terminates:
  assumes "0 < retry_interval options" and "sleeps options startedAt env"
    and "startedAt + int k \<le> rd_clock (env k)" and "nat (retry_budget options) < n + k" and "0 < n"
  shows "\<exists>res. retry_loop n env k startedAt owner options = Some res"
  using assms(3-)
proof (induction n arbitrary: k)
  case (Suc n)
  show ?case
  proof (cases "0 < remaining_budget options startedAt (env k)")
    case True
    then have "int k < retry_budget options" using Suc.prems(1) by (simp add: remaining_budget_def)
    then have "0 < n" using Suc.prems(2) by linarith
    moreover have "startedAt + int (Suc k) \<le> rd_clock (env (Suc k))"
      using assms(2) True Suc.prems(1) retry_delay_pos [OF assms(1) True] unfolding sleeps_def by fastforce
    ultimately have "\<exists>res. retry_loop n env (Suc k) startedAt owner options = Some res"
      using Suc.IH [of "Suc k"] Suc.prems(2) by simp
    then show ?thesis by (auto split: sum.split option.split prod.split)
  qed (auto split: sum.split option.split prod.split)
qed simp

text \<open>While round \<open>j\<close> is reached, every earlier claim was declined.\<close>

lemma retry_loop_unavailable:
  assumes "retry_loop n env k startedAt owner options = Some (Inl e)"
  shows "\<exists>j. (\<exists>x. claim False (rd_dbNow (env j)) (rd_updNow (env j)) owner (lease_options.truncate options)
                (rd_table (env j)) = Inl x)
           \<or> (\<exists>tbl. claim False (rd_dbNow (env j)) (rd_updNow (env j)) owner (lease_options.truncate options)
                (rd_table (env j)) = Inr (None, tbl)) \<and> remaining_budget options startedAt (env j) \<le> 0"
  using assms
proof (induction n arbitrary: k)
  case (Suc n)
  then show ?case by (force split: sum.splits option.splits prod.splits if_splits)
qed simp

definition valid_owner :: "writer_owner \<Rightarrow> bool" where
  "valid_owner owner =
     (wo_ownerId owner \<noteq> '''' \<and> safe_integer (wo_pid owner) \<and> 0 < wo_pid owner \<and> wo_host owner \<noteq> '''')"

text \<open>A claim with valid arguments never throws, and takes over exactly when the row has lapsed.\<close>

lemma claim_decides:
  assumes tbl: "lease_table_ok tbl" and own: "valid_owner owner" and res: "resolveOptions options = Inr ro"
    and lock: "ro_lockName ro = CORE_WRITER_LOCK_NAME"
    and free: "tbl = [] \<or> (\<exists>w. tbl = [w] \<and> lapsed (ro_skewMarginMs ro) dbNow w \<and> lapsed (ro_skewMarginMs ro) updNow w)"
  shows "\<exists>h tbl'. claim False dbNow updNow owner options tbl = Inr (Some h, tbl')"
proof -
  from res have pos: "0 < ro_leaseMs ro" by (auto simp: resolveOptions_def Let_def)
  have "\<exists>w tbl'. claim_transaction dbNow updNow owner ro tbl = Inr (Some w, tbl')"
    using tbl free pos lock own
    by (auto simp: claim_transaction_def readLease_def first_claim_def take_over_def lapsed_def Let_def
        lease_table_single lease_row_ok_def put_lease_rows_def require_def and_then_def valid_owner_def)
  then obtain w tbl' where "claim_transaction dbNow updNow owner ro tbl = Inr (Some w, tbl')" by blast
  then have "claim False dbNow updNow owner options tbl = Inr (Some \<lparr>wh_current = w, wh_options = ro\<rparr>, tbl')"
    using own res by (simp add: claim_def valid_owner_def handle_of_def require_def and_then_def)
  then show ?thesis by blast
qed

lemma claim_total:
  assumes tbl: "lease_table_ok tbl" and own: "valid_owner owner" and res: "resolveOptions options = Inr ro"
    and lock: "ro_lockName ro = CORE_WRITER_LOCK_NAME"
  shows "\<exists>x. claim False dbNow updNow owner options tbl = Inr x"
proof -
  from res have pos: "0 < ro_leaseMs ro" by (auto simp: resolveOptions_def Let_def)
  have "\<exists>x. claim_transaction dbNow updNow owner ro tbl = Inr x"
    using tbl pos lock own
    by (auto simp: claim_transaction_def readLease_def first_claim_def take_over_def lapsed_def Let_def
        lease_table_single lease_row_ok_def put_lease_rows_def require_def and_then_def valid_owner_def)
  then show ?thesis
    using own res by (auto simp: claim_def valid_owner_def require_def and_then_def split: prod.split)
qed

end
