(* ===== verification/Writer_Guard.thy ===== *)
theory Writer_Guard
  imports Writer_Lease "HOL-Library.Char_ord" "HOL-Library.List_Lexorder"
begin

text \<open>
  \<open>sqlite/writer-fence-guard.ts\<close>: the unit of work of a connection. \<open>run\<close> checks the
  writer lease before the caller's work in the same transaction, and the connection guard
  installs a temporary trigger for every write to every application table that aborts once
  the lease row no longer names this writer or the schema changed under it.
\<close>

section \<open>SQL text\<close>

definition quote_with :: "char \<Rightarrow> string \<Rightarrow> string" where
  "quote_with q s = q # concat (map (\<lambda>c. if c = q then [q, q] else [c]) s) @ [q]"

definition quoteIdentifier :: "string \<Rightarrow> string" where
  "quoteIdentifier value = quote_with (CHR 0x22) value"

definition quoteLiteral :: "string \<Rightarrow> string" where
  "quoteLiteral value = quote_with (CHR 0x27) value"

text \<open>How SQLite reads a quoted token: up to the first quote that is not doubled.\<close>

fun read_quoted :: "char \<Rightarrow> string \<Rightarrow> (string \<times> string) option" where
  "read_quoted q [] = None"
| "read_quoted q [c] = (if c = q then Some ([], []) else None)"
| "read_quoted q (c # d # rest) =
     (if c = q \<and> d = q then map_option (\<lambda>(v, r). (q # v, r)) (read_quoted q rest)
      else if c = q then Some ([], d # rest)
      else map_option (\<lambda>(v, r). (c # v, r)) (read_quoted q (d # rest)))"

fun read_token :: "char \<Rightarrow> string \<Rightarrow> (string \<times> string) option" where
  "read_token q [] = None"
| "read_token q (c # rest) = (if c = q then read_quoted q rest else None)"

text \<open>\<open>String.prototype.includes\<close>, \<open>padStart(4, "0")\<close> of an index.\<close>

fun js_includes :: "string \<Rightarrow> string \<Rightarrow> bool" where
  "js_includes [] sub = (sub = [])"
| "js_includes (c # cs) sub = (take (length sub) (c # cs) = sub \<or> js_includes cs sub)"

definition pad4 :: "nat \<Rightarrow> string" where
  "pad4 n = (let s = show_nat n in replicate (4 - length s) (CHR ''0'') @ s)"

section \<open>The connection\<close>

datatype guarded_operation = Op_insert | Op_update | Op_delete

definition GUARDED_OPERATIONS :: "guarded_operation list" where
  "GUARDED_OPERATIONS = [Op_insert, Op_update, Op_delete]"

fun operation_lower :: "guarded_operation \<Rightarrow> string" where
  "operation_lower Op_insert = ''insert''"
| "operation_lower Op_update = ''update''"
| "operation_lower Op_delete = ''delete''"

text \<open>A row of \<open>main.sqlite_schema\<close> of type \<open>table\<close>.\<close>

record schema_table =
  st_name :: string
  st_sql :: "string option"

text \<open>A temporary trigger: what it fires on and the condition it evaluates.\<close>

record guard_trigger =
  gt_name :: string
  gt_table :: string
  gt_operation :: guarded_operation
  gt_lockName :: string
  gt_ownerId :: string
  gt_fence :: int
  gt_skewMarginMs :: int
  gt_schemaVersion :: int

record 'd connection =
  cn_lease :: "writer_authority list"
  cn_schemaVersion :: int
  cn_tables :: "schema_table list"
  cn_triggers :: "guard_trigger list"
  cn_inTransaction :: bool
  cn_data :: 'd

definition WRITER_AUTHORITY_TRIGGER_ABORT :: string where
  "WRITER_AUTHORITY_TRIGGER_ABORT = ''TAGENT_WRITER_AUTHORITY_LOST''"

definition MANAGED_TRIGGER_PREFIX :: string where
  "MANAGED_TRIGGER_PREFIX = ''__tagent_writer_guard_''"

definition trigger_passes :: "int \<Rightarrow> 'd connection \<Rightarrow> guard_trigger \<Rightarrow> bool" where
  "trigger_passes t conn g =
     list_ex (\<lambda>w. w_lockName w = gt_lockName g \<and> w_ownerId w = gt_ownerId g \<and> w_fence w = gt_fence g
        \<and> w_releasedAt w = None \<and> t \<le> w_expiresAt w + gt_skewMarginMs g
        \<and> cn_schemaVersion conn = gt_schemaVersion g) (cn_lease conn)"

text \<open>A write on a table fires every trigger on that table and operation before it.\<close>

definition write_table ::
  "int \<Rightarrow> string \<Rightarrow> guarded_operation \<Rightarrow> ('d \<Rightarrow> 'd) \<Rightarrow> 'd connection \<Rightarrow> writer_error + unit \<times> 'd connection" where
  "write_table t table oper f conn =
     require (list_all (\<lambda>g. gt_table g = table \<and> gt_operation g = oper \<longrightarrow> trigger_passes t conn g) (cn_triggers conn))
       (W_error WRITER_AUTHORITY_TRIGGER_ABORT)
       (Inr ((), conn\<lparr>cn_data := f (cn_data conn)\<rparr>))"

section \<open>The guard\<close>

record installed_guard =
  ig_schemaVersion :: int
  ig_tables :: "string list"
  ig_triggerNames :: "string list"

record guard =
  gd_authority :: writer_authority
  gd_skewMarginMs :: int
  gd_nowSql :: string
  gd_depth :: nat
  gd_installed :: "installed_guard option"

definition WriterFenceGuard :: "writer_authority \<Rightarrow> int option \<Rightarrow> string option \<Rightarrow> writer_error + guard" where
  "WriterFenceGuard authority skewMarginMs nowSql =
     (let skew = or_default skewMarginMs DEFAULT_WRITER_SKEW_MARGIN_MS;
          sql = or_default nowSql SQLITE_DB_TIME_MS
      in require (safe_integer skew \<and> 0 \<le> skew)
           (W_type_error ''Writer fence skewMarginMs must be a non-negative safe integer'')
        (require (js_trim sql \<noteq> '''' \<and> nul \<notin> set sql \<and> CHR '';'' \<notin> set sql)
           (W_type_error ''Writer fence nowSql must be a single SQLite expression'')
        (require (w_lockName authority \<noteq> '''' \<and> nul \<notin> set (w_lockName authority)
                  \<and> w_ownerId authority \<noteq> '''' \<and> nul \<notin> set (w_ownerId authority)
                  \<and> safe_integer (w_fence authority) \<and> 0 < w_fence authority)
           (W_type_error ''Writer fence authority is invalid'')
        (Inr \<lparr>gd_authority = authority, gd_skewMarginMs = skew, gd_nowSql = sql, gd_depth = 0,
              gd_installed = None\<rparr>))))"

definition authority_current :: "bool \<Rightarrow> int \<Rightarrow> guard \<Rightarrow> 'd connection \<Rightarrow> bool" where
  "authority_current requireUnexpired t g conn =
     list_ex (\<lambda>w. w_lockName w = w_lockName (gd_authority g) \<and> w_ownerId w = w_ownerId (gd_authority g)
        \<and> w_fence w = w_fence (gd_authority g) \<and> w_releasedAt w = None
        \<and> (requireUnexpired \<longrightarrow> t \<le> w_expiresAt w + gd_skewMarginMs g)) (cn_lease conn)"

definition assertCurrent :: "bool \<Rightarrow> int \<Rightarrow> guard \<Rightarrow> 'd connection \<Rightarrow> writer_error + unit" where
  "assertCurrent requireUnexpired t g conn =
     require (authority_current requireUnexpired t g conn) (W_authority_lost ''Core writer authority lost'') (Inr ())"

fun writer_error_message :: "writer_error \<Rightarrow> string" where
  "writer_error_message (W_type_error m) = m"
| "writer_error_message (W_error m) = m"
| "writer_error_message (W_sql_constraint m) = m"
| "writer_error_message (W_authority_lost m) = m"
| "writer_error_message (W_authority_unavailable m) = m"

definition is_lost :: "writer_error \<Rightarrow> bool" where
  "is_lost e = (case e of W_authority_lost _ \<Rightarrow> True | _ \<Rightarrow> False)"

definition isWriterAuthorityLostError :: "writer_error \<Rightarrow> bool" where
  "isWriterAuthorityLostError e =
     (is_lost e \<or> js_includes (writer_error_message e) WRITER_AUTHORITY_TRIGGER_ABORT)"

definition normalizeWriterAuthorityError :: "writer_error \<Rightarrow> writer_error" where
  "normalizeWriterAuthorityError e =
     (if is_lost e then e
      else if \<not> isWriterAuthorityLostError e then e
      else W_authority_lost ''SQLite connection rejected a mutation from a stale or expired writer'')"

definition listManagedTriggers :: "'d connection \<Rightarrow> string list" where
  "listManagedTriggers conn =
     sort (filter (\<lambda>n. take (length MANAGED_TRIGGER_PREFIX) n = MANAGED_TRIGGER_PREFIX)
             (map gt_name (cn_triggers conn)))"

definition assertConnectionGuardCurrent :: "guard \<Rightarrow> 'd connection \<Rightarrow> writer_error + unit" where
  "assertConnectionGuardCurrent g conn =
     fetch (gd_installed g) (W_authority_unavailable ''SQLite connection writer guard is not installed'') (\<lambda>ig.
     require (cn_schemaVersion conn = ig_schemaVersion ig)
       (W_authority_unavailable ''SQLite main schema changed; refreshConnectionGuard() is required'')
    (require (listManagedTriggers conn = ig_triggerNames ig)
       (W_authority_unavailable ''SQLite connection writer trigger set was modified; refusing unguarded mutations'')
    (Inr ())))"

text \<open>
  The caller's work: whether it is an async function, its synchronous body (which sees the
  guard, for nested units of work), and which of its results are thenable.
\<close>

record ('d, 'r) callback =
  cb_async :: bool
  cb_body :: "guard \<Rightarrow> 'd connection \<Rightarrow> writer_error + 'r \<times> 'd connection"
  cb_thenable :: "'r \<Rightarrow> bool"

definition invokeSynchronous ::
  "('d, 'r) callback \<Rightarrow> guard \<Rightarrow> 'd connection \<Rightarrow> writer_error + 'r \<times> 'd connection" where
  "invokeSynchronous cb g conn =
     require (\<not> cb_async cb) (W_type_error ''WriterFenceGuard callbacks must be synchronous'')
    (and_then (cb_body cb g conn) (\<lambda>(r, conn').
     require (\<not> cb_thenable cb r) (W_type_error ''WriterFenceGuard callbacks must be synchronous'')
     (Inr (r, conn'))))"

text \<open>\<open>catch (error) { throw normalizeWriterAuthorityError(error); }\<close>.\<close>

definition normalized :: "writer_error + 'a \<Rightarrow> writer_error + 'a" where
  "normalized res = (case res of Inl e \<Rightarrow> Inl (normalizeWriterAuthorityError e) | Inr x \<Rightarrow> Inr x)"

definition run_guarded ::
  "int \<Rightarrow> ('d, 'r) callback \<Rightarrow> guard \<Rightarrow> 'd connection \<Rightarrow> writer_error + 'r \<times> 'd connection" where
  "run_guarded t cb g conn =
     (if 0 < gd_depth g then invokeSynchronous cb g conn
      else if cn_inTransaction conn
      then Inl (W_error ''WriterFenceGuard cannot enter an unmanaged SQLite transaction'')
      else normalized
        (let g' = g\<lparr>gd_depth := Suc (gd_depth g)\<rparr>; conn' = conn\<lparr>cn_inTransaction := True\<rparr>
         in and_then (if gd_installed g \<noteq> None then assertConnectionGuardCurrent g' conn' else Inr ()) (\<lambda>_.
            and_then (assertCurrent True t g' conn') (\<lambda>_.
            and_then (invokeSynchronous cb g' conn') (\<lambda>(r, conn'').
            Inr (r, conn''\<lparr>cn_inTransaction := False\<rparr>))))))"

section \<open>The connection guard\<close>

definition assertTopLevel :: "guard \<Rightarrow> 'd connection \<Rightarrow> writer_error + unit" where
  "assertTopLevel g conn =
     require (gd_depth g = 0 \<and> \<not> cn_inTransaction conn)
       (W_error ''WriterFenceGuard cannot change the connection guard inside an active SQLite transaction'') (Inr ())"

definition virtual_table :: "schema_table \<Rightarrow> bool" where
  "virtual_table st =
     (let sql = map (\<lambda>c. if CHR ''a'' \<le> c \<and> c \<le> CHR ''z'' then char_of (of_char c - (32 :: nat)) else c)
                  (or_default (st_sql st) '''')
      in take 20 sql = ''CREATE VIRTUAL TABLE'')"

text \<open>\<open>glob pattern name\<close> is SQLite's \<open>name GLOB pattern\<close>.\<close>

definition listMainApplicationTables :: "(string \<Rightarrow> string \<Rightarrow> bool) \<Rightarrow> 'd connection \<Rightarrow> string list" where
  "listMainApplicationTables glob conn =
     sort (map st_name (filter (\<lambda>st. \<not> glob ''sqlite_*'' (st_name st) \<and> st_name st \<noteq> ''core_writer_lease''
        \<and> \<not> virtual_table st
        \<and> \<not> list_ex (\<lambda>vt. virtual_table vt \<and> glob (st_name vt @ ''_*'') (st_name st)) (cn_tables conn))
      (cn_tables conn)))"

definition trigger_name :: "nat \<Rightarrow> guarded_operation \<Rightarrow> string" where
  "trigger_name i oper = MANAGED_TRIGGER_PREFIX @ pad4 i @ ''_'' @ operation_lower oper"

definition trigger_for :: "guard \<Rightarrow> int \<Rightarrow> nat \<Rightarrow> string \<Rightarrow> guarded_operation \<Rightarrow> guard_trigger" where
  "trigger_for g version i table oper =
     \<lparr>gt_name = trigger_name i oper, gt_table = table, gt_operation = oper,
      gt_lockName = w_lockName (gd_authority g), gt_ownerId = w_ownerId (gd_authority g),
      gt_fence = w_fence (gd_authority g), gt_skewMarginMs = gd_skewMarginMs g,
      gt_schemaVersion = version\<rparr>"

definition guard_triggers :: "guard \<Rightarrow> int \<Rightarrow> string list \<Rightarrow> guard_trigger list" where
  "guard_triggers g version tables =
     concat (map (\<lambda>(i, table). map (trigger_for g version i table) GUARDED_OPERATIONS)
       (List.enumerate 0 tables))"

definition createConnectionGuard ::
  "(string \<Rightarrow> string \<Rightarrow> bool) \<Rightarrow> guard \<Rightarrow> 'd connection \<Rightarrow> installed_guard \<times> 'd connection" where
  "createConnectionGuard glob g conn =
     (let tables = listMainApplicationTables glob conn;
          created = guard_triggers g (cn_schemaVersion conn) tables
      in (\<lparr>ig_schemaVersion = cn_schemaVersion conn, ig_tables = tables,
           ig_triggerNames = sort (map gt_name created)\<rparr>,
          conn\<lparr>cn_triggers := cn_triggers conn @ created\<rparr>))"

definition dropTriggers :: "string list \<Rightarrow> 'd connection \<Rightarrow> 'd connection" where
  "dropTriggers names conn = conn\<lparr>cn_triggers := filter (\<lambda>g. gt_name g \<notin> set names) (cn_triggers conn)\<rparr>"

definition installConnectionGuard ::
  "(string \<Rightarrow> string \<Rightarrow> bool) \<Rightarrow> int \<Rightarrow> guard \<Rightarrow> 'd connection \<Rightarrow> writer_error + guard \<times> 'd connection" where
  "installConnectionGuard glob t g conn =
     and_then (assertTopLevel g conn) (\<lambda>_.
     if gd_installed g \<noteq> None
     then and_then (assertConnectionGuardCurrent g conn) (\<lambda>_. Inr (g, conn))
     else normalized
       (and_then (assertCurrent True t g conn) (\<lambda>_.
        require (listManagedTriggers conn = [])
          (W_authority_unavailable ''SQLite connection already has an unmanaged writer trigger set'')
          (let (ig, conn') = createConnectionGuard glob g conn
           in Inr (g\<lparr>gd_installed := Some ig\<rparr>, conn')))))"

definition refreshConnectionGuard ::
  "(string \<Rightarrow> string \<Rightarrow> bool) \<Rightarrow> int \<Rightarrow> guard \<Rightarrow> 'd connection \<Rightarrow> writer_error + guard \<times> 'd connection" where
  "refreshConnectionGuard glob t g conn =
     and_then (assertTopLevel g conn) (\<lambda>_.
     if gd_installed g = None then installConnectionGuard glob t g conn
     else normalized
       (and_then (assertCurrent True t g conn) (\<lambda>_.
        let (ig, conn') = createConnectionGuard glob g (dropTriggers (listManagedTriggers conn) conn)
        in Inr (g\<lparr>gd_installed := Some ig\<rparr>, conn'))))"

definition removeConnectionGuard :: "int \<Rightarrow> guard \<Rightarrow> 'd connection \<Rightarrow> writer_error + guard \<times> 'd connection" where
  "removeConnectionGuard t g conn =
     and_then (assertTopLevel g conn) (\<lambda>_.
     if gd_installed g = None then Inr (g, conn)
     else normalized
       (and_then (assertCurrent True t g conn) (\<lambda>_.
        Inr (g\<lparr>gd_installed := None\<rparr>, dropTriggers (listManagedTriggers conn) conn))))"

record guard_snapshot =
  gs_installed :: bool
  gs_schemaVersion :: "int option"
  gs_tables :: "string list"
  gs_triggerCount :: nat

definition connectionGuardSnapshot :: "guard \<Rightarrow> guard_snapshot" where
  "connectionGuardSnapshot g =
     (case gd_installed g of
        Some ig \<Rightarrow> \<lparr>gs_installed = True, gs_schemaVersion = Some (ig_schemaVersion ig), gs_tables = ig_tables ig,
                    gs_triggerCount = length (ig_triggerNames ig)\<rparr>
      | None \<Rightarrow> \<lparr>gs_installed = False, gs_schemaVersion = None, gs_tables = [], gs_triggerCount = 0\<rparr>)"

section \<open>Quoting\<close>

lemma read_quoted_close: "rest = [] \<or> hd rest \<noteq> q \<Longrightarrow> read_quoted q (q # rest) = Some ([], rest)"
  by (cases rest) auto

lemma read_quoted_body:
  assumes "rest = [] \<or> hd rest \<noteq> q"
  shows "read_quoted q (concat (map (\<lambda>c. if c = q then [q, q] else [c]) s) @ q # rest) = Some (s, rest)"
proof (induction s)
  case Nil
  then show ?case using read_quoted_close [OF assms] by simp
next
  case (Cons c s)
  obtain d ds where tail: "concat (map (\<lambda>c. if c = q then [q, q] else [c]) s) @ q # rest = d # ds"
    by (cases "concat (map (\<lambda>c. if c = q then [q, q] else [c]) s) @ q # rest") auto
  with Cons.IH show ?case by simp
qed

section \<open>Refusal and installation\<close>

lemma normalized_Inr [simp]: "normalized res = Inr x \<longleftrightarrow> res = Inr x"
  by (cases res) (simp_all add: normalized_def)

lemma authority_current_cong [simp]:
  "authority_current u t (g\<lparr>gd_depth := n\<rparr>) conn = authority_current u t g conn"
  "authority_current u t g (conn\<lparr>cn_inTransaction := b\<rparr>) = authority_current u t g conn"
  "authority_current u t g (conn\<lparr>cn_data := d\<rparr>) = authority_current u t g conn"
  by (simp_all add: authority_current_def)

text \<open>
  A top-level unit of work over the data of the connection, as a port: \<open>(t, g, conn)\<close> is
  the clock reading, the guard and the connection it is entered on.
\<close>

definition data_work :: "('d \<Rightarrow> writer_error + 'r \<times> 'd) \<Rightarrow> ('d, 'r) callback" where
  "data_work work =
     \<lparr>cb_async = False,
      cb_body = (\<lambda>g conn. and_then (work (cn_data conn)) (\<lambda>(r, d). Inr (r, conn\<lparr>cn_data := d\<rparr>))),
      cb_thenable = (\<lambda>_. False)\<rparr>"

definition enter_guard ::
  "int \<times> guard \<times> 'd connection \<Rightarrow> ('d \<Rightarrow> writer_error + 'r \<times> 'd) \<Rightarrow> 'd \<Rightarrow> writer_error + 'r \<times> 'd" where
  "enter_guard ctx work d =
     (case ctx of (t, g, conn) \<Rightarrow>
        and_then (run_guarded t (data_work work) g (conn\<lparr>cn_data := d\<rparr>)) (\<lambda>(r, conn'). Inr (r, cn_data conn')))"

definition guard_permits :: "int \<times> guard \<times> 'd connection \<Rightarrow> 'd \<Rightarrow> bool" where
  "guard_permits ctx d =
     (case ctx of (t, g, conn) \<Rightarrow> gd_depth g = 0 \<longrightarrow> authority_current True t g conn)"

lemma run_guarded_top:
  assumes "gd_depth g = 0" and "run_guarded t cb g conn = Inr (r, conn')"
  shows "authority_current True t g conn" "\<not> cn_inTransaction conn"
    "\<exists>conn''. cb_body cb (g\<lparr>gd_depth := 1\<rparr>) (conn\<lparr>cn_inTransaction := True\<rparr>) = Inr (r, conn'')
        \<and> conn' = conn''\<lparr>cn_inTransaction := False\<rparr>"
    "\<not> cb_async cb" "\<not> cb_thenable cb r"
  using assms by (auto simp: run_guarded_def Let_def assertCurrent_def invokeSynchronous_def split: if_splits)

interpretation writer_port: guarded_port guard_permits enter_guard
proof
  fix ctx :: "int \<times> guard \<times> 'd connection" and d :: 'd and work :: "'d \<Rightarrow> writer_error + 'r \<times> 'd"
  assume no: "\<not> guard_permits ctx d"
  show "\<exists>e. enter_guard ctx work d = Inl e"
  proof (cases "enter_guard ctx work d")
    case (Inr x)
    obtain t g conn where ctx: "ctx = (t, g, conn)" by (cases ctx)
    with Inr obtain r conn' where run: "run_guarded t (data_work work) g (conn\<lparr>cn_data := d\<rparr>) = Inr (r, conn')"
      by (auto simp: enter_guard_def)
    from no ctx have "gd_depth g = 0" "\<not> authority_current True t g conn" by (auto simp: guard_permits_def)
    with run_guarded_top(1) [OF this(1) run] show ?thesis by simp
  qed simp
next
  fix ctx :: "int \<times> guard \<times> 'd connection" and d d' :: 'd and work :: "'d \<Rightarrow> writer_error + 'r \<times> 'd" and r
  assume "enter_guard ctx work d = Inr (r, d')"
  moreover obtain t g conn where ctx: "ctx = (t, g, conn)" by (cases ctx)
  ultimately obtain conn' where run: "run_guarded t (data_work work) g (conn\<lparr>cn_data := d\<rparr>) = Inr (r, conn')"
    and d': "d' = cn_data conn'" by (auto simp: enter_guard_def)
  show "work d = Inr (r, d')"
  proof (cases "gd_depth g = 0")
    case True
    from run_guarded_top(3) [OF this run] d' show ?thesis by (auto simp: data_work_def)
  next
    case False
    with run d' show ?thesis by (auto simp: run_guarded_def invokeSynchronous_def data_work_def)
  qed
qed

text \<open>The triggers the guard creates carry the managed prefix.\<close>

definition managed :: "string \<Rightarrow> bool" where
  "managed n = (take (length MANAGED_TRIGGER_PREFIX) n = MANAGED_TRIGGER_PREFIX)"

lemma listManagedTriggers_managed:
  "listManagedTriggers conn = sort (filter managed (map gt_name (cn_triggers conn)))"
  by (simp add: listManagedTriggers_def managed_def [abs_def])

lemma managed_trigger_name: "managed (trigger_name i oper)"
  by (simp add: managed_def trigger_name_def)

lemma guard_triggers_managed: "g' \<in> set (guard_triggers g v tables) \<Longrightarrow> managed (gt_name g')"
  by (auto simp: guard_triggers_def trigger_for_def managed_trigger_name GUARDED_OPERATIONS_def)

lemma guard_triggers_cover:
  assumes "table \<in> set tables"
  shows "\<exists>i. trigger_for g v i table oper \<in> set (guard_triggers g v tables)"
proof -
  from assms obtain i where "i < length tables" "tables ! i = table" by (auto simp: in_set_conv_nth)
  then have "(i, table) \<in> set (List.enumerate 0 tables)"
    by (auto simp: in_set_enumerate_eq)
  moreover have "oper \<in> set GUARDED_OPERATIONS"
    by (cases oper) (simp_all add: GUARDED_OPERATIONS_def)
  ultimately show ?thesis unfolding guard_triggers_def by force
qed

lemma drop_listed: "listManagedTriggers (dropTriggers (listManagedTriggers conn) conn) = []"
  by (auto simp: listManagedTriggers_managed dropTriggers_def filter_empty_conv)

lemma dropTriggers_fields [simp]:
  "cn_schemaVersion (dropTriggers ns conn) = cn_schemaVersion conn"
  "cn_tables (dropTriggers ns conn) = cn_tables conn"
  "cn_lease (dropTriggers ns conn) = cn_lease conn"
  "listMainApplicationTables glob (dropTriggers ns conn) = listMainApplicationTables glob conn"
  by (simp_all add: dropTriggers_def listMainApplicationTables_def)

text \<open>After \<open>createConnectionGuard\<close> on a connection without managed triggers the guard is current.\<close>

lemma create_current:
  assumes "listManagedTriggers conn = []" and "createConnectionGuard glob g conn = (ig, conn')"
  shows "assertConnectionGuardCurrent (g\<lparr>gd_installed := Some ig\<rparr>) conn' = Inr ()"
proof -
  from assms(1) have "filter managed (map gt_name (cn_triggers conn)) = []"
    by (metis listManagedTriggers_managed set_empty set_sort)
  moreover have "filter managed (map gt_name (guard_triggers g v ts)) = map gt_name (guard_triggers g v ts)" for v ts
    by (auto simp: filter_id_conv dest: guard_triggers_managed)
  ultimately show ?thesis using assms(2)
    by (auto simp: createConnectionGuard_def Let_def assertConnectionGuardCurrent_def
        listManagedTriggers_managed require_def fetch_def)
qed

lemma create_cover:
  assumes "createConnectionGuard glob g conn = (ig, conn')" and "table \<in> set (listMainApplicationTables glob conn)"
  shows "\<exists>i. trigger_for g (cn_schemaVersion conn) i table oper \<in> set (cn_triggers conn')"
  using assms guard_triggers_cover [OF assms(2), of g "cn_schemaVersion conn" oper]
  by (auto simp: createConnectionGuard_def Let_def)

lemma install_Inr:
  assumes "installConnectionGuard glob t g conn = Inr (g', conn')" and "gd_installed g = None"
  obtains ig where "listManagedTriggers conn = []" "createConnectionGuard glob g conn = (ig, conn')"
    "g' = g\<lparr>gd_installed := Some ig\<rparr>" "authority_current True t g conn"
proof -
  obtain ig c where c: "createConnectionGuard glob g conn = (ig, c)" by fastforce
  with assms that [of ig] show ?thesis
    by (auto simp: installConnectionGuard_def assertTopLevel_def assertCurrent_def)
qed

text \<open>A trigger of the guard refuses the write once the authority is lost or the schema moved.\<close>

lemma write_table_refused:
  assumes "trigger_for g v i table oper \<in> set (cn_triggers conn)"
    and "\<not> authority_current True t g conn \<or> cn_schemaVersion conn \<noteq> v"
  shows "write_table t table oper f conn = Inl (W_error WRITER_AUTHORITY_TRIGGER_ABORT)"
proof -
  have "\<not> trigger_passes t conn (trigger_for g v i table oper)"
    using assms(2) by (auto simp: trigger_passes_def trigger_for_def authority_current_def list_ex_iff)
  then have "\<not> list_all (\<lambda>x. gt_table x = table \<and> gt_operation x = oper \<longrightarrow> trigger_passes t conn x) (cn_triggers conn)"
    using assms(1) by (force simp: list_all_iff trigger_for_def)
  then show ?thesis by (simp add: write_table_def require_def)
qed

end
