(* ===== verification/Writer_Scenarios.thy ===== *)
theory Writer_Scenarios
  imports Writer_Guard
begin

text \<open>
  Concrete lease tables: a first process claims the lease at time 0 and stops; a second one
  takes it over at time 30000.
\<close>

definition sc_owner1 :: writer_owner where
  "sc_owner1 = \<lparr>wo_ownerId = ''core-1'', wo_pid = 10, wo_host = ''h''\<rparr>"

definition sc_owner2 :: writer_owner where
  "sc_owner2 = \<lparr>wo_ownerId = ''core-2'', wo_pid = 20, wo_host = ''h''\<rparr>"

definition sc_lease_options :: lease_options where
  "sc_lease_options = \<lparr>lo_lockName = None, lo_leaseMs = None, lo_heartbeatIntervalMs = None,
     lo_skewMarginMs = None, lo_nowSql = None\<rparr>"

definition claimed_world :: "int \<Rightarrow> writer_owner \<Rightarrow> writer_world \<Rightarrow> writer_world" where
  "claimed_world t owner w =
     (case claim False t t owner sc_lease_options (ww_table w) of
        Inr (Some h, tbl) \<Rightarrow> \<lparr>ww_table = tbl, ww_handles = ww_handles w @ [h]\<rparr>
      | _ \<Rightarrow> w)"

definition sc_lease_table :: "writer_authority list" where
  "sc_lease_table = ww_table (claimed_world 0 sc_owner1 fresh_world)"

definition sc_world :: writer_world where
  "sc_world = claimed_world 30000 sc_owner2 (claimed_world 0 sc_owner1 fresh_world)"

lemma claimed_world_reachable:
  assumes "writer_reachable w"
  shows "writer_reachable (claimed_world t owner w)"
proof -
  have tbl: "lease_table_ok (ww_table w)" using writer_reachable_inv [OF assms] by (simp add: world_inv_def)
  have "writer_step w \<lparr>ww_table = tbl', ww_handles = ww_handles w @ [h]\<rparr>"
    if "claim False t t owner sc_lease_options (ww_table w) = Inr (Some h, tbl')" for h tbl'
    using tbl that by (rule writer_step.claimed)
  then show ?thesis
    using assms by (auto simp: claimed_world_def split: sum.split prod.split option.split
        intro: rtranclp.rtrancl_into_rtrancl)
qed

lemma sc_world_reachable: "writer_reachable sc_world"
  unfolding sc_world_def by (intro claimed_world_reachable rtranclp.rtrancl_refl)

text \<open>
  A second process that waits for the lease of \<open>sc_lease_table\<close>, whose holder is dead: it
  tries every 250 ms.
\<close>

definition sc_retry_options :: retry_options where
  "sc_retry_options = \<lparr>lo_lockName = None, lo_leaseMs = None, lo_heartbeatIntervalMs = None,
     lo_skewMarginMs = None, lo_nowSql = None, rt_maxWaitMs = None, rt_retryIntervalMs = None\<rparr>"

definition sc_rounds :: "nat \<Rightarrow> retry_round" where
  "sc_rounds k = \<lparr>rd_table = sc_lease_table, rd_dbNow = 250 * int k, rd_updNow = 250 * int k,
     rd_clock = 250 * int k, rd_queryTable = sc_lease_table, rd_queryNow = 250 * int k\<rparr>"

lemma sc_rounds_sleep: "sleeps sc_retry_options 0 sc_rounds"
proof -
  have "retry_interval sc_retry_options = 250" by (simp add: sc_retry_options_def retry_interval_def or_default_def)
  then have "retry_delay sc_retry_options 0 (sc_rounds k) \<le> 250" for k by (simp add: retry_delay_def)
  then have "250 * int k + retry_delay sc_retry_options 0 (sc_rounds k) \<le> 250 * int (Suc k)" for k by simp
  then show ?thesis by (simp add: sleeps_def sc_rounds_def)
qed

text \<open>A connection of the first process with one table, and its guard. \<open>sc_glob\<close> reads a trailing star.\<close>

definition sc_glob :: "string \<Rightarrow> string \<Rightarrow> bool" where
  "sc_glob pattern name = (take (length pattern - 1) name = butlast pattern)"

definition sc_connection :: "nat connection" where
  "sc_connection = \<lparr>cn_lease = sc_lease_table, cn_schemaVersion = 7,
     cn_tables = [\<lparr>st_name = ''core_writer_lease'', st_sql = None\<rparr>, \<lparr>st_name = ''runs'', st_sql = None\<rparr>],
     cn_triggers = [], cn_inTransaction = False, cn_data = 0\<rparr>"

definition sc_guard :: guard where
  "sc_guard = \<lparr>gd_authority = hd sc_lease_table, gd_skewMarginMs = 2000, gd_nowSql = ''now'', gd_depth = 0,
     gd_installed = None\<rparr>"

definition sc_work :: "(nat, nat) callback" where
  "sc_work = data_work (\<lambda>d. Inr (d, Suc d))"

end
