(* ===== verification/Spec2Isabelle.thy ===== *)
theory Spec2Isabelle
  imports Governance_Scenarios Canonical_Json Writer_Scenarios
begin

text \<open>
  TAgent Core: the durable execution control plane.

  TAgent Core runs agent tasks (TaskRuns) that survive crashes. Its state lives in one SQLite
  database: a run is executed in numbered Attempts, a runtime executes an Attempt under a
  fenced execution lease, every change of a run appends to its event journal, a Supervisor
  decides what a finished Attempt was worth, and blocked runs go on through continuations.
  One process at a time may write: it holds the core writer lease and its connection is
  fenced by triggers. This development models that control plane and proves it correct.

  \<^bold>\<open>Reading the model.\<close> A table is a list of records in row order, the database a record \<open>db\<close>
  of tables, and a transaction a function to \<open>store_error + 'r \<times> db\<close>: \<open>Inl\<close> is the exception,
  and \<open>after\<close> gives the state the transaction leaves, which is the old one when it throws.
  Random ids and clock readings are arguments; hashes and SQLite's \<open>GLOB\<close> are parameters.
  Integers are mathematical; \<open>safe_integer\<close> is the guard where the code checks it.

  \<^bold>\<open>Theories.\<close> \<open>Prelude\<close> holds the result type, the guards \<open>require\<close>, \<open>fetch\<close> and \<open>and_then\<close>,
  and the table operations \<open>upd\<close>, \<open>cnt\<close> and \<open>find\<close> with their lemmas; \<open>Js_Values\<close> JSON values.
  \<^item> \<open>Attempt_Domain\<close> (packages/execution/src/domain/attempt.ts): statuses, the transition
    table, ids. \<open>Task_Policy\<close> (packages/governance/src/domain/task-policy.ts): the effective
    execution policy. \<open>Canonical_Json\<close> (operation-digest.ts): normal forms of payloads.
  \<^item> \<open>Store_Schema\<close>: rows, tables and their constraints. \<open>Task_Run_Store\<close>
    (adapters/persistence-sqlite/src/store.ts): creation, transitions, interruption, resumption,
    user input, journal and checkpoints. \<open>Store_Invariant\<close>: the invariant \<open>store_inv\<close> and that
    these operations keep it.
  \<^item> \<open>Attempt_Repository\<close>, \<open>Attempt_Settlement\<close> (sqlite/attempt-repository.ts): leases,
    candidate results, settlement, re-adjudication, recovery, cancellation; the effect of a
    settlement.
  \<^item> \<open>Task_Run_Transitions\<close>, \<open>Transition_Progress\<close> (sqlite/task-run-transition-repository.ts,
    task-run-execution-fence.ts): commands and authorities of the transition port; that a
    permitted transition succeeds.
  \<^item> \<open>Continuations\<close>, \<open>Continuation_Claims\<close> (store.ts): scheduling of blocked runs, leases of
    continuations, crash recovery; what a claim establishes.
  \<^item> \<open>Runtime_Mutations\<close> (store.ts, sqlite/attempt-runtime-mutation-repository.ts): operations,
    tool calls, phases, consumers, control inbox, decisions, command receipts, startup
    recovery, and the writes behind the execution fence.
  \<^item> \<open>Machine_Specs\<close>: the contracts shared by components, as locales. \<open>Store_Machine\<close>: all
    operations as commands of one machine, the interpretation of those contracts on it.
  \<^item> \<open>Writer_Lease\<close> (core-writer-lease.ts, writer-lease-retry.ts, writer-authority.ts) and
    \<open>Writer_Guard\<close> (writer-fence-guard.ts): the single-writer protocol.
  \<^item> \<open>Plan_Graph\<close>, \<open>Completion_Gate\<close> (store.ts, packages/governance/src/domain/governance.ts,
    application/evidence-quote-service.ts): the tables of work \<open>work_db\<close> beside the core tables:
    plan items and their revisions, the search for cycles, checks bound to receipts, artifacts,
    transcript, context manifests, evidence sources, \<open>evaluateGate\<close>, and their fenced forms.
    \<open>Gate_Correctness\<close>: the invariant \<open>work_inv\<close>, the machine \<open>exec_evidence\<close>, the specification
    of the gate. \<open>Transcripts\<close> (sqlite/transcript-repository.ts): repair.
  \<^item> \<open>Scenarios\<close>, \<open>Writer_Scenarios\<close>, \<open>Gate_Scenarios\<close>: concrete states, reached by the modelled operations, on
    which the witnesses evaluate.

  \<^bold>\<open>Interfaces.\<close> \<open>invariant_machine\<close> is interpreted on \<open>exec_command\<close> with \<open>store_inv\<close>;
  \<open>fenced_resource\<close> on the execution fences of Attempts and on the writer lease;
  \<open>guarded_port\<close> on the execution fence and on the writer guard. \<open>invariant_machine\<close> is
  also interpreted on \<open>exec_evidence\<close> with \<open>work_inv\<close>, and \<open>guarded_port\<close> on the fence before the
  tables of work.

  \<^bold>\<open>What is shown.\<close> Histories: the invariant, the agreement of runs and Attempts and the
  gap-free journal hold after any list of commands. Attempts: a settlement closes everything
  once; superseded runtimes are refused forever; runtimes with a valid fence can finish.
  Startup and continuations: interruption, claims and recovery, with the two states in which
  the code does not do what it means to. Policy: never weakened, mutations force the full
  regime. Writer: one current writer, lost authority stays lost, live writers are not
  superseded, waits end and dead writers are replaced. Guard: work and direct writes need
  authority. Runtime work: recovery settles, claims bind, outcomes are final, cursors move
  forward. Work: the cycle search is exact and stored plans stay acyclic, bound
  checks are trusted, the gate passes exactly what its specification \<open>gate_spec\<close> allows and no
  observed mutation without a trusted check, with the case its query overlooks; memory
  evidence resolves; repaired transcripts have no dangling call.

  \<^bold>\<open>Bounds and fuel.\<close> The only fuelled loop is the retry of the writer lease
  (\<open>claimCoreWriterLeaseWithRetry\<close>); a number of rounds above its budget in milliseconds is
  proved enough, since each round sleeps at least one millisecond. Everything else is total.

  \<^bold>\<open>Not modelled.\<close> The three operations that return a continuation lease are modelled but are
  no commands of the machine, because they do not keep the invariant in every state. Left
  out are sessions, messages and the session inbox, approvals, workspace goals, transcript
  search and the read views of the store (later extensions of this library); schema migrations
  and SQLite itself; the Pi runtime, local workspace, HTTP and memory adapters, the
  Supervisor's model calls, the service host and the web console (I/O, third-party code and
  user interface). The usage counters of a run are not columns of the model; a JSON effect of
  an operation is taken to be an object where SQLite extracts from it.
\<close>

section \<open>Attempts and their settlement\<close>

text \<open>C1. A settlement that returns closes everything it is about in one step: the Attempt has
  the requested terminal status, is inactive and one version further, its run has the
  matching status, the lease is released, the candidate is accepted exactly when the
  status is completed (rejected otherwise), and the decision is executed; a completed run
  rests on a \<open>complete_taskrun\<close> decision.\<close>

theorem settlement_closes_attempt:
  assumes "store_inv s" and "side_inv s" and "settleAttempt uuid input s = Inr (a', s')"
  shows "get_attempt s' (si_attemptId input) = Some a'
    \<and> a_status a' = term_attempt (si_status input) \<and> \<not> a_active a'
    \<and> a_version a' = si_expectedVersion input + 1
    \<and> (\<exists>r'. get_run s' (a_runId a') = Some r' \<and> r_status r' = term_run (si_status input)
          \<and> r_attempt r' = a_ordinal a')
    \<and> (\<exists>l. get_lease s' (si_attemptId input) = Some l \<and> l_fence l = si_fence input
          \<and> l_releasedAt l = Some (si_timestamp input))
    \<and> (\<exists>c. getCandidate s' (si_candidateResultId input) = Some c \<and> c_attemptId c = si_attemptId input
          \<and> c_status c = (if si_status input = Term_completed then Cand_accepted else Cand_rejected))
    \<and> (\<exists>d. get_decision s' (si_supervisorDecisionId input) = Some d \<and> d_status d = Dec_executed
          \<and> d_runId d = a_runId a' \<and> d_attempt d = a_ordinal a'
          \<and> (si_status input = Term_completed \<longrightarrow> d_action d = Act_complete_taskrun))"
  using settle_effect [OF assms] by blast

theorem settlement_closes_attempt_witness:
  "\<exists>a' s'. settleAttempt ''u3'' sc_settle sc_settling = Inr (a', s') \<and> a_status a' = A_completed
     \<and> (\<exists>l. get_lease s' (attemptId ''R'' 1) = Some l \<and> l_releasedAt l = Some 5)"
proof -
  have "ok (settleAttempt ''u3'' sc_settle sc_settling)" by code_simp
  then obtain a' s' where ok: "settleAttempt ''u3'' sc_settle sc_settling = Inr (a', s')" by (auto simp: ok_iff)
  have "store_inv sc_settling" "side_inv sc_settling" by code_simp+
  from settlement_closes_attempt [OF this ok] ok show ?thesis by (auto simp: sc_settle_def)
qed




section \<open>Histories of the control plane\<close>





text \<open>C10. The journal of a run is its exact history: after any commands, its events carry the sequence
  numbers \<open>1, 2, ..., last_event_seq\<close> in order, without gap or repetition.\<close>

theorem journal_gap_free:
  assumes "store_inv s" and "s' = run_all exec_command cs s" and "get_run s' rid = Some r"
  shows "map e_seq (listEvents s' rid 0 None) = [1..r_lastEventSeq r]"
proof -
  have "journal_ok s'" using assms(1,2) store_machine.run_all_inv [of s cs] by (simp add: store_inv_def)
  moreover have "r \<in> set (db_runs s')" "r_id r = rid" using assms(3) by (auto dest: get_run_SomeD)
  ultimately have j: "map e_seq (journal s' rid) = [1..r_lastEventSeq r]" by (auto simp: journal_ok_def)
  have pos: "0 < e_seq e" if "e \<in> set (journal s' rid)" for e
  proof -
    have "e_seq e \<in> set (map e_seq (journal s' rid))" using that by simp
    then show ?thesis unfolding j by simp
  qed
  have "filter (\<lambda>e. e_runId e = rid \<and> 0 < e_seq e) (db_events s') = journal s' rid"
    using pos by (auto simp: journal_def intro: filter_cong)
  moreover have "sorted (map e_seq (journal s' rid))" unfolding j by simp
  ultimately show ?thesis by (simp add: listEvents_def j sort_key_id_if_sorted)
qed

theorem journal_gap_free_witness:
  "map e_seq (listEvents (run_all exec_command sc_history sc_empty) ''R'' 0 None) = [1, 2]"
proof -
  have inv: "store_inv sc_empty" by code_simp
  have "map_option r_lastEventSeq (get_run (run_all exec_command sc_history sc_empty) ''R'') = Some 2"
    unfolding sc_history_run by code_simp
  then obtain r where r: "get_run (run_all exec_command sc_history sc_empty) ''R'' = Some r" "r_lastEventSeq r = 2"
    by (auto simp: map_option_eq_Some)
  from journal_gap_free [OF inv refl r(1)] show ?thesis by (simp add: r(2) upto.simps)
qed

section \<open>Execution leases and fences\<close>

text \<open>C9. A runtime whose lease was taken over never writes again: once a newer lease of the Attempt is
  acquired, every fenced write that presents an older fence throws without touching the
  store, whatever the control plane does in between.\<close>

theorem superseded_runtime_refused:
  assumes "acquireExecutionLease uuid aid v ow ms t s = Inr (l, s1)"
    and "xf_attemptId ctx = aid" and "xf_executionFence ctx < l_fence l"
  shows "\<exists>e. withFence dbNow ctx work (run_all exec_command cs s1) = Inl e"
proof -
  have "fence_of s1 aid = l_fence l"
    using fence_of_acquire [OF assms(1), of aid] assms(1) by (auto elim!: acquire_Inr)
  then have "\<not> fence_accepted (run_all exec_command cs s1) aid (xf_executionFence ctx)"
    using assms(3) execution_fence.superseded_refused [OF run_all_steps] by simp
  then show ?thesis
    using assms(2) by (cases "validate dbNow ctx (run_all exec_command cs s1)")
      (auto simp: fence_accepted_def withFence_def and_then_def)
qed

text \<open>The first lease of \<open>sc_leased\<close> expired and another runtime acquired the Attempt at time 2000.\<close>

theorem superseded_runtime_refused_witness:
  "\<exists>l s1. acquireExecutionLease ''tok2'' (attemptId ''R'' 1) 1 ''rt2'' 1000 2000 sc_leased = Inr (l, s1)
     \<and> (\<exists>e. fenced_appendEvent 2001 2001 sc_fence ''note'' (JObj []) s1 = Inl e)"
proof -
  have "map_option l_fence (result_of (acquireExecutionLease ''tok2'' (attemptId ''R'' 1) 1 ''rt2'' 1000 2000 sc_leased))
      = Some 2" by code_simp
  then obtain l s1 where l: "acquireExecutionLease ''tok2'' (attemptId ''R'' 1) 1 ''rt2'' 1000 2000 sc_leased = Inr (l, s1)"
    "l_fence l = 2" by (auto simp: result_of_def split: sum.splits)
  have "xf_attemptId sc_fence = attemptId ''R'' 1" "xf_executionFence sc_fence < l_fence l"
    by (simp_all add: sc_fence_def l(2))
  from superseded_runtime_refused [OF l(1) this, where cs = "[]"] l(1) show ?thesis
    by (simp add: fenced_appendEvent_def)
qed

text \<open>C11. A runtime that holds its lease can always finish: a well-formed command under a valid fence
  returns, and the run has the status the command asks for.\<close>

theorem runtime_transition_succeeds:
  assumes "store_inv s" and "validateRuntimeCommand c = Inr n" and "validate dbNow f s = Inr sc"
    and "uuid \<notin> au_id ` set (db_audit s)"
  shows "\<exists>out s'. transitionRuntime uuid t dbNow c f s = Inr ([out], s')
     \<and> to_runId out = xs_runId sc \<and> to_sourceAttemptId out = xf_attemptId f
     \<and> to_toStatus out = fst (RUNTIME_TRANSITIONS (rt_kind n))
     \<and> (\<exists>r'. get_run s' (xs_runId sc) = Some r' \<and> r_status r' = fst (RUNTIME_TRANSITIONS (rt_kind n)))"
  by (rule transitionRuntime_ok [OF assms])

theorem runtime_transition_succeeds_witness:
  "\<exists>out s'. transitionRuntime ''u4'' 4 4 sc_block_command sc_fence sc_leased = Inr ([out], s')
     \<and> to_toStatus out = Blocked"
proof -
  have inv: "store_inv sc_leased" by code_simp
  have "map_sum id rt_kind (validateRuntimeCommand sc_block_command) = Inr RT_block" by code_simp
  then obtain n where n: "validateRuntimeCommand sc_block_command = Inr n" "rt_kind n = RT_block"
    by (cases "validateRuntimeCommand sc_block_command") auto
  have "ok (validate 4 sc_fence sc_leased)" by code_simp
  then obtain sc where sc: "validate 4 sc_fence sc_leased = Inr sc" by (auto simp: ok_iff)
  have fresh: "''u4'' \<notin> au_id ` set (db_audit sc_leased)" by code_simp
  from runtime_transition_succeeds [OF inv n(1) sc fresh, of 4] n(2) show ?thesis by auto
qed

section \<open>Startup and continuations\<close>

text \<open>C25. The startup interruption leaves no run running: when every running run has a running Attempt,
  it returns, reports each of them and interrupts them all.\<close>

theorem startup_interrupts_all:
  assumes "store_inv s" and "inj uuids" and "\<forall>j. uuids j \<notin> au_id ` set (db_audit s)"
    and "\<forall>r \<in> set (db_runs s). r_status r = Running \<longrightarrow>
           (\<forall>a. getAttemptForRun s (r_id r) (r_attempt r) = Some a \<longrightarrow> a_status a \<noteq> A_settling)"
  shows "\<exists>outs s'. transitionSystem uuids t startup_command startup_authority s = Inr (outs, s')
     \<and> (\<forall>r \<in> set (db_runs s'). r_status r \<noteq> Running) \<and> store_inv s'
     \<and> set (map to_runId outs) = r_id ` {r \<in> set (db_runs s). r_status r = Running}"
proof -
  let ?rs = "sort_key r_id (filter (\<lambda>r. r_status r = Running) (db_runs s))"
  have "a_status a = A_running" if r: "r \<in> set ?rs" and a: "getAttemptForRun s (r_id r) (r_attempt r) = Some a" for r a
  proof -
    have run: "r \<in> set (db_runs s)" "r_status r = Running" using r by simp_all
    obtain b where "getAttemptForRun s (r_id r) (r_attempt r) = Some b" "status_agrees (r_status r) (a_status b)"
      using getAttemptForRun_current [OF assms(1) run(1)] by blast
    then have "status_agrees Running (a_status a)" using a run(2) by simp
    moreover have "a_status a \<noteq> A_settling" using assms(4) run a by blast
    ultimately show ?thesis by simp
  qed
  then obtain scs where scs: "interruptible s ?rs = Inr scs" "map ss_runId scs = map r_id ?rs"
    using interruptible_ok [OF assms(1), of ?rs] by auto
  obtain s' where s': "markInterrupted uuids t s = Inr s'" "\<forall>r \<in> set (db_runs s'). r_status r \<noteq> Running"
    using markInterrupted_ok [OF assms(1-3)] by blast
  let ?outs = "map (\<lambda>sc. same_attempt_outcome (ss_runId sc) (ss_attemptId sc) (ss_ordinal sc) Running Interrupted [] None) scs"
  have "transitionSystem uuids t startup_command startup_authority s = Inr (?outs, s')"
    using scs s' by (simp add: startup_runs interrupt_active_def listInterruptibleSystemAttempts_def and_then_def)
  moreover have "map to_runId ?outs = map r_id ?rs"
    unfolding scs(2) [symmetric] by (simp add: same_attempt_outcome_def)
  then have "set (map to_runId ?outs) = r_id ` {r \<in> set (db_runs s). r_status r = Running}" by simp
  ultimately show ?thesis
    using s'(2) markInterrupted_inv [OF assms(1) s'(1)] by blast
qed

theorem startup_interrupts_all_witness:
  "\<exists>outs s'. transitionSystem (\<lambda>i. replicate (i + 9) (CHR ''v'')) 9 startup_command startup_authority sc_leased
       = Inr (outs, s') \<and> map r_status (db_runs s') = [Interrupted]"
proof -
  let ?u = "\<lambda>i::nat. replicate (i + 9) (CHR ''v'')"
  have inv: "store_inv sc_leased" by code_simp
  have inj: "inj ?u" by (rule injI) (drule arg_cong [where f = length], simp)
  have "map au_id (db_audit sc_leased) = [''u1'']" by code_simp
  then have au: "au_id ` set (db_audit sc_leased) = {''u1''}" by (metis list.set(1,2) list.set_map)
  have fresh: "\<forall>j. ?u j \<notin> au_id ` set (db_audit sc_leased)"
    unfolding au by (auto dest: arg_cong [where f = length])
  have "list_all (\<lambda>a. a_status a \<noteq> A_settling) (db_attempts sc_leased)" by code_simp
  then have run: "\<forall>r \<in> set (db_runs sc_leased). r_status r = Running \<longrightarrow>
      (\<forall>a. getAttemptForRun sc_leased (r_id r) (r_attempt r) = Some a \<longrightarrow> a_status a \<noteq> A_settling)"
    by (auto simp: list_all_iff getAttemptForRun_def dest!: find_SomeD)
  obtain outs s' where s': "transitionSystem ?u 9 startup_command startup_authority sc_leased = Inr (outs, s')"
    using startup_interrupts_all [OF inv inj fresh run] by blast
  have "map_option (\<lambda>s. map r_status (db_runs s)) (state_of (transitionSystem ?u 9 startup_command startup_authority sc_leased))
      = Some [Interrupted]" by code_simp
  with s' show ?thesis by (simp add: state_of_def)
qed

text \<open>C26. A crash between the recording of a candidate and its settlement blocks every later start: as
  long as a running run has a settling Attempt, the startup interruption throws and
  interrupts nothing.\<close>

theorem settling_attempt_blocks_startup:
  assumes "r \<in> set (db_runs s)" and "r_status r = Running"
    and "getAttemptForRun s (r_id r) (r_attempt r) = Some a" and "a_status a = A_settling"
  shows "\<exists>e. transitionSystem uuids t startup_command startup_authority s = Inl e"
proof -
  obtain e where "listInterruptibleSystemAttempts s = Inl e"
    using interruptible_settling [of r _ s a] assms unfolding listInterruptibleSystemAttempts_def by fastforce
  then show ?thesis by (simp add: startup_runs interrupt_active_def and_then_def)
qed

theorem settling_attempt_blocks_startup_witness:
  "store_inv sc_settling
   \<and> (\<exists>e. transitionSystem (\<lambda>i. show_int (int i)) 9 startup_command startup_authority sc_settling = Inl e)"
proof
  show "store_inv sc_settling" by code_simp
  let ?r = "hd (db_runs sc_settling)"
  have "?r \<in> set (db_runs sc_settling)" "r_status ?r = Running" by code_simp+
  moreover have "map_option a_status (getAttemptForRun sc_settling (r_id ?r) (r_attempt ?r)) = Some A_settling" by code_simp
  then obtain a where "getAttemptForRun sc_settling (r_id ?r) (r_attempt ?r) = Some a" "a_status a = A_settling"
    by (auto simp: map_option_eq_Some)
  ultimately show "\<exists>e. transitionSystem (\<lambda>i. show_int (int i)) 9 startup_command startup_authority sc_settling = Inl e"
    by (rule settling_attempt_blocks_startup)
qed

text \<open>C20. A successful claim of a continuation moves its blocked run to the next Attempt, running, under
  the claimer's lease; it succeeds only while no other run of the session is running, and
  until the run blocks again every further claim of it is declined and changes nothing.\<close>

theorem continuation_claim_exclusive:
  assumes "store_inv s" and "continuations_ok (db_continuations s)"
    and "claimContinuation uuid t rid ow ms s = Inr (Some (c', run', ev), s')"
  shows "\<exists>run. get_run s rid = Some run \<and> r_status run = Blocked
     \<and> get_run s' rid = Some run' \<and> r_status run' = Running \<and> r_attempt run' = r_attempt run + 1
     \<and> n_status c' = Co_running \<and> n_leaseOwner c' = ow \<and> n_leaseUntil c' = Some (t + ms)
     \<and> n_scheduledAttemptId c' = Some (attemptId rid (r_attempt run'))
     \<and> (\<forall>r \<in> set (db_runs s'). r_sessionId r = r_sessionId run' \<and> r_status r = Running \<longrightarrow> r_id r = rid)
     \<and> (\<forall>uuid' t' ow' ms'. claimContinuation uuid' t' rid ow' ms' s' = Inr (None, s'))"
proof -
  have ids: "distinct (map n_id (db_continuations s))" using assms(2) by (simp add: continuations_ok_def)
  obtain run where run: "get_run s rid = Some run" "r_status run = Blocked"
      "\<forall>r \<in> set (db_runs s). r_sessionId r = r_sessionId run \<and> r_id r \<noteq> rid \<longrightarrow> r_status r \<noteq> Running"
    and run': "get_run s' rid = Some run'" "r_status run' = Running" "r_attempt run' = r_attempt run + 1"
    and c': "n_status c' = Co_running" "n_leaseOwner c' = ow" "n_leaseUntil c' = Some (t + ms)"
      "n_scheduledAttemptId c' = Some (attemptId rid (r_attempt run'))"
    and runs: "db_runs s' = upd (\<lambda>x. r_id x = rid) (claimed_run t run) (db_runs s)"
    using claim_effect [OF assms(1) ids assms(3)] by metis
  have "run' = claimed_run t run run"
    using run'(1) find_key_upd_Some [OF run(1) [unfolded get_run_def], where f = "claimed_run t run"] get_run_SomeD [OF run(1)]
    by (simp add: get_run_def runs claimed_run_def)
  then have "r_id r = rid" if "r \<in> set (db_runs s')" "r_sessionId r = r_sessionId run'" "r_status r = Running" for r
    using that run(3) by (auto simp: runs set_upd claimed_run_def)
  moreover have "claimContinuation uuid' t' rid ow' ms' s' = Inr (None, s')" for uuid' t' ow' ms'
    using claim_declined [OF run'(1)] run'(2) by simp
  ultimately show ?thesis using run(1,2) run' c' by blast
qed

theorem continuation_claim_exclusive_witness:
  "\<exists>c' run' ev s'. claimContinuation ''u5'' 6 ''R'' ''coord'' 100 sc_queued = Inr (Some (c', run', ev), s')
     \<and> n_leaseUntil c' = Some 106 \<and> claimContinuation ''u7'' 7 ''R'' ''other'' 100 s' = Inr (None, s')"
proof -
  have "store_inv sc_queued" "continuations_ok (db_continuations sc_queued)" by code_simp+
  moreover have "map_option (\<lambda>x. x \<noteq> None) (result_of (claimContinuation ''u5'' 6 ''R'' ''coord'' 100 sc_queued)) = Some True"
    by code_simp
  then obtain c' run' ev s' where ok: "claimContinuation ''u5'' 6 ''R'' ''coord'' 100 sc_queued = Inr (Some (c', run', ev), s')"
    by (auto simp: result_of_def split: sum.splits)
  ultimately show ?thesis using continuation_claim_exclusive by fastforce
qed

text \<open>C27. Recovering expired continuation leases keeps the store coherent as long as each leased
  continuation still belongs to a run that is running, interrupted or blocked.\<close>

theorem continuation_recovery_coherent:
  assumes "store_inv s" and "continuations_ok (db_continuations s)" and "leases_recoverable s"
    and "recoverContinuationsAfterRestart uuids t s = Inr (res, s')"
  shows "store_inv s'"
  by (rule recoverContinuationsAfterRestart_inv [OF assms])

theorem continuation_recovery_coherent_witness:
  "\<exists>res s'. recoverContinuationsAfterRestart (\<lambda>i. ''v'' @ show_int (int i)) 200 sc_claimed = Inr (res, s') \<and> store_inv s'
     \<and> map r_status (db_runs s') = [Blocked]"
proof -
  let ?res = "recoverContinuationsAfterRestart (\<lambda>i. ''v'' @ show_int (int i)) 200 sc_claimed"
  have pre: "store_inv sc_claimed" "continuations_ok (db_continuations sc_claimed)" by code_simp+
  have "map r_status (db_runs sc_claimed) = [Running]" by code_simp
  then have "\<forall>r \<in> set (db_runs sc_claimed). r_status r = Running" by (cases "db_runs sc_claimed") auto
  then have rec: "leases_recoverable sc_claimed"
    by (auto simp: leases_recoverable_def dest!: get_run_SomeD)
  have out: "map_option (\<lambda>s. map r_status (db_runs s)) (state_of ?res) = Some [Blocked]" by code_simp
  then obtain res s' where ok: "?res = Inr (res, s')" by (auto simp: state_of_def split: sum.splits)
  show ?thesis using continuation_recovery_coherent [OF pre rec ok] ok out by (simp add: state_of_def)
qed

text \<open>C28. Without that condition it is lost: a run completed by the second Attempt whose continuation was
  not closed before the owner stopped is recovered into a store where the run is completed
  and its Attempt blocked. The state is reached by ordinary commands.\<close>

theorem continuation_recovery_incoherent:
  "\<exists>res s'. store_inv sc_abandoned
     \<and> recoverContinuationsAfterRestart (\<lambda>i. ''v'' @ show_int (int i)) 200 sc_abandoned = Inr (res, s')
     \<and> map r_status (db_runs s') = [Completed] \<and> map a_status (db_attempts s') = [A_blocked, A_blocked]
     \<and> \<not> store_inv s'"
proof -
  let ?res = "recoverContinuationsAfterRestart (\<lambda>i. ''v'' @ show_int (int i)) 200 sc_abandoned"
  have inv: "store_inv sc_abandoned" by code_simp
  have out: "map_option (\<lambda>s. (map r_status (db_runs s), map a_status (db_attempts s), store_inv s)) (state_of ?res)
      = Some ([Completed], [A_blocked, A_blocked], False)" by code_simp
  then obtain res s' where "?res = Inr (res, s')" by (auto simp: state_of_def split: sum.splits)
  with inv out show ?thesis by (simp add: state_of_def)
qed

section \<open>Attempt lifecycle and identity\<close>

text \<open>The lifecycle of an Attempt is finite and never revisits a status: along the transition table
  every path has at most four steps and distinct statuses.\<close>

theorem attempt_lifecycle_bounded:
  assumes "attempt_path s ts t"
  shows "length ts \<le> 4 \<and> distinct (s # ts) \<and> list_all2 canTransitionAttempt (butlast (s # ts)) ts"
proof -
  have "list_all2 canTransitionAttempt (butlast (s # ts)) ts"
    using assms by (induction rule: attempt_path.induct) (auto simp: attempt_step_iff)
  with assms attempt_path_bounded attempt_path_distinct_aux show ?thesis by blast
qed

theorem attempt_lifecycle_bounded_witness:
  "distinct [A_queued, A_starting, A_running, A_settling, A_completed]"
proof -
  have "attempt_path A_queued [A_starting, A_running, A_settling, A_completed] A_completed"
    by (intro attempt_path.intros attempt_step.intros) (simp_all add: canTransitionAttempt_def)
  from attempt_lifecycle_bounded [OF this] show ?thesis by simp
qed

text \<open>Attempt ids identify: two ids accepted by \<open>attemptIdFor\<close> are equal only for the same run and
  ordinal, and they are the ids the store writes.\<close>

theorem attempt_ids_injective:
  assumes "attemptIdFor r m = Inr i" and "attemptIdFor r' n = Inr i"
  shows "r = r' \<and> m = n \<and> i = attemptId r m"
  using assms by (auto simp: attemptIdFor_def split: if_splits)

theorem attempt_ids_injective_witness: "attemptIdFor ''a:1'' 2 = Inr ''attempt:a:1:2''"
proof -
  have "ok (attemptIdFor ''a:1'' 2)" by code_simp
  then obtain i where i: "attemptIdFor ''a:1'' 2 = Inr i" by (auto simp: ok_iff)
  have "attemptId ''a:1'' 2 = ''attempt:a:1:2''" by code_simp
  with attempt_ids_injective [OF i i] i show ?thesis by simp
qed

section \<open>Execution policy\<close>

text \<open>C31. Core never weakens a policy: mode, side-effect risk, evidence and review of the effective policy
  are at least those the contract proposed, whatever operations were observed.\<close>

theorem policy_never_weakened:
  "modeRank (p_mode (policySource contract)) \<le> modeRank (p_mode (effectiveTaskExecutionPolicy contract ops att))
   \<and> riskRank (p_sideEffectRisk (policySource contract))
       \<le> riskRank (p_sideEffectRisk (effectiveTaskExecutionPolicy contract ops att))
   \<and> evidenceRank (p_evidencePolicy (policySource contract))
       \<le> evidenceRank (p_evidencePolicy (effectiveTaskExecutionPolicy contract ops att))
   \<and> reviewRank (p_reviewPolicy (policySource contract))
       \<le> reviewRank (p_reviewPolicy (effectiveTaskExecutionPolicy contract ops att))"
  unfolding effective_fields maxByRank_rank
  by (intro conjI order_trans [OF normalizedMode_ge(1) raised_mode_ge(1)]
      order_trans [OF normalizedMode_ge(2) raised_mode_ge(2)] order_trans [OF normalizedMode_ge(3) raised_mode_ge(3)]
      max.cobounded1)

text \<open>C32. An observed mutation forces the full regime: as soon as an operation of the current Attempt may
  have mutated the workspace, the mode is workspace mutation or external action, the
  evidence is a trusted check and the review is full.\<close>

theorem mutation_forces_full_review:
  assumes "mutationObserved ops att"
  shows "p_mode (effectiveTaskExecutionPolicy contract ops att) \<in> {Workspace_mutation, External_action}
     \<and> p_evidencePolicy (effectiveTaskExecutionPolicy contract ops att) = Ev_trusted_check
     \<and> p_reviewPolicy (effectiveTaskExecutionPolicy contract ops att) = Rev_full"
  unfolding effective_fields using assms
  by (cases "normalizedMode (policySource contract)"; cases "p_reviewPolicy (policySource contract)")
    (simp_all add: raised_mode_def maxByRank_def)

theorem mutation_forces_full_review_witness:
  "p_reviewPolicy (effectiveTaskExecutionPolicy (None :: contract option)
     [\<lparr>ov_operationType = ''tool.write'', ov_status = ''succeeded'', ov_attempt = 1, ov_effects = None\<rparr>] (Some 1))
   = Rev_full"
proof -
  have "mutationObserved
     [\<lparr>ov_operationType = ''tool.write'', ov_status = ''succeeded'', ov_attempt = 1, ov_effects = None\<rparr>] (Some 1)"
    by code_simp
  from mutation_forces_full_review [OF this] show ?thesis by blast
qed

section \<open>The core writer\<close>

text \<open>C16. At most one writer is current: in every reachable state of the lease table and the handles
  processes hold, two handles that pass the currency test are the same.\<close>

theorem one_current_writer:
  assumes "writer_reachable w" and "h \<in> set (ww_handles w)" and "h' \<in> set (ww_handles w)"
    and "isCurrent u t h (ww_table w)" and "isCurrent u' t' h' (ww_table w)"
  shows "h = h'"
proof -
  have inv: "world_inv w" using assms(1) by (rule writer_reachable_inv)
  then have "writer_accepted w () (handle_fence h)" "writer_accepted w () (handle_fence h')"
    using assms(4,5) by (auto simp: writer_accepted_def world_inv_def)
  then have "handle_fence h = handle_fence h'" by (rule writer.accepted_unique)
  then show ?thesis using inv assms(2,3) by (auto simp: world_inv_def distinct_map dest: inj_onD)
qed

theorem one_current_writer_witness:
  "writer_reachable sc_world \<and> (\<exists>h h'. ww_handles sc_world = [h, h'] \<and> \<not> isCurrent True 50000 h (ww_table sc_world)
     \<and> isCurrent True 50000 h' (ww_table sc_world)
     \<and> (\<forall>x \<in> set (ww_handles sc_world). isCurrent True 50000 x (ww_table sc_world) \<longrightarrow> x = h'))"
proof -
  have "map (\<lambda>h. isCurrent True 50000 h (ww_table sc_world)) (ww_handles sc_world) = [False, True]" by code_simp
  then obtain h h' where hs: "ww_handles sc_world = [h, h']"
    and cur: "\<not> isCurrent True 50000 h (ww_table sc_world)" "isCurrent True 50000 h' (ww_table sc_world)"
    unfolding map_eq_Cons_conv map_is_Nil_conv by blast
  have "x = h'" if "x \<in> set (ww_handles sc_world)" "isCurrent True 50000 x (ww_table sc_world)" for x
    by (rule one_current_writer [OF sc_world_reachable that(1) _ that(2) cur(2)]) (simp add: hs)
  with hs cur sc_world_reachable show ?thesis by blast
qed



text \<open>C17. A live writer is never superseded: a claim succeeds only on an empty table, after a release, or
  after the row expired by more than the skew margin, and it always takes the next fence.\<close>

theorem live_writer_not_superseded:
  assumes "lease_table_ok tbl" and "claim tx dbNow updNow owner options tbl = Inr (Some h, tbl')"
  shows "w_fence (wh_current h) = writer_fence tbl + 1 \<and> tbl' = [wh_current h]
     \<and> (\<forall>w \<in> set tbl. w_releasedAt w \<noteq> None \<or> w_expiresAt w + ro_skewMarginMs (wh_options h) < dbNow)"
  using claim_Some [OF assms] by (auto simp: lapsed_def)

theorem live_writer_not_superseded_witness:
  "\<exists>h tbl'. claim False 30000 30000 sc_owner2 sc_lease_options sc_lease_table = Inr (Some h, tbl')
     \<and> w_fence (wh_current h) = 2"
proof -
  have tbl: "lease_table_ok sc_lease_table" by code_simp
  have "map_option (\<lambda>x. x \<noteq> None) (result_of (claim False 30000 30000 sc_owner2 sc_lease_options sc_lease_table)) = Some True"
    by code_simp
  then obtain h tbl' where ok: "claim False 30000 30000 sc_owner2 sc_lease_options sc_lease_table = Inr (Some h, tbl')"
    by (auto simp: result_of_def split: sum.splits)
  have "writer_fence sc_lease_table = 1" by code_simp
  with live_writer_not_superseded [OF tbl ok] ok show ?thesis by simp
qed

text \<open>C33. The bounded wait for the lease ends: when every sleep lasts at least as long as asked, a number of
  rounds that exceeds the budget in milliseconds is enough for the loop to return.\<close>

theorem lease_retry_terminates:
  assumes "sleeps options startedAt env" and "nat (retry_budget options) < n"
  shows "\<exists>res. claimCoreWriterLeaseWithRetry n env startedAt owner options = Some res"
proof (cases "0 < retry_interval options")
  case True
  have "startedAt + int 0 \<le> rd_clock (env 0)" using assms(1) by (simp add: sleeps_def)
  from retry_loop_terminates [OF True assms(1) this, of n] assms(2) show ?thesis
    by (simp add: claimCoreWriterLeaseWithRetry_def)
qed (simp add: claimCoreWriterLeaseWithRetry_def)

theorem lease_retry_terminates_witness:
  "\<exists>res. claimCoreWriterLeaseWithRetry 23001 sc_rounds 0 sc_owner2 sc_retry_options = Some res"
  by (rule lease_retry_terminates [OF sc_rounds_sleep]) code_simp

text \<open>C34. A dead writer is replaced within the default budget: when the holder no longer renews (its row
  expires at most one lease after the wait began), and the database clock is read at most
  999 ms before the process clock of the same round, the wait ends with a lease.\<close>

theorem dead_writer_replaced:
  assumes "valid_owner owner" and "resolveOptions (lease_options.truncate options) = Inr ro"
    and "ro_lockName ro = CORE_WRITER_LOCK_NAME" and "rt_maxWaitMs options = None"
    and "safe_integer (retry_budget options)" and "safe_integer (retry_interval options)" and "0 < retry_interval options"
    and "sleeps options startedAt env" and "nat (retry_budget options) < n"
    and "\<forall>k. lease_table_ok (rd_table (env k))
           \<and> (\<forall>w \<in> set (rd_table (env k)). w_expiresAt w \<le> startedAt + ro_leaseMs ro)
           \<and> rd_clock (env k) \<le> rd_dbNow (env k) + 999 \<and> rd_dbNow (env k) \<le> rd_updNow (env k)"
  shows "\<exists>h tbl. claimCoreWriterLeaseWithRetry n env startedAt owner options = Some (Inr (h, tbl))"
proof -
  have ro: "ro_leaseMs ro = or_default (lo_leaseMs options) DEFAULT_WRITER_LEASE_MS"
    "ro_skewMarginMs ro = or_default (lo_skewMarginMs options) DEFAULT_WRITER_SKEW_MARGIN_MS" "0 < ro_leaseMs ro"
    "0 \<le> ro_skewMarginMs ro"
    using assms(2) by (auto simp: resolveOptions_def Let_def lease_options.truncate_def)
  then have budget: "retry_budget options = ro_leaseMs ro + ro_skewMarginMs ro + 1000"
    using assms(4) by (simp add: retry_budget_def or_default_def)
  have no_throw: "claim False d u owner (lease_options.truncate options) (rd_table (env j)) \<noteq> Inl x" for d u j x
    using claim_total [OF _ assms(1-3), of "rd_table (env j)" d u] assms(10) by force
  have "\<exists>h tbl. claim False (rd_dbNow (env j)) (rd_updNow (env j)) owner (lease_options.truncate options) (rd_table (env j))
      = Inr (Some h, tbl)" if j: "remaining_budget options startedAt (env j) \<le> 0" for j
  proof (rule claim_decides [OF _ assms(1-3)])
    show "lease_table_ok (rd_table (env j))" using assms(10) by blast
    have "startedAt + ro_leaseMs ro + ro_skewMarginMs ro < rd_dbNow (env j)"
      using j assms(10) [rule_format, of j] ro(3,4) by (auto simp: remaining_budget_def budget)
    then have "lapsed (ro_skewMarginMs ro) (rd_dbNow (env j)) w \<and> lapsed (ro_skewMarginMs ro) (rd_updNow (env j)) w"
      if "w \<in> set (rd_table (env j))" for w using that assms(10) [rule_format, of j] by (force simp: lapsed_def)
    then show "rd_table (env j) = [] \<or> (\<exists>w. rd_table (env j) = [w] \<and> lapsed (ro_skewMarginMs ro) (rd_dbNow (env j)) w
        \<and> lapsed (ro_skewMarginMs ro) (rd_updNow (env j)) w)"
      using assms(10) [rule_format, of j] by (auto simp: lease_table_single)
  qed
  then have "retry_loop n env 0 startedAt owner options \<noteq> Some (Inl e)" for e
    using retry_loop_unavailable [of n env 0 startedAt owner options e] no_throw by fastforce
  moreover have run: "claimCoreWriterLeaseWithRetry n env startedAt owner options = retry_loop n env 0 startedAt owner options"
    using assms(5-7) ro budget by (simp add: claimCoreWriterLeaseWithRetry_def)
  moreover have "startedAt + int 0 \<le> rd_clock (env 0)" using assms(8) by (simp add: sleeps_def)
  then obtain res where "retry_loop n env 0 startedAt owner options = Some res"
    using retry_loop_terminates [OF assms(7,8), of 0 n] assms(9) by auto
  ultimately show ?thesis by (cases res) auto
qed

theorem dead_writer_replaced_witness:
  "\<exists>h tbl. claimCoreWriterLeaseWithRetry 23001 sc_rounds 0 sc_owner2 sc_retry_options = Some (Inr (h, tbl))"
proof -
  have own: "valid_owner sc_owner2" by code_simp
  have "map_sum id (\<lambda>r. (ro_lockName r = CORE_WRITER_LOCK_NAME, ro_leaseMs r))
     (resolveOptions (lease_options.truncate sc_retry_options)) = Inr (True, 20000)" by code_simp
  then obtain ro where ro: "resolveOptions (lease_options.truncate sc_retry_options) = Inr ro"
    "ro_lockName ro = CORE_WRITER_LOCK_NAME" "ro_leaseMs ro = 20000"
    by (cases "resolveOptions (lease_options.truncate sc_retry_options)") auto
  have opt: "rt_maxWaitMs sc_retry_options = None" "safe_integer (retry_budget sc_retry_options)"
    "safe_integer (retry_interval sc_retry_options)" "0 < retry_interval sc_retry_options"
    "nat (retry_budget sc_retry_options) < 23001" by code_simp+
  have tbl: "lease_table_ok sc_lease_table" "list_all (\<lambda>w. w_expiresAt w \<le> 20000) sc_lease_table" by code_simp+
  show ?thesis
    by (rule dead_writer_replaced [OF own ro(1,2) opt(1-4) sc_rounds_sleep opt(5)])
      (use tbl ro(3) in \<open>simp add: sc_rounds_def list_all_iff\<close>)
qed

section \<open>The writer guard\<close>

text \<open>No unit of work runs without authority: a top-level guarded unit of work either throws, in
  which case the connection is as before, or its authority was current and unexpired when it
  was entered and the work itself returned that result.\<close>

theorem guarded_work_needs_authority:
  assumes "gd_depth g = 0"
  shows "(\<exists>e. run_guarded t cb g conn = Inl e)
     \<or> (\<exists>r conn' conn''. run_guarded t cb g conn = Inr (r, conn') \<and> authority_current True t g conn
          \<and> \<not> cn_inTransaction conn \<and> \<not> cb_thenable cb r
          \<and> cb_body cb (g\<lparr>gd_depth := 1\<rparr>) (conn\<lparr>cn_inTransaction := True\<rparr>) = Inr (r, conn'')
          \<and> conn' = conn''\<lparr>cn_inTransaction := False\<rparr>)"
proof (cases "run_guarded t cb g conn")
  case (Inr x)
  then obtain r conn' where run: "run_guarded t cb g conn = Inr (r, conn')" by (cases x) auto
  from run_guarded_top [OF assms run] run show ?thesis by blast
qed blast

theorem guarded_work_needs_authority_witness:
  "(\<exists>e. run_guarded 30000 sc_work sc_guard sc_connection = Inl e)
   \<and> map_option cn_data (state_of (run_guarded 100 sc_work sc_guard sc_connection)) = Some 1"
proof
  have d: "gd_depth sc_guard = 0" and no: "\<not> authority_current True 30000 sc_guard sc_connection" by code_simp+
  from guarded_work_needs_authority [OF d, of 30000 sc_work sc_connection] no
  show "\<exists>e. run_guarded 30000 sc_work sc_guard sc_connection = Inl e" by blast
  show "map_option cn_data (state_of (run_guarded 100 sc_work sc_guard sc_connection)) = Some 1" by code_simp
qed

text \<open>C18. The installed triggers fence the connection itself: after the guard is installed, a direct write
  to any application table throws once the authority is lost or expired, or the schema
  changed, and the error is reported as lost authority.\<close>

theorem stale_connection_writes_refused:
  assumes "installConnectionGuard glob t g conn = Inr (g', conn')" and "gd_installed g = None"
    and "table \<in> set (listMainApplicationTables glob conn)" and "cn_triggers later = cn_triggers conn'"
    and "\<not> authority_current True t' g later \<or> cn_schemaVersion later \<noteq> cn_schemaVersion conn"
  shows "write_table t' table oper f later = Inl (W_error WRITER_AUTHORITY_TRIGGER_ABORT)
     \<and> is_lost (normalizeWriterAuthorityError (W_error WRITER_AUTHORITY_TRIGGER_ABORT))"
proof
  from install_Inr [OF assms(1,2)] obtain ig where "createConnectionGuard glob g conn = (ig, conn')" by blast
  from create_cover [OF this assms(3)] obtain i where
    "trigger_for g (cn_schemaVersion conn) i table oper \<in> set (cn_triggers later)" using assms(4) by metis
  then show "write_table t' table oper f later = Inl (W_error WRITER_AUTHORITY_TRIGGER_ABORT)"
    using assms(5) by (rule write_table_refused)
  show "is_lost (normalizeWriterAuthorityError (W_error WRITER_AUTHORITY_TRIGGER_ABORT))" by code_simp
qed

theorem stale_connection_writes_refused_witness:
  "\<exists>g' conn'. installConnectionGuard sc_glob 100 sc_guard sc_connection = Inr (g', conn')
     \<and> write_table 30000 ''runs'' Op_update Suc conn' = Inl (W_error WRITER_AUTHORITY_TRIGGER_ABORT)"
proof -
  have "ok (installConnectionGuard sc_glob 100 sc_guard sc_connection)" by code_simp
  then obtain g' conn' where i: "installConnectionGuard sc_glob 100 sc_guard sc_connection = Inr (g', conn')"
    by (auto simp: ok_iff)
  have n: "gd_installed sc_guard = None" and tb: "''runs'' \<in> set (listMainApplicationTables sc_glob sc_connection)"
    by code_simp+
  have "map_option (authority_current True 30000 sc_guard) (state_of (installConnectionGuard sc_glob 100 sc_guard sc_connection))
      = Some False" by code_simp
  then have "\<not> authority_current True 30000 sc_guard conn'" by (simp add: i state_of_def)
  with stale_connection_writes_refused [OF i n tb refl, of 30000] i show ?thesis by blast
qed

text \<open>Installing or refreshing the guard makes it current: whatever triggers and schema version the
  connection had before, the recorded trigger set is exactly the one on the connection.\<close>

theorem refreshed_guard_current:
  assumes "refreshConnectionGuard glob t g conn = Inr (g', conn')" and "gd_installed g \<noteq> None"
  shows "assertConnectionGuardCurrent g' conn' = Inr () \<and> authority_current True t g conn
     \<and> (\<forall>table \<in> set (listMainApplicationTables glob conn). \<forall>oper.
          \<exists>tr \<in> set (cn_triggers conn'). gt_table tr = table \<and> gt_operation tr = oper
            \<and> gt_fence tr = w_fence (gd_authority g))"
proof -
  let ?d = "dropTriggers (listManagedTriggers conn) conn"
  obtain ig c where c: "createConnectionGuard glob g ?d = (ig, c)" by fastforce
  with assms have g': "g' = g\<lparr>gd_installed := Some ig\<rparr>" "conn' = c" "authority_current True t g conn"
    by (auto simp: refreshConnectionGuard_def assertTopLevel_def assertCurrent_def)
  have "\<exists>tr \<in> set (cn_triggers c). gt_table tr = table \<and> gt_operation tr = oper \<and> gt_fence tr = w_fence (gd_authority g)"
    if table: "table \<in> set (listMainApplicationTables glob conn)" for table oper
    using create_cover [OF c, of table oper] table by (force simp: trigger_for_def)
  then show ?thesis using create_current [OF drop_listed c] g' by blast
qed

theorem refreshed_guard_current_witness:
  "\<exists>g' conn'. refreshConnectionGuard sc_glob 100 (sc_guard\<lparr>gd_installed := Some \<lparr>ig_schemaVersion = 1, ig_tables = [],
       ig_triggerNames = []\<rparr>\<rparr>) sc_connection = Inr (g', conn') \<and> assertConnectionGuardCurrent g' conn' = Inr ()"
proof -
  let ?g = "sc_guard\<lparr>gd_installed := Some \<lparr>ig_schemaVersion = 1, ig_tables = [], ig_triggerNames = []\<rparr>\<rparr>"
  have "ok (refreshConnectionGuard sc_glob 100 ?g sc_connection)" by code_simp
  then obtain g' conn' where r: "refreshConnectionGuard sc_glob 100 ?g sc_connection = Inr (g', conn')" by (auto simp: ok_iff)
  from refreshed_guard_current [OF r] r show ?thesis by simp
qed



section \<open>Runtime work\<close>

text \<open>C36. Startup recovery settles all work in flight: after it returns, no operation is running, no
  capability it authorized is pending, no tool call is running and no control item is being
  delivered; running it again finds nothing and changes nothing.\<close>

theorem startup_recovery_settles:
  assumes "runStartupRecovery t s = Inr (n, s')"
  shows "settled_work s'
     \<and> runStartupRecovery t' s' = Inr (\<lparr>rc_operations = 0, rc_toolAttempts = 0, rc_controlInbox = 0\<rparr>, s')"
  using runStartupRecovery_settles [OF assms] runStartupRecovery_nothing by blast

theorem startup_recovery_settles_witness:
  "\<exists>n s'. runStartupRecovery 9 sc_working = Inr (n, s') \<and> rc_operations n = 1 \<and> rc_toolAttempts n = 1
     \<and> \<not> settled_work sc_working \<and> settled_work s'"
proof -
  have res: "map_option (\<lambda>n. (rc_operations n, rc_toolAttempts n)) (result_of (runStartupRecovery 9 sc_working)) = Some (1, 1)"
    and no: "\<not> settled_work sc_working" by code_simp+
  from res obtain n s' where r: "runStartupRecovery 9 sc_working = Inr (n, s')" "rc_operations n = 1" "rc_toolAttempts n = 1"
    by (auto simp: result_of_def split: sum.splits)
  from startup_recovery_settles [OF r(1)] r no show ?thesis by blast
qed

text \<open>Claiming an operation is idempotent and binding: repeating the claim returns the same receipt as
  not claimed and changes nothing, and a claim of the same id with another payload, type or
  run is refused.\<close>

theorem operation_claim_binding:
  assumes "claimOperation hash t oid rid n ty pl s = Inr ((row, c), s')"
  shows "claimOperation hash t' oid rid n' ty pl s' = Inr ((row, False), s')
     \<and> (hash pl' \<noteq> hash pl \<or> ty' \<noteq> ty \<or> rid' \<noteq> rid \<longrightarrow> (\<exists>e. claimOperation hash t' oid rid' n' ty' pl' s' = Inl e))"
  using claimOperation_again [OF assms] claimOperation_conflict [OF assms] by blast

theorem operation_claim_binding_witness:
  "\<exists>row s'. claimOperation (\<lambda>_. ''h'') 5 ''O2'' ''R'' 1 ''tool.bash'' JNull sc_working = Inr ((row, True), s')
     \<and> claimOperation (\<lambda>_. ''h'') 6 ''O2'' ''R'' 1 ''tool.bash'' JNull s' = Inr ((row, False), s')
     \<and> (\<exists>e. claimOperation (\<lambda>_. ''h'') 6 ''O2'' ''R'' 1 ''tool.write'' JNull s' = Inl e)"
proof -
  have "map_option snd (result_of (claimOperation (\<lambda>_. ''h'') 5 ''O2'' ''R'' 1 ''tool.bash'' JNull sc_working)) = Some True"
    by code_simp
  then obtain row s' where r: "claimOperation (\<lambda>_. ''h'') 5 ''O2'' ''R'' 1 ''tool.bash'' JNull sc_working = Inr ((row, True), s')"
    by (auto simp: result_of_def split: sum.splits)
  from operation_claim_binding [OF r, where t' = 6 and n' = 1 and pl' = JNull and ty' = "''tool.write''" and rid' = "''R''"] r show ?thesis by simp
qed

text \<open>A recorded outcome is final: an operation that is no longer running keeps its outcome, because
  an update to a terminal status with the default expectation is refused.\<close>

theorem operation_outcome_final:
  assumes "getOperation s oid = Some x" and "op_status x \<noteq> ''running''"
    and "operation_over (ou_status u)" and "ou_expectedStatuses u = None"
  shows "\<exists>e. updateOperation t oid u s = Inl e"
  using updateOperation_outcome_final [OF assms] by blast

theorem operation_outcome_final_witness:
  "\<exists>e. updateOperation 10 ''O1'' sc_success (after sc_working (runStartupRecovery 9 sc_working)) = Inl e"
proof -
  let ?s = "after sc_working (runStartupRecovery 9 sc_working)"
  have "map_option op_status (getOperation ?s ''O1'') = Some ''outcome_unknown''" by code_simp
  then obtain x where x: "getOperation ?s ''O1'' = Some x" "op_status x = ''outcome_unknown''" by (auto simp: map_option_eq_Some)
  then have "op_status x \<noteq> ''running''" by simp
  moreover have "operation_over (ou_status sc_success)" "ou_expectedStatuses sc_success = None" by code_simp+
  ultimately show ?thesis using operation_outcome_final [OF x(1)] by blast
qed

text \<open>C37. The tool guard stops loops: a call whose tool and arguments equal the last five finished calls
  of the run is blocked.\<close>

theorem tool_guard_stops_repeats:
  assumes "finished = rev (filter (\<lambda>x. ta_runId x = rid \<and> ta_status x \<noteq> ''running'') (db_toolAttempts s))"
    and "5 \<le> length finished" and "list_all (\<lambda>x. ta_toolName x = nm \<and> ta_argsHash x = h) (take 5 finished)"
  shows "evaluateToolGuard s rid nm h \<noteq> Guard_open"
  using evaluateToolGuard_repeats [OF assms(1,2)] assms(3) by (simp add: list_all_iff)

theorem tool_guard_stops_repeats_witness: "evaluateToolGuard sc_looping ''R'' ''read'' ''h'' \<noteq> Guard_open"
  by (rule tool_guard_stops_repeats [OF refl]) code_simp+

text \<open>C38. The cursor of an event consumer only moves forward, never past the journal, and only for the
  current generation: a consumer that was replaced is told so and moves nothing.\<close>

theorem consumer_cursor_forward:
  assumes "getEventConsumer s rid cid = Some c" and "get_run s rid = Some r"
    and "ackEventConsumer t rid cid g n s = (res, s')"
  shows "(g \<noteq> ec_generation c \<longrightarrow> res = Ack_stale \<and> s' = s)
     \<and> (res = Ack_accepted \<longrightarrow> ec_ackedSeq c \<le> n \<and> n \<le> r_lastEventSeq r
          \<and> (\<exists>c'. getEventConsumer s' rid cid = Some c' \<and> ec_ackedSeq c' = n \<and> ec_generation c' = g))
     \<and> (res \<noteq> Ack_accepted \<longrightarrow> s' = s)"
proof -
  have "res = Ack_stale \<and> s' = s" if "g \<noteq> ec_generation c"
    using ackEventConsumer_stale [OF assms(1) _ assms(2)] that assms(3) by force
  moreover have "ec_ackedSeq c \<le> n \<and> n \<le> r_lastEventSeq r
      \<and> (\<exists>c'. getEventConsumer s' rid cid = Some c' \<and> ec_ackedSeq c' = n \<and> ec_generation c' = g)" if "res = Ack_accepted"
    using ackEventConsumer_forward [of t rid cid g n s s'] assms that by auto
  moreover have "s' = s" if "res \<noteq> Ack_accepted"
    using assms that by (auto simp: ackEventConsumer_def Let_def split: if_splits)
  ultimately show ?thesis by blast
qed

theorem consumer_cursor_forward_witness:
  "\<exists>s'. ackEventConsumer 5 ''R'' ''ui'' 1 1 sc_working = (Ack_accepted, s')
     \<and> map_option ec_ackedSeq (getEventConsumer s' ''R'' ''ui'') = Some 1
     \<and> ackEventConsumer 6 ''R'' ''ui'' 0 1 sc_working = (Ack_stale, sc_working)"
proof -
  have "map_option ec_generation (getEventConsumer sc_working ''R'' ''ui'') = Some 1" by code_simp
  then obtain c where c: "getEventConsumer sc_working ''R'' ''ui'' = Some c" "ec_generation c = 1"
    by (auto simp: map_option_eq_Some)
  have "map_option r_lastEventSeq (get_run sc_working ''R'') = Some 1" by code_simp
  then obtain r where r: "get_run sc_working ''R'' = Some r" by (auto simp: map_option_eq_Some)
  have "fst (ackEventConsumer 5 ''R'' ''ui'' 1 1 sc_working) = Ack_accepted" by code_simp
  then obtain s' where s': "ackEventConsumer 5 ''R'' ''ui'' 1 1 sc_working = (Ack_accepted, s')"
    by (cases "ackEventConsumer 5 ''R'' ''ui'' 1 1 sc_working") simp
  obtain res s2 where s2: "ackEventConsumer 6 ''R'' ''ui'' 0 1 sc_working = (res, s2)" by fastforce
  from consumer_cursor_forward [OF c(1) r s'] consumer_cursor_forward [OF c(1) r s2] s' s2 c(2)
  show ?thesis by auto
qed

section \<open>Plans, checks and the completion gate\<close>

text \<open>C21. The search for cyclic plan items is exact: it reports nothing exactly when the dependency
  graph of the plan has no cycle, and every key it reports lies on a cycle.\<close>

theorem plan_search_exact:
  "(cyclicPlanItemKeys plan = [] \<longleftrightarrow> acyclic (depends (dependency_map plan)))
   \<and> set (cyclicPlanItemKeys plan) \<subseteq> {k. (k, k) \<in> (depends (dependency_map plan))\<^sup>+}"
  using no_cycle_iff [of plan] search_exact(2) [of "dependency_map plan"]
  by (auto simp: cyclicPlanItemKeys_def Let_def)

text \<open>C12. Whatever the runtime, the control plane, the supervisor and the operator write, in whatever order, the stored plan of
  every run is acyclic, its item keys are unique, the revisions of each item are numbered
  1, 2, ... without a gap, and so are the entries of the transcript.\<close>

theorem work_tables_invariant:
  assumes "work_inv (gd_work g)" and "s' = gd_work (run_all exec_governance cs g)"
  shows "acyclic (depends (dependency_map (plan_of s' runId))) \<and> distinct (map pi_key (plan_of s' runId))
     \<and> revisions_of s' runId key = map int [1..<Suc (length (revisions_of s' runId key))]
     \<and> transcript_of s' runId = map int [1..<Suc (length (transcript_of s' runId))]"
proof -
  have inv: "work_inv s'" unfolding assms(2) using assms(1) by (rule governance_machine.run_all_inv)
  then have "plan_inv s'" by (simp add: work_inv_def)
  then have "acyclic (depends (dependency_map (plan_of s' runId)))" "distinct (map pi_key (plan_of s' runId))"
    by (auto simp: plan_inv_def no_cycle_iff intro: plan_of_keys)
  then show ?thesis using inv unfolding work_inv_def numbered_def by blast
qed

theorem work_tables_invariant_witness:
  "distinct (map pi_key (plan_of sc_reported ''R'')) \<and> map pi_key (plan_of sc_reported ''R'') = [''a'']
   \<and> revisions_of sc_reported ''R'' ''a'' = [1]"
proof (intro conjI)
  have run: "sc_reported = gd_work (run_all exec_governance (map Gv_work
      [E_plan sc_hash 5 5 5 sc_fence sc_item, E_check (\<lambda>_. ''h'') 6 6 sc_fence sc_check]) sc_unplanned)"
    by (simp only: run_all_work gov_db.simps sc_unplanned_def flip: sc_reported_run)
  have "work_inv (gd_work sc_unplanned)" by (simp add: sc_unplanned_def sc_start_inv)
  from work_tables_invariant [OF this run, of "''R''"]
  show "distinct (map pi_key (plan_of sc_reported ''R''))" by blast
  show "map pi_key (plan_of sc_reported ''R'') = [''a'']" by code_simp
  show "revisions_of sc_reported ''R'' ''a'' = [1]" by code_simp
qed



text \<open>C3. The completion gate of a run refines its specification: when it is on, it passes exactly
  when every required plan item is done (and there is one where the policy needs a plan); for
  criterion-aware plans, when the dependencies of the items are done, their evidence is
  available to the run and they cover the objectives and criteria of the contract; and when
  every required check is trusted (and there is one where the policy needs it).\<close>

theorem gate_refines_specification:
  assumes "work_inv s" and "completion_view s runId = Some view" and "evaluateGate sha256 view s = Inr g"
    and "gv_gateRequired view" and "effectiveGateProfile (gv_contract view) \<noteq> Gate_relaxed"
  shows "cg_passed g \<longleftrightarrow> gate_spec sha256 s view"
  using evaluateGate_spec [OF assms(3) completion_view_keys [OF assms(1,2)] assms(4,5)] .

theorem gate_refines_specification_witness:
  "\<exists>view g. completion_view sc_reported ''R'' = Some view \<and> evaluateGate sc_hash view sc_reported = Inr g
     \<and> cg_passed g \<and> gate_spec sc_hash sc_reported view"
proof -
  have "map_option (\<lambda>v. (gv_gateRequired v, effectiveGateProfile (gv_contract v), evaluateGate sc_hash v sc_reported))
      (completion_view sc_reported ''R'') = Some (True, Gate_strict, Inr \<lparr>cg_passed = True, cg_failures = []\<rparr>)" by code_simp
  then obtain view where v: "completion_view sc_reported ''R'' = Some view" "gv_gateRequired view"
      "effectiveGateProfile (gv_contract view) \<noteq> Gate_relaxed"
      "evaluateGate sc_hash view sc_reported = Inr \<lparr>cg_passed = True, cg_failures = []\<rparr>"
    by (auto simp: map_option_eq_Some)
  have "work_inv sc_reported" by (rule sc_work_inv)
  from gate_refines_specification [OF this v(1,4,2,3)] v show ?thesis by auto
qed

text \<open>C13. No unverified change completes: when the gate passes a run in whose current Attempt it observed
  a mutation, some required check rests on the receipt of a Bash command of that very Attempt
  that succeeded with exit code 0.\<close>

theorem mutation_needs_trusted_check:
  assumes "work_inv s" and "completion_view s runId = Some view" and "evaluateGate sha256 view s = Inr g" and "cg_passed g"
    and "gv_gateRequired view" and "effectiveGateProfile (gv_contract view) \<noteq> Gate_relaxed"
    and "gate_mutationObserved (wd_core s) (gv_id view) (gv_attempt view)"
  shows "\<exists>c \<in> set (gv_checks view). ck_required c \<and> ck_status c = Check_passed
     \<and> (\<exists>x \<in> set (db_operations (wd_core s)). ck_sourceOperationId c = Some (op_id x) \<and> op_runId x = gv_id view
          \<and> op_attempt x = gv_attempt view \<and> op_type x = ''tool.bash'' \<and> op_status x = ''succeeded''
          \<and> js_zero (js_field (receipt_details x) ''exitCode''))"
proof -
  have "gate_spec sha256 s view"
    using evaluateGate_spec [OF assms(3) completion_view_keys [OF assms(1,2)] assms(5,6)] assms(4) by simp
  then obtain c where c: "c \<in> set (gv_checks view)" "ck_required c" "trustedCheck (wd_core s) view c"
    using gate_policy_mutation [OF assms(7)] unfolding gate_spec_def by blast
  then show ?thesis using trusted_receipt [OF c(3)] by (intro bexI [of _ c]) (auto simp: trustedCheck_def)
qed

theorem mutation_needs_trusted_check_witness:
  "\<exists>view. completion_view sc_reported ''R'' = Some view
     \<and> gate_mutationObserved (wd_core sc_reported) (gv_id view) (gv_attempt view)
     \<and> (\<exists>c \<in> set (gv_checks view). ck_required c \<and> ck_status c = Check_passed)"
proof -
  have "map_option (\<lambda>v. (gv_gateRequired v, effectiveGateProfile (gv_contract v), evaluateGate sc_hash v sc_reported,
        gate_mutationObserved (wd_core sc_reported) (gv_id v) (gv_attempt v)))
      (completion_view sc_reported ''R'') = Some (True, Gate_strict, Inr \<lparr>cg_passed = True, cg_failures = []\<rparr>, True)" by code_simp
  then obtain view where v: "completion_view sc_reported ''R'' = Some view" "gv_gateRequired view"
      "effectiveGateProfile (gv_contract view) \<noteq> Gate_relaxed"
      "evaluateGate sc_hash view sc_reported = Inr \<lparr>cg_passed = True, cg_failures = []\<rparr>"
      "gate_mutationObserved (wd_core sc_reported) (gv_id view) (gv_attempt view)"
    by (auto simp: map_option_eq_Some)
  have "work_inv sc_reported" by (rule sc_work_inv)
  from mutation_needs_trusted_check [OF this v(1,4) _ v(2,3,5)] v show ?thesis by auto
qed













text \<open>C29. C45. A run completes on an acceptance that has expired: the gates stored while it was live carry
  its id, and a later acceptance of another criterion re-adjudicates those gates as they are.
\<close>

theorem stale_acceptance_completes:
  "map_option r_status (get_run (core sc_second) ''R'') = Some Blocked
   \<and> map_option (map cv_status) (contract_coverage (core sc_second) ''R'') = Some [Cover_blocked, Cover_blocked]
   \<and> map_option r_status (get_run (core sc_stale) ''R'') = Some Completed
   \<and> map un_criterionId (listAcceptedUncertainties (core sc_stale) ''R'' (Some 60)) = [''ac-2'']"
proof -
  have "(let g = sc_second; g' = in_work (sc_acceptance ''ac-2'' None 60) g
      in (map_option r_status (get_run (core g) ''R''), map_option (map cv_status) (contract_coverage (core g) ''R''),
          map_option r_status (get_run (core g') ''R''), map un_criterionId (listAcceptedUncertainties (core g') ''R'' (Some 60))))
    = (Some Blocked, Some [Cover_blocked, Cover_blocked], Some Completed, [''ac-2''])" by code_simp
  then show ?thesis by (simp add: sc_stale_def Let_def)
qed

text \<open>C23. C40. Reviews at checkpoints never leave more live steering decisions for an Attempt than the
  policy allows, whichever events they are called with.
\<close>

theorem steering_bounded:
  assumes "reviewCheckpoint policy env runId event g = Inr (x, g')"
    and "length (live_steers (core g) rid n) \<le> sp_maxSteersPerAttempt policy"
  shows "length (live_steers (core g') rid n) \<le> sp_maxSteersPerAttempt policy"
  using assms(1)
proof (cases rule: reviewCheckpoint_cases)
  case none
  with assms(2) show ?thesis by simp
next
  case (steer d run g1)
  then show ?thesis
    using assms(2) by (auto simp: length_live_steers cnt_append is_live_steer_def)
qed

theorem steering_bounded_witness:
  "\<exists>x g'. reviewCheckpoint default_policy (sc_env ''D'' 9) ''R'' sc_loop_event sc_loop = Inr (Some x, g')
     \<and> d_action x = Act_steer \<and> length (live_steers (core g') ''R'' 1) \<le> 2"
proof -
  have "(case reviewCheckpoint default_policy (sc_env ''D'' 9) ''R'' sc_loop_event sc_loop of
      Inr r \<Rightarrow> map_option d_action (fst r) = Some Act_steer | Inl _ \<Rightarrow> False)" by code_simp
  then obtain x g' where ok: "reviewCheckpoint default_policy (sc_env ''D'' 9) ''R'' sc_loop_event sc_loop = Inr (Some x, g')"
    and x: "d_action x = Act_steer" by (auto split: sum.splits)
  have "length (live_steers (core sc_loop) ''R'' 1) \<le> sp_maxSteersPerAttempt default_policy" by code_simp
  from steering_bounded [OF ok this] ok x show ?thesis by (auto simp: default_policy_def)
qed

text \<open>C4. C41. For a run with a contract under a strict gate, a failed deterministic gate is final for the
  review: whatever the reviewer would answer and whatever uncertainties are accepted, the decision
  is to wait for control messages, to continue or to ask for approval, never to complete or block.
\<close>

theorem deterministic_gate_is_floor:
  assumes "supervised_view sha256 (gd_work g) runId = Inr (Some run)"
    and "gv_contract (sv_run run) \<noteq> None" and "effectiveGateProfile (gv_contract (sv_run run)) = Gate_strict"
    and "\<not> cg_passed (sv_completionGate run)"
    and "reviewSettled env run seq response truncated answer offers meanwhile g = Inr ((gates, d), g')"
  shows "d_action d \<in> {Act_wait_for_runtime, Act_pause_for_approval, Act_start_continuation}"
  using assms(5)
proof (cases rule: reviewSettled_cases)
  case (audited det proposed policy accepted evaluator model g1 c)
  from assms(1) have gate: "evaluateGate sha256 (sv_run run) (gd_work g) = Inr (sv_completionGate run)"
    by (auto simp: supervised_view_def split: option.splits)
  obtain a where a: "reviewDeterministicPrerequisites run = Some a"
    and gates: "ag_failures (gs_progress (au_gates (sa_audit a))) @ ag_failures (gs_evidence (au_gates (sa_audit a))) \<noteq> []"
      "ag_failures (gs_contract (au_gates (sa_audit a))) = []" "ag_criterionCoverage (gs_contract (au_gates (sa_audit a))) = None"
    and auto: "\<And>f. f \<in> set (ag_failures (gs_progress (au_gates (sa_audit a))) @ ag_failures (gs_evidence (au_gates (sa_audit a)))
              @ ag_failures (gs_completion (au_gates (sa_audit a)))) \<Longrightarrow> fl_disposition f = Auto_fixable"
    using prerequisites_found [OF gate assms(4,2)] by blast
  have "proposed = a" using audited(3) a assms(3) by (simp add: proposed_audit_def Let_def)
  then have "d_action d \<in> {Act_pause_for_approval, Act_start_continuation}"
    unfolding audited(6) enforced_action
    by (intro repairable_action) (use gates auto approval_gates(4) in \<open>auto simp: approval_gates(1-3)\<close>)
  then show ?thesis by simp
qed (use assms(3) in simp_all)

theorem deterministic_gate_is_floor_witness:
  "\<exists>run gates d g'. sc_view sc_unplanned = Some run \<and> sc_review_by sc_good_answer run sc_unplanned = Inr ((gates, d), g')
     \<and> d_action d \<noteq> Act_complete_taskrun"
proof -
  have "(case sc_view sc_unplanned of None \<Rightarrow> False
     | Some run \<Rightarrow> gv_contract (sv_run run) \<noteq> None \<and> effectiveGateProfile (gv_contract (sv_run run)) = Gate_strict
         \<and> \<not> cg_passed (sv_completionGate run) \<and> ok (sc_review_by sc_good_answer run sc_unplanned))" by code_simp
  then obtain run gates d g' where run: "sc_view sc_unplanned = Some run" "gv_contract (sv_run run) \<noteq> None"
      "effectiveGateProfile (gv_contract (sv_run run)) = Gate_strict" "\<not> cg_passed (sv_completionGate run)"
    and ok: "sc_review_by sc_good_answer run sc_unplanned = Inr ((gates, d), g')"
    by (auto simp: ok_iff split: option.splits)
  have "supervised_view sc_hash (gd_work sc_unplanned) ''R'' = Inr (Some run)"
    using run(1) by (auto simp: sc_view_def split: sum.splits)
  from deterministic_gate_is_floor [OF this run(2-4) ok [unfolded sc_review_by_def]] run(1) ok show ?thesis by auto
qed



end
